(* ===== verification/Kpp_Prelude.thy ===== *)
theory Kpp_Prelude
  imports Main "HOL-Library.Word"
begin

text \<open>
  Shared types and lemmas of the kpp development.

  kpp is a header-only C++ layer over the Linux kernel API.  What a kpp operation does to the
  outside is the sequence of kernel functions it calls, with their arguments.  The model
  therefore carries a trace of kernel calls; what a kernel function returns is a parameter of
  the definition that calls it.  Nothing is assumed about the inside of the kernel.

  \<^item> \<open>ptr\<close>: what a C pointer variable of the source can hold: the null pointer, an error
    pointer (\<open>ERR_PTR\<close> of \<^verbatim>\<open>linux/err.h\<close>), or the address of an object.
  \<^item> \<open>oid\<close>: the address of a C++ object (the \<open>this\<close> of a member function).
  \<^item> \<open>kcall\<close>: a call of a kernel function, grouped by subsystem, and \<open>trace\<close>, the calls made
    so far, oldest first.
\<close>

section \<open>Pointers, error numbers, kernel calls\<close>

datatype ptr = NULL | ERR_PTR nat | Ptr nat

type_synonym oid = nat

type_synonym c_int = "32 word"

type_synonym c_ulong = "64 word"

fun IS_ERR :: "ptr \<Rightarrow> bool" where
  "IS_ERR (ERR_PTR _) = True"
| "IS_ERR _ = False"

text \<open>The address an object pointer holds.\<close>

fun ptr_oid :: "ptr \<Rightarrow> oid" where
  "ptr_oid NULL = 0"
| "ptr_oid (ERR_PTR e) = e"
| "ptr_oid (Ptr n) = n"

datatype gfp = GFP_KERNEL | GFP_ATOMIC

abbreviation ENOENT :: int where "ENOENT \<equiv> 2"

abbreviation EIO :: int where "EIO \<equiv> 5"

abbreviation ENOMEM :: int where "ENOMEM \<equiv> 12"

abbreviation EACCES :: int where "EACCES \<equiv> 13"

abbreviation EFAULT :: int where "EFAULT \<equiv> 14"

abbreviation EBADF :: int where "EBADF \<equiv> 9"

abbreviation EMFILE :: int where "EMFILE \<equiv> 24"

abbreviation EINVAL :: int where "EINVAL \<equiv> 22"

abbreviation ENOTTY :: int where "ENOTTY \<equiv> 25"

text \<open>
  Calls on memory.  \<open>Construct\<close> and \<open>Destruct\<close> are the calls of the constructor and of the
  destructor of the user's type \<open>T\<close> on the object at that address.
\<close>

datatype mem_call =
    Kmalloc nat gfp ptr
  | Kfree ptr
  | Construct ptr
  | Destruct ptr

text \<open>Calls on the network stack and on BPF.\<close>

datatype net_call =
    Consume_skb ptr
  | Skb_push ptr nat
  | Skb_pull ptr nat
  | Skb_trim ptr nat
  | Skb_reserve ptr nat
  | Dev_get ptr
  | Dev_put ptr
  | Dst_release ptr
  | Bpf_prog_put ptr
  | Bpf_prog_run ptr nat
  | Bpf_set_link_xdp_fd int int nat
  | Sock_release ptr
  | Sock_connect ptr nat int int
  | Sock_bind ptr nat int
  | Sock_listen ptr int
  | Sock_accept ptr ptr int bool
  | Kernel_sendmsg ptr nat nat int
  | Kernel_recvmsg ptr nat nat int
  | Kernel_sock_shutdown ptr
  | Netlink_kernel_release ptr
  | Netlink_unicast ptr ptr nat
  | Netlink_broadcast ptr ptr nat nat gfp

text \<open>
  Calls on the driver model and on the virtual file system.  A \<open>const char*\<close> argument is the
  characters readable from it, \<open>None\<close> if it is null; an embedded kernel object is named by the
  address of the C++ object it is a member of.
\<close>

type_synonym cstr = "char list option"

datatype dev_call =
    Kset_create_and_add cstr ptr
  | Kset_unregister ptr
  | Kobject_init oid
  | Kobject_add oid ptr cstr
  | Kobject_del oid
  | Kobject_get oid
  | Kobject_put oid
  | Class_create cstr
  | Class_destroy ptr
  | Debugfs_create_dir cstr ptr
  | Debugfs_create_file cstr nat ptr ptr ptr
  | Debugfs_remove_recursive ptr
  | Cdev_init oid ptr
  | Cdev_add oid nat nat
  | Cdev_del oid
  | Device_create ptr nat cstr
  | Device_destroy ptr nat
  | Alloc_chrdev_region nat nat cstr
  | Unregister_chrdev_region nat nat
  | Nf_register_net_hook oid
  | Nf_unregister_net_hook oid
  | Notifier_register oid
  | Notifier_unregister oid

text \<open>
  Calls on timers and work queues; \<open>Work_function\<close> is the call of a work item's functor and
  \<open>Timer_function\<close> the call of a timer's functor at that address.
\<close>

datatype async_call =
    Timer_setup oid
  | Mod_timer oid c_ulong
  | Del_timer_sync oid
  | Timer_function int
  | Init_work ptr
  | Schedule_work ptr
  | Work_function ptr

text \<open>Calls on per-CPU data, pages, poll tables and module parameters.\<close>

datatype obj_call =
    Alloc_percpu nat
  | Free_percpu ptr
  | Kmap ptr
  | Kunmap ptr
  | Poll_wait ptr ptr ptr
  | Module_param_cb cstr oid nat

text \<open>Calls on locks, semaphores and completions, by the address of the primitive.\<close>

datatype sync_call =
    Mutex_init oid
  | Lock_mutex oid
  | Unlock_mutex oid
  | Mutex_destroy oid
  | Spin_lock_init oid
  | Lock_spin oid
  | Unlock_spin oid
  | Sema_init oid int
  | Down oid
  | Down_interruptible oid
  | Down_killable oid
  | Down_timeout oid int
  | Up oid
  | Init_completion oid
  | Wait_for_completion oid
  | Complete oid
  | Complete_all oid

datatype kcall =
    Mem mem_call
  | Net net_call
  | Dev dev_call
  | Async async_call
  | Obj obj_call
  | Sync sync_call

type_synonym trace = "kcall list"

text \<open>
  The outcome of a client command on objects with shared state: it is done, it is not a command
  that C++ allows here (an object used outside its lifetime), or the library touched memory that
  is not there.
\<close>

datatype 'a outcome = Ok 'a | Ill_formed | Fault

fun outcome_of :: "'a option \<Rightarrow> 'a outcome" where
  "outcome_of None = Fault"
| "outcome_of (Some a) = Ok a"

text \<open>The calls by which a member function extends the trace \<open>tr\<close> to \<open>tr'\<close>.\<close>

definition new_calls :: "trace \<Rightarrow> trace \<Rightarrow> trace" where
  "new_calls tr tr' = drop (length tr) tr'"

lemma new_calls_snoc [simp]: "new_calls tr (tr @ ks) = ks"
  by (simp add: new_calls_def)

text \<open>
  Placement \<open>new\<close> and \<open>delete\<close> of \<^verbatim>\<open>core/Freestanding.hpp\<close>: the object is put where it was told, and
  nothing is given back.
\<close>

definition placement_new :: "nat \<Rightarrow> ptr \<Rightarrow> ptr" where
  "placement_new sz p = p"

definition placement_delete :: "ptr \<Rightarrow> ptr \<Rightarrow> trace \<Rightarrow> trace" where
  "placement_delete p place tr = tr"

lemma placement_simps [simp]: "placement_new sz p = p" "placement_delete p place tr = tr"
  by (simp_all add: placement_new_def placement_delete_def)

section \<open>Shared automation\<close>

named_theorems handle_defs \<open>the member functions of the owning handle classes\<close>

named_theorems sync_defs \<open>the member functions of the synchronisation classes\<close>

named_theorems guard_defs \<open>member functions that test the handle before they use it\<close>

lemma count_list_append_single [simp]:
  "count_list (xs @ [y]) x = count_list xs x + of_bool (y = x)"
  by simp

text \<open>A 64-bit word below \<open>2 ^ 63\<close> reads the same signed and unsigned.\<close>

lemma uint_small: "unat (a :: c_ulong) < 2 ^ 63 \<Longrightarrow> uint a < 2 ^ 63"
proof -
  assume "unat a < 2 ^ 63"
  then have "int (unat a) < int (2 ^ 63)" by (simp only: of_nat_less_iff)
  then show ?thesis by simp
qed

lemma sint_eq_uint_small: "unat (a :: c_ulong) < 2 ^ 63 \<Longrightarrow> sint a = uint a"
  using uint_small [of a] signed_take_bit_int_eq_self [of 63 "uint a"]
  by (simp add: sint_uint order_trans [OF _ uint_ge_0])

lemma sint_small: "unat (a :: c_ulong) < 2 ^ 63 \<Longrightarrow> sint a = int (unat a)"
  by (simp add: sint_eq_uint_small)

lemma sint_diff_small:
  assumes "unat (a :: c_ulong) < 2 ^ 63" "unat (b :: c_ulong) < 2 ^ 63"
  shows "sint (a - b) = uint a - uint b"
proof -
  have "- (2 ^ 63) \<le> uint a - uint b" "uint a - uint b < 2 ^ 63"
    using uint_small [OF assms(1)] uint_small [OF assms(2)] uint_ge_0 [of a] uint_ge_0 [of b] by linarith+
  then show ?thesis
    using assms by (simp add: sint_word_diff sint_eq_uint_small signed_take_bit_int_eq_self)
qed

text \<open>
  What the kernel did at the calls of a trace: \<open>f tr c r\<close> is the effect on \<open>r\<close> of the call \<open>c\<close> after the
  trace \<open>tr\<close>, which may depend on what the kernel answers there.
\<close>

fun replay_from :: "(trace \<Rightarrow> kcall \<Rightarrow> 'r \<Rightarrow> 'r) \<Rightarrow> trace \<Rightarrow> 'r \<Rightarrow> trace \<Rightarrow> 'r" where
  "replay_from f pre r [] = r"
| "replay_from f pre r (c # tr) = replay_from f (pre @ [c]) (f pre c r) tr"

definition replay :: "(trace \<Rightarrow> kcall \<Rightarrow> 'r \<Rightarrow> 'r) \<Rightarrow> 'r \<Rightarrow> trace \<Rightarrow> 'r" where
  "replay f r tr = replay_from f [] r tr"

lemma replay_from_snoc: "replay_from f pre r (tr @ [c]) = f (pre @ tr) c (replay_from f pre r tr)"
  by (induction tr arbitrary: pre r) simp_all

lemma replay_Nil [simp]: "replay f r [] = r"
  by (simp add: replay_def)

lemma replay_snoc [simp]: "replay f r (tr @ [c]) = f tr c (replay f r tr)"
  by (simp add: replay_def replay_from_snoc)

text \<open>
  \<open>tally A P\<close> counts the members of a finite set that satisfy a predicate.  The lemmas take the
  count apart at one member, which is what an operation on one object changes.
\<close>

definition tally :: "'a set \<Rightarrow> ('a \<Rightarrow> bool) \<Rightarrow> nat" where
  "tally A P = card {x \<in> A. P x}"

lemma tally_empty [simp]: "tally {} P = 0"
  by (simp add: tally_def)

lemma tally_insert [simp]:
  assumes "finite A" "x \<notin> A"
  shows "tally (insert x A) P = of_bool (P x) + tally A P"
proof -
  have "{z \<in> insert x A. P z} = (if P x then insert x {z \<in> A. P z} else {z \<in> A. P z})"
    by auto
  with assms show ?thesis by (simp add: tally_def)
qed

lemma tally_remove:
  assumes "finite A" "x \<in> A"
  shows "tally A P = of_bool (P x) + tally (A - {x}) P"
  using tally_insert [of "A - {x}" x P] assms by (simp add: insert_absorb)

lemma tally_cong: "(\<And>x. x \<in> A \<Longrightarrow> P x = Q x) \<Longrightarrow> tally A P = tally A Q"
  unfolding tally_def by (rule arg_cong [where f = card]) auto

lemma tally_le: "finite A \<Longrightarrow> tally A P \<le> card A"
  unfolding tally_def by (rule card_mono) auto

lemma tally_pos: "finite A \<Longrightarrow> x \<in> A \<Longrightarrow> P x \<Longrightarrow> 0 < tally A P"
  by (simp add: tally_remove)

lemma tally_eq_0: "finite A \<Longrightarrow> tally A P = 0 \<longleftrightarrow> (\<forall>x\<in>A. \<not> P x)"
  by (auto simp: tally_def)

end
