(* ===== verification/Kpp_Handle.thy ===== *)
theory Kpp_Handle
  imports Kpp_Prelude
begin

text \<open>
  The ownership discipline that the move-only wrapper classes of kpp share.

  \<^verbatim>\<open>SKB\<close>, \<^verbatim>\<open>NetDevice\<close>, \<^verbatim>\<open>DstEntry\<close>, \<^verbatim>\<open>KernelSocket\<close>, \<^verbatim>\<open>BPFProgram\<close>, \<^verbatim>\<open>KSet\<close>, \<^verbatim>\<open>DeviceClass\<close>,
  \<^verbatim>\<open>debugfs::Dentry\<close>, \<^verbatim>\<open>XDPAttachment\<close> and \<^verbatim>\<open>UniquePtr\<close> all hold one kernel pointer, forbid
  copying, and define a destructor, a move constructor and a move assignment.  This theory holds
  what a client may do with objects of such a class (\<open>hcmd\<close>, \<open>hstep\<close>, \<open>hrun\<close>), the laws a class
  has to satisfy (locale \<open>owning_handle\<close>) and the consequences of the laws for every client
  program, proved once: no pointer is leaked and none is released twice.

  The member functions work on a store of objects, indexed by the objects' addresses, because
  move assignment compares \<open>this\<close> with \<open>&other\<close>.
\<close>

section \<open>Client programs\<close>

record 'o handle_ops =
  op_ptr :: "'o \<Rightarrow> ptr"
  op_dtor :: "'o \<Rightarrow> trace \<Rightarrow> trace"
  op_move_ctor :: "oid \<Rightarrow> oid \<Rightarrow> (oid \<Rightarrow> 'o) \<Rightarrow> (oid \<Rightarrow> 'o)"
  op_move_assign :: "oid \<Rightarrow> oid \<Rightarrow> (oid \<Rightarrow> 'o) \<times> trace \<Rightarrow> (oid \<Rightarrow> 'o) \<times> trace"

text \<open>
  \<open>New x v\<close> brings an object \<open>v\<close> just built by one of its constructors to life at address \<open>x\<close>;
  the other commands name existing objects by their addresses.
\<close>

datatype 'o hcmd = is_New: New oid 'o | Destroy oid | MoveNew oid oid | MoveAssign oid oid

text \<open>
  The state of a client: the store, the addresses of the objects in their lifetime, the kernel
  calls made, and the pointers that constructors have been given (a history variable).
\<close>

record 'o hstate =
  h_objs :: "oid \<Rightarrow> 'o"
  h_alive :: "oid set"
  h_trace :: trace
  h_adopted :: "ptr list"

definition hinit :: "(oid \<Rightarrow> 'o) \<Rightarrow> 'o hstate" where
  "hinit s = \<lparr>h_objs = s, h_alive = {}, h_trace = [], h_adopted = []\<rparr>"

text \<open>
  One command.  \<open>None\<close> marks a command that C++ does not allow at this point: construction over
  a living object, or the use of an object outside its lifetime.
\<close>

fun hstep :: "'o handle_ops \<Rightarrow> 'o hcmd \<Rightarrow> 'o hstate \<Rightarrow> 'o hstate option" where
  "hstep H (New x v) \<sigma> =
     (if x \<in> h_alive \<sigma> then None
      else Some (\<sigma>\<lparr>h_objs := (h_objs \<sigma>)(x := v), h_alive := insert x (h_alive \<sigma>),
                   h_adopted := h_adopted \<sigma> @ [op_ptr H v]\<rparr>))"
| "hstep H (Destroy x) \<sigma> =
     (if x \<notin> h_alive \<sigma> then None
      else Some (\<sigma>\<lparr>h_trace := op_dtor H (h_objs \<sigma> x) (h_trace \<sigma>), h_alive := h_alive \<sigma> - {x}\<rparr>))"
| "hstep H (MoveNew x y) \<sigma> =
     (if x \<in> h_alive \<sigma> \<or> y \<notin> h_alive \<sigma> then None
      else Some (\<sigma>\<lparr>h_objs := op_move_ctor H x y (h_objs \<sigma>), h_alive := insert x (h_alive \<sigma>)\<rparr>))"
| "hstep H (MoveAssign x y) \<sigma> =
     (if x \<notin> h_alive \<sigma> \<or> y \<notin> h_alive \<sigma> then None
      else (let (s, tr) = op_move_assign H x y (h_objs \<sigma>, h_trace \<sigma>)
            in Some (\<sigma>\<lparr>h_objs := s, h_trace := tr\<rparr>)))"

fun hrun :: "'o handle_ops \<Rightarrow> 'o hcmd list \<Rightarrow> 'o hstate \<Rightarrow> 'o hstate option" where
  "hrun H [] \<sigma> = Some \<sigma>"
| "hrun H (c # cs) \<sigma> = (case hstep H c \<sigma> of None \<Rightarrow> None | Some \<sigma>' \<Rightarrow> hrun H cs \<sigma>')"

text \<open>How many living objects hold the pointer \<open>p\<close>.\<close>

definition holders :: "'o handle_ops \<Rightarrow> 'o hstate \<Rightarrow> ptr \<Rightarrow> oid set" where
  "holders H \<sigma> p = {x \<in> h_alive \<sigma>. op_ptr H (h_objs \<sigma> x) = p}"

lemma hstep_adopted: "hstep H c \<sigma> = Some \<sigma>' \<Longrightarrow> \<not> is_New c \<Longrightarrow> h_adopted \<sigma>' = h_adopted \<sigma>"
  by (cases c) (auto simp: case_prod_beta split: if_splits)

lemma hrun_adopted:
  "hrun H cs \<sigma> = Some \<sigma>' \<Longrightarrow> \<forall>c\<in>set cs. \<not> is_New c \<Longrightarrow> h_adopted \<sigma>' = h_adopted \<sigma>"
  by (induction cs arbitrary: \<sigma>) (auto split: option.splits dest: hstep_adopted)

section \<open>The interface of an owning handle class\<close>

text \<open>
  The laws.  \<open>rel p\<close> lists the kernel calls that give the resource \<open>p\<close> back, \<open>mark p\<close> is the one
  of them by which releases of \<open>p\<close> are counted.
\<close>

locale owning_handle =
  fixes H :: "'o handle_ops"
    and rel :: "ptr \<Rightarrow> trace"
    and mark :: "ptr \<Rightarrow> kcall"
  assumes dtor_releases:
    "op_dtor H v tr = (if op_ptr H v = NULL then tr else tr @ rel (op_ptr H v))"
    and move_ctor_transfers:
    "x \<noteq> y \<Longrightarrow> op_ptr H (op_move_ctor H x y s z) =
       (if z = x then op_ptr H (s y) else if z = y then NULL else op_ptr H (s z))"
    and move_assign_transfers:
    "x \<noteq> y \<Longrightarrow> op_ptr H (fst (op_move_assign H x y (s, tr)) z) =
       (if z = x then op_ptr H (s y) else if z = y then NULL else op_ptr H (s z))"
    and move_assign_releases:
    "x \<noteq> y \<Longrightarrow> snd (op_move_assign H x y (s, tr)) =
       (if op_ptr H (s x) = NULL then tr else tr @ rel (op_ptr H (s x)))"
    and self_move_assign: "op_move_assign H x x (s, tr) = (s, tr)"
    and rel_marks: "p \<noteq> NULL \<Longrightarrow> count_list (rel p) (mark q) = of_bool (p = q)"
begin

text \<open>The resource balance: what constructors took is what was released plus what is held.\<close>

definition held :: "'o hstate \<Rightarrow> ptr \<Rightarrow> nat" where
  "held \<sigma> p = tally (h_alive \<sigma>) (\<lambda>x. op_ptr H (h_objs \<sigma> x) = p)"

definition balanced :: "'o hstate \<Rightarrow> bool" where
  "balanced \<sigma> \<longleftrightarrow> finite (h_alive \<sigma>) \<and>
     (\<forall>p. p \<noteq> NULL \<longrightarrow>
        count_list (h_adopted \<sigma>) p = count_list (h_trace \<sigma>) (mark p) + held \<sigma> p)"

lemma balanced_init: "balanced (hinit s)"
  by (simp add: balanced_def held_def hinit_def)

lemma balanced_New:
  assumes "balanced \<sigma>" "hstep H (New x v) \<sigma> = Some \<sigma>'"
  shows "balanced \<sigma>'"
proof -
  have "tally (h_alive \<sigma>) (\<lambda>z. op_ptr H (((h_objs \<sigma>)(x := v)) z) = p) = held \<sigma> p"
    if "x \<notin> h_alive \<sigma>" for p
    unfolding held_def using that by (intro tally_cong) auto
  with assms show ?thesis
    by (auto simp: balanced_def held_def split: if_splits)
qed

lemma balanced_Destroy:
  assumes "balanced \<sigma>" "hstep H (Destroy x) \<sigma> = Some \<sigma>'"
  shows "balanced \<sigma>'"
proof -
  let ?v = "h_objs \<sigma> x"
  from assms(2) have x: "x \<in> h_alive \<sigma>"
    and \<sigma>': "\<sigma>' = \<sigma>\<lparr>h_trace := op_dtor H ?v (h_trace \<sigma>), h_alive := h_alive \<sigma> - {x}\<rparr>"
    by (auto split: if_splits)
  from assms(1) x have "held \<sigma> p = of_bool (op_ptr H ?v = p) + held \<sigma>' p" for p
    unfolding held_def \<sigma>' balanced_def by (simp add: tally_remove)
  moreover have "count_list (h_trace \<sigma>') (mark p) =
      count_list (h_trace \<sigma>) (mark p) + of_bool (op_ptr H ?v = p)" if "p \<noteq> NULL" for p
    using that by (auto simp: \<sigma>' dtor_releases rel_marks)
  ultimately show ?thesis
    using assms(1) by (simp add: balanced_def) (simp add: \<sigma>')
qed

lemma move_ctor_tally:
  assumes "finite A" "x \<notin> A" "y \<in> A" "p \<noteq> NULL"
  shows "tally (insert x A) (\<lambda>z. op_ptr H (op_move_ctor H x y s z) = p) =
         tally A (\<lambda>z. op_ptr H (s z) = p)"
proof -
  have "x \<noteq> y" using assms by auto
  then have rest: "tally (A - {y}) (\<lambda>z. op_ptr H (op_move_ctor H x y s z) = p) =
      tally (A - {y}) (\<lambda>z. op_ptr H (s z) = p)"
    using assms by (intro tally_cong) (auto simp: move_ctor_transfers)
  show ?thesis
    using assms \<open>x \<noteq> y\<close> by (simp add: tally_remove [of A y] rest) (simp add: move_ctor_transfers)
qed

lemma balanced_MoveNew: "balanced \<sigma> \<Longrightarrow> hstep H (MoveNew x y) \<sigma> = Some \<sigma>' \<Longrightarrow> balanced \<sigma>'"
  by (auto simp: balanced_def held_def move_ctor_tally simp del: tally_insert split: if_splits)

lemma move_assign_tally:
  assumes "finite A" "x \<in> A" "y \<in> A" "x \<noteq> y" "p \<noteq> NULL"
  shows "tally A (\<lambda>z. op_ptr H (s z) = p) =
         tally A (\<lambda>z. op_ptr H (fst (op_move_assign H x y (s, tr)) z) = p) +
         of_bool (op_ptr H (s x) = p)"
proof -
  have rest: "tally (A - {x} - {y}) (\<lambda>z. op_ptr H (fst (op_move_assign H x y (s, tr)) z) = p) =
      tally (A - {x} - {y}) (\<lambda>z. op_ptr H (s z) = p)"
    using assms by (intro tally_cong) (auto simp: move_assign_transfers)
  have split: "tally A Q = of_bool (Q x) + of_bool (Q y) + tally (A - {x} - {y}) Q" for Q
    using assms by (simp add: tally_remove [of A x] tally_remove [of "A - {x}" y])
  show ?thesis
    using assms unfolding split rest by (simp add: move_assign_transfers)
qed

lemma balanced_MoveAssign:
  assumes "balanced \<sigma>" "hstep H (MoveAssign x y) \<sigma> = Some \<sigma>'"
  shows "balanced \<sigma>'"
proof (cases "x = y")
  case True
  with assms show ?thesis by (auto simp: self_move_assign split: if_splits)
next
  case False
  let ?r = "op_move_assign H x y (h_objs \<sigma>, h_trace \<sigma>)"
  from assms(2) have alive: "x \<in> h_alive \<sigma>" "y \<in> h_alive \<sigma>"
    and \<sigma>': "\<sigma>' = \<sigma>\<lparr>h_objs := fst ?r, h_trace := snd ?r\<rparr>"
    by (auto simp: case_prod_beta split: if_splits)
  from assms(1) alive False
  have "held \<sigma> p = held \<sigma>' p + of_bool (op_ptr H (h_objs \<sigma> x) = p)" if "p \<noteq> NULL" for p
    unfolding held_def \<sigma>' balanced_def using that move_assign_tally by simp
  moreover have "count_list (h_trace \<sigma>') (mark p) =
      count_list (h_trace \<sigma>) (mark p) + of_bool (op_ptr H (h_objs \<sigma> x) = p)" if "p \<noteq> NULL" for p
    using False that by (auto simp: \<sigma>' move_assign_releases rel_marks)
  ultimately show ?thesis
    using assms(1) by (simp add: balanced_def) (simp add: \<sigma>')
qed

lemma balanced_hstep: "balanced \<sigma> \<Longrightarrow> hstep H c \<sigma> = Some \<sigma>' \<Longrightarrow> balanced \<sigma>'"
  by (cases c) (metis balanced_New balanced_Destroy balanced_MoveNew balanced_MoveAssign)+

lemma balanced_hrun: "balanced \<sigma> \<Longrightarrow> hrun H cs \<sigma> = Some \<sigma>' \<Longrightarrow> balanced \<sigma>'"
  by (induction cs arbitrary: \<sigma>) (auto split: option.splits dest: balanced_hstep)

text \<open>The null pointer is never released.\<close>

lemma step_releases_no_NULL:
  assumes "hstep H c \<sigma> = Some \<sigma>'"
  shows "count_list (h_trace \<sigma>') (mark NULL) = count_list (h_trace \<sigma>) (mark NULL)"
proof (cases c)
  case (MoveAssign x y)
  with assms show ?thesis
    by (cases "x = y") (auto simp: self_move_assign move_assign_releases rel_marks case_prod_beta split: if_splits)
qed (use assms in \<open>auto simp: dtor_releases rel_marks split: if_splits\<close>)

lemma run_releases_no_NULL:
  "hrun H cs \<sigma> = Some \<sigma>' \<Longrightarrow> count_list (h_trace \<sigma>') (mark NULL) = count_list (h_trace \<sigma>) (mark NULL)"
  by (induction cs arbitrary: \<sigma>) (auto split: option.splits dest: step_releases_no_NULL)

text \<open>
  The three consequences for clients: the balance in terms of the set of holders, no leak once
  every object has died, and single ownership when every pointer was handed over once.
\<close>

lemma run_conserves:
  assumes "hrun H cs (hinit s) = Some \<sigma>" "p \<noteq> NULL"
  shows "count_list (h_adopted \<sigma>) p = count_list (h_trace \<sigma>) (mark p) + card (holders H \<sigma> p)"
  using balanced_hrun [OF balanced_init assms(1)] assms(2)
  by (simp add: balanced_def held_def holders_def tally_def)

lemma run_no_leak:
  assumes "hrun H cs (hinit s) = Some \<sigma>" "h_alive \<sigma> = {}" "p \<noteq> NULL"
  shows "count_list (h_trace \<sigma>) (mark p) = count_list (h_adopted \<sigma>) p"
  using run_conserves [OF assms(1,3)] assms(2) by (simp add: holders_def)

lemma run_single_owner:
  assumes "hrun H cs (hinit s) = Some \<sigma>" "p \<noteq> NULL" "count_list (h_adopted \<sigma>) p = 1"
  shows "(count_list (h_trace \<sigma>) (mark p) = 0 \<and> (\<exists>x. holders H \<sigma> p = {x})) \<or>
         (count_list (h_trace \<sigma>) (mark p) = 1 \<and> holders H \<sigma> p = {})"
proof -
  have "finite (holders H \<sigma> p)"
    using balanced_hrun [OF balanced_init assms(1)] by (simp add: balanced_def holders_def)
  moreover have "card (holders H \<sigma> p) = 0 \<and> count_list (h_trace \<sigma>) (mark p) = 1 \<or>
      card (holders H \<sigma> p) = 1 \<and> count_list (h_trace \<sigma>) (mark p) = 0"
    using run_conserves [OF assms(1,2)] assms(3) by linarith
  ultimately show ?thesis
    by (auto simp: card_1_singleton_iff)
qed

end

end
