(* ===== verification/Kpp_Memory.thy ===== *)
theory Kpp_Memory
  imports Kpp_Handle
begin

text \<open>
  \<^verbatim>\<open>memory/Kmalloc.hpp\<close> and \<^verbatim>\<open>memory/UniquePtr.hpp\<close>.

  What \<open>kmalloc\<close> returns is the parameter \<open>alloc\<close>, which may depend on everything that happened
  before (the trace).  The discipline of the heap is stated over traces: \<open>heap_run tr\<close> is the set
  of blocks that are allocated after \<open>tr\<close>, or \<open>None\<close> when \<open>tr\<close> frees a block that is not
  allocated.  \<open>kmalloc_fresh alloc\<close> is the one fact about \<open>kmalloc\<close> that is used: it never returns
  a block that is still allocated.
\<close>

section \<open>Kmalloc\<close>

type_synonym allocator = "trace \<Rightarrow> nat \<Rightarrow> gfp \<Rightarrow> ptr"

definition kpp_kmalloc :: "allocator \<Rightarrow> nat \<Rightarrow> gfp \<Rightarrow> trace \<Rightarrow> ptr \<times> trace" where
  "kpp_kmalloc alloc sizeof_T flags tr =
     (let p = alloc tr sizeof_T flags in (p, tr @ [Mem (Kmalloc sizeof_T flags p)]))"

definition kpp_kfree :: "ptr \<Rightarrow> trace \<Rightarrow> trace" where
  "kpp_kfree p tr = tr @ [Mem (Kfree p)]"

section \<open>UniquePtr\<close>

text \<open>
  The deleter is a template parameter of the class: an argument of the members that call it.
\<close>

record UniquePtr = up_ptr :: ptr

type_synonym deleter = "ptr \<Rightarrow> trace \<Rightarrow> trace"

definition DefaultDeleter :: deleter where
  "DefaultDeleter p tr = kpp_kfree p tr"

definition UniquePtr_ctor :: "ptr \<Rightarrow> UniquePtr" where
  "UniquePtr_ctor p = \<lparr>up_ptr = p\<rparr>"

definition UniquePtr_dtor :: "deleter \<Rightarrow> UniquePtr \<Rightarrow> trace \<Rightarrow> trace" where
  "UniquePtr_dtor deleter self tr = (if up_ptr self \<noteq> NULL then deleter (up_ptr self) tr else tr)"

definition UniquePtr_move_ctor :: "oid \<Rightarrow> oid \<Rightarrow> (oid \<Rightarrow> UniquePtr) \<Rightarrow> (oid \<Rightarrow> UniquePtr)" where
  "UniquePtr_move_ctor this other s =
     (let s1 = s(this := \<lparr>up_ptr = up_ptr (s other)\<rparr>)
      in s1(other := (s1 other)\<lparr>up_ptr := NULL\<rparr>))"

definition UniquePtr_move_assign ::
  "deleter \<Rightarrow> oid \<Rightarrow> oid \<Rightarrow> (oid \<Rightarrow> UniquePtr) \<times> trace \<Rightarrow> (oid \<Rightarrow> UniquePtr) \<times> trace" where
  "UniquePtr_move_assign deleter this other st =
     (let (s, tr) = st in
      if this \<noteq> other then
        let tr1 = (if up_ptr (s this) \<noteq> NULL then deleter (up_ptr (s this)) tr else tr);
            s1 = s(this := (s this)\<lparr>up_ptr := up_ptr (s other)\<rparr>);
            s2 = s1(other := (s1 other)\<lparr>up_ptr := NULL\<rparr>)
        in (s2, tr1)
      else (s, tr))"

definition UniquePtr_get :: "UniquePtr \<Rightarrow> ptr" where
  "UniquePtr_get self = up_ptr self"

definition UniquePtr_release :: "UniquePtr \<Rightarrow> ptr \<times> UniquePtr" where
  "UniquePtr_release self = (let temp = up_ptr self in (temp, self\<lparr>up_ptr := NULL\<rparr>))"

definition UniquePtr_bool :: "UniquePtr \<Rightarrow> bool" where
  "UniquePtr_bool self \<longleftrightarrow> up_ptr self \<noteq> NULL"

definition make_unique :: "allocator \<Rightarrow> nat \<Rightarrow> gfp \<Rightarrow> trace \<Rightarrow> UniquePtr \<times> trace" where
  "make_unique alloc sizeof_T flags tr =
     (let mem = alloc tr sizeof_T flags;
          tr1 = tr @ [Mem (Kmalloc sizeof_T flags mem)]
      in if mem = NULL then (UniquePtr_ctor NULL, tr1)
         else let obj = placement_new sizeof_T mem
              in (UniquePtr_ctor obj, tr1 @ [Mem (Construct obj)]))"

section \<open>The heap, read off a trace\<close>

fun heap_step :: "kcall \<Rightarrow> ptr set \<Rightarrow> ptr set option" where
  "heap_step (Mem (Kmalloc n f p)) L =
     (if p = NULL then Some L else if p \<in> L then None else Some (insert p L))"
| "heap_step (Mem (Kfree p)) L =
     (if p = NULL then Some L else if p \<in> L then Some (L - {p}) else None)"
| "heap_step c L = Some L"

fun heap_from :: "ptr set \<Rightarrow> trace \<Rightarrow> ptr set option" where
  "heap_from L [] = Some L"
| "heap_from L (c # tr) = (case heap_step c L of None \<Rightarrow> None | Some L' \<Rightarrow> heap_from L' tr)"

definition heap_run :: "trace \<Rightarrow> ptr set option" where
  "heap_run tr = heap_from {} tr"

text \<open>\<open>operator*\<close>, and \<open>operator->\<close> with the access that follows: the block must be allocated.\<close>

definition UniquePtr_deref :: "UniquePtr \<Rightarrow> trace \<Rightarrow> ptr option" where
  "UniquePtr_deref self tr =
     (case heap_run tr of
        None \<Rightarrow> None
      | Some L \<Rightarrow> if up_ptr self \<in> L then Some (up_ptr self) else None)"

definition kmalloc_fresh :: "allocator \<Rightarrow> bool" where
  "kmalloc_fresh alloc \<longleftrightarrow> (\<forall>tr n f L. heap_run tr = Some L \<longrightarrow> alloc tr n f \<notin> L)"

text \<open>A concrete allocator: one above the highest address handed out so far.\<close>

fun top_addr :: "trace \<Rightarrow> nat" where
  "top_addr [] = 0"
| "top_addr (Mem (Kmalloc n f (Ptr a)) # tr) = max a (top_addr tr)"
| "top_addr (Mem (Kmalloc n f (ERR_PTR a)) # tr) = top_addr tr"
| "top_addr (Mem (Kmalloc n f NULL) # tr) = top_addr tr"
| "top_addr (c # tr) = top_addr tr"

definition bump_alloc :: allocator where
  "bump_alloc tr n f = Ptr (Suc (top_addr tr))"

section \<open>Programs over UniquePtr\<close>

text \<open>
  A client makes objects with \<open>make_unique\<close>, moves and destroys them, and may call \<open>release\<close>, which
  lets the raw pointer escape from the discipline.  \<open>u_escaped\<close> are the blocks the client holds by a
  raw pointer: those \<open>release\<close> gave away and those it got from \<open>kmalloc\<close> itself.  It may free such a
  block with \<open>kfree\<close>, or construct a \<open>UniquePtr\<close> from its pointer (or from null), and then holds it no
  longer; so \<open>UniquePtr(T*)\<close> is called once at most for a pointer.  With the same raw pointer twice, or
  with one that is not from \<open>kmalloc\<close>, it would make two owners or free what is no block: these
  programs, which the class does not prevent, are \<open>None\<close> here, like the use of an object that does
  not exist.

  The objects have static or automatic storage.  A \<open>UniquePtr\<close> that is a member of an object in the
  heap is not a program of this kind: \<open>DefaultDeleter\<close> frees the block of that object without
  destroying the members (\<open>UniquePtr_never_runs_destructor\<close>), and \<^verbatim>\<open>head = move(head->next)\<close> reads the
  member after its block was freed (\<^verbatim>\<open>UniquePtr.hpp:50\<close>, \<^verbatim>\<open>:52\<close>).
\<close>

datatype ucmd = UMake oid nat gfp | UDestroy oid | UMoveNew oid oid | UMoveAssign oid oid | URelease oid
  | UAlloc nat gfp | UFree ptr | UAdopt oid ptr

record ustate =
  u_objs :: "oid \<Rightarrow> UniquePtr"
  u_alive :: "oid set"
  u_trace :: trace
  u_escaped :: "ptr set"

definition uinit :: ustate where
  "uinit = \<lparr>u_objs = (\<lambda>_. UniquePtr_ctor NULL), u_alive = {}, u_trace = [], u_escaped = {}\<rparr>"

fun ustep :: "allocator \<Rightarrow> ucmd \<Rightarrow> ustate \<Rightarrow> ustate option" where
  "ustep alloc (UMake x n f) \<sigma> =
     (if x \<in> u_alive \<sigma> then None
      else let (u, tr) = make_unique alloc n f (u_trace \<sigma>)
           in Some (\<sigma>\<lparr>u_objs := (u_objs \<sigma>)(x := u), u_alive := insert x (u_alive \<sigma>), u_trace := tr\<rparr>))"
| "ustep alloc (UDestroy x) \<sigma> =
     (if x \<notin> u_alive \<sigma> then None
      else Some (\<sigma>\<lparr>u_trace := UniquePtr_dtor DefaultDeleter (u_objs \<sigma> x) (u_trace \<sigma>),
                   u_alive := u_alive \<sigma> - {x}\<rparr>))"
| "ustep alloc (UMoveNew x y) \<sigma> =
     (if x \<in> u_alive \<sigma> \<or> y \<notin> u_alive \<sigma> then None
      else Some (\<sigma>\<lparr>u_objs := UniquePtr_move_ctor x y (u_objs \<sigma>), u_alive := insert x (u_alive \<sigma>)\<rparr>))"
| "ustep alloc (UMoveAssign x y) \<sigma> =
     (if x \<notin> u_alive \<sigma> \<or> y \<notin> u_alive \<sigma> then None
      else let (s, tr) = UniquePtr_move_assign DefaultDeleter x y (u_objs \<sigma>, u_trace \<sigma>)
           in Some (\<sigma>\<lparr>u_objs := s, u_trace := tr\<rparr>))"
| "ustep alloc (URelease x) \<sigma> =
     (if x \<notin> u_alive \<sigma> then None
      else let (p, u) = UniquePtr_release (u_objs \<sigma> x)
           in Some (\<sigma>\<lparr>u_objs := (u_objs \<sigma>)(x := u), u_escaped := u_escaped \<sigma> \<union> ({p} - {NULL})\<rparr>))"
| "ustep alloc (UAlloc n f) \<sigma> =
     (let (p, tr) = kpp_kmalloc alloc n f (u_trace \<sigma>)
      in Some (\<sigma>\<lparr>u_trace := tr, u_escaped := u_escaped \<sigma> \<union> ({p} - {NULL})\<rparr>))"
| "ustep alloc (UFree p) \<sigma> =
     (if p \<noteq> NULL \<and> p \<notin> u_escaped \<sigma> then None
      else Some (\<sigma>\<lparr>u_trace := kpp_kfree p (u_trace \<sigma>), u_escaped := u_escaped \<sigma> - {p}\<rparr>))"
| "ustep alloc (UAdopt x p) \<sigma> =
     (if x \<in> u_alive \<sigma> \<or> p \<noteq> NULL \<and> p \<notin> u_escaped \<sigma> then None
      else Some (\<sigma>\<lparr>u_objs := (u_objs \<sigma>)(x := UniquePtr_ctor p), u_alive := insert x (u_alive \<sigma>),
                   u_escaped := u_escaped \<sigma> - {p}\<rparr>))"

fun urun :: "allocator \<Rightarrow> ucmd list \<Rightarrow> ustate \<Rightarrow> ustate option" where
  "urun alloc [] \<sigma> = Some \<sigma>"
| "urun alloc (c # cs) \<sigma> = (case ustep alloc c \<sigma> of None \<Rightarrow> None | Some \<sigma>' \<Rightarrow> urun alloc cs \<sigma>')"

definition owned :: "ustate \<Rightarrow> ptr set" where
  "owned \<sigma> = {p. p \<noteq> NULL \<and> (\<exists>x\<in>u_alive \<sigma>. up_ptr (u_objs \<sigma> x) = p)}"

definition unique_owners :: "ustate \<Rightarrow> bool" where
  "unique_owners \<sigma> \<longleftrightarrow>
     (\<forall>x\<in>u_alive \<sigma>. \<forall>y\<in>u_alive \<sigma>.
        up_ptr (u_objs \<sigma> x) = up_ptr (u_objs \<sigma> y) \<longrightarrow> up_ptr (u_objs \<sigma> x) \<noteq> NULL \<longrightarrow> x = y)"

text \<open>
  The invariant: the trace respects the heap, the allocated blocks are those owned by a living
  \<open>UniquePtr\<close> and those the client holds by a raw pointer, no block is both, and no block has two owners.
\<close>

definition uinv :: "ustate \<Rightarrow> bool" where
  "uinv \<sigma> \<longleftrightarrow> heap_run (u_trace \<sigma>) = Some (owned \<sigma> \<union> u_escaped \<sigma>) \<and>
     owned \<sigma> \<inter> u_escaped \<sigma> = {} \<and> NULL \<notin> u_escaped \<sigma> \<and> unique_owners \<sigma>"

section \<open>Lemmas\<close>

lemma up_ptr_ctor [simp]: "up_ptr (UniquePtr_ctor p) = p"
  by (simp add: UniquePtr_ctor_def)

lemma UniquePtr_eqI: "up_ptr a = up_ptr (b :: UniquePtr) \<Longrightarrow> a = b"
  by simp

lemma move_assign_null:
  "x \<noteq> y \<Longrightarrow> up_ptr (s x) = NULL \<Longrightarrow> UniquePtr_move_assign d x y (s, tr) =
     (s(x := s y, y := UniquePtr_ctor NULL), tr)"
  by (auto simp: UniquePtr_move_assign_def UniquePtr_ctor_def Let_def intro!: UniquePtr_eqI)

lemma heap_from_append:
  "heap_from L (tr @ tr') = (case heap_from L tr of None \<Rightarrow> None | Some L' \<Rightarrow> heap_from L' tr')"
  by (induction tr arbitrary: L) (auto split: option.splits)

lemma heap_run_append [simp]:
  "heap_run (tr @ tr') = (case heap_run tr of None \<Rightarrow> None | Some L \<Rightarrow> heap_from L tr')"
  by (simp add: heap_run_def heap_from_append)

lemma heap_run_Nil [simp]: "heap_run [] = Some {}"
  by (simp add: heap_run_def)

lemma heap_from_no_NULL: "heap_from L tr = Some L' \<Longrightarrow> NULL \<notin> L \<Longrightarrow> NULL \<notin> L'"
proof (induction tr arbitrary: L)
  case (Cons c tr)
  then obtain L1 where "heap_step c L = Some L1" "heap_from L1 tr = Some L'"
    by (auto split: option.splits)
  moreover from this(1) Cons.prems(2) have "NULL \<notin> L1"
    by (cases "(c, L)" rule: heap_step.cases) (auto split: if_splits)
  ultimately show ?case using Cons.IH by blast
qed simp

lemma heap_run_no_NULL: "heap_run tr = Some L \<Longrightarrow> NULL \<notin> L"
  using heap_from_no_NULL by (force simp: heap_run_def)

lemma heap_from_top:
  "heap_from L tr = Some L' \<Longrightarrow> Ptr a \<in> L' \<Longrightarrow> Ptr a \<in> L \<or> a \<le> top_addr tr"
proof (induction tr arbitrary: L rule: top_addr.induct)
  case (2 n f b tr)
  then show ?case by (fastforce split: if_splits option.splits)
qed (fastforce split: if_splits option.splits)+

lemma kmalloc_fresh_bump: "kmalloc_fresh bump_alloc"
  using heap_from_top by (fastforce simp: kmalloc_fresh_def bump_alloc_def heap_run_def)

definition UniquePtr_ops :: "UniquePtr handle_ops" where
  "UniquePtr_ops = \<lparr>op_ptr = up_ptr, op_dtor = UniquePtr_dtor DefaultDeleter,
     op_move_ctor = UniquePtr_move_ctor, op_move_assign = UniquePtr_move_assign DefaultDeleter\<rparr>"

lemmas [handle_defs] = UniquePtr_ops_def UniquePtr_dtor_def UniquePtr_move_ctor_def
  UniquePtr_move_assign_def DefaultDeleter_def kpp_kfree_def

interpretation uptr: owning_handle UniquePtr_ops "\<lambda>p. [Mem (Kfree p)]" "\<lambda>p. Mem (Kfree p)"
  by unfold_locales (auto simp: handle_defs Let_def)

lemma owned_NULL [simp]: "NULL \<notin> owned \<sigma>"
  by (simp add: owned_def)

lemma uinv_init: "uinv uinit"
  by (auto simp: uinv_def uinit_def owned_def unique_owners_def)

lemma uinv_UMake:
  assumes "kmalloc_fresh alloc" "uinv \<sigma>" "ustep alloc (UMake x n f) \<sigma> = Some \<sigma>'"
  shows "uinv \<sigma>'"
proof -
  let ?p = "alloc (u_trace \<sigma>) n f"
  from assms(3) have x: "x \<notin> u_alive \<sigma>" by (simp split: if_splits)
  from assms(1,2) have fresh: "?p \<notin> owned \<sigma>" "?p \<notin> u_escaped \<sigma>"
    by (auto simp: kmalloc_fresh_def uinv_def)
  from x assms(3) have own: "owned \<sigma>' = owned \<sigma> \<union> ({?p} - {NULL})"
    by (auto simp: owned_def make_unique_def UniquePtr_ctor_def Let_def split: if_splits)
  have "unique_owners \<sigma>'"
    using assms(2,3) fresh(1)
    by (auto simp: uinv_def unique_owners_def owned_def make_unique_def UniquePtr_ctor_def Let_def
        split: if_splits)
  with own fresh assms(2,3) show ?thesis
    by (auto simp: uinv_def make_unique_def Let_def split: if_splits)
qed

lemma uinv_UDestroy:
  assumes "uinv \<sigma>" "ustep alloc (UDestroy x) \<sigma> = Some \<sigma>'"
  shows "uinv \<sigma>'"
proof -
  let ?p = "up_ptr (u_objs \<sigma> x)"
  from assms(2) have x: "x \<in> u_alive \<sigma>" by (simp split: if_splits)
  with assms have own: "owned \<sigma>' = owned \<sigma> - {?p}"
    by (auto simp: owned_def uinv_def unique_owners_def split: if_splits)
  have "unique_owners \<sigma>'"
    using assms by (auto simp: uinv_def unique_owners_def split: if_splits)
  moreover have "?p \<noteq> NULL \<Longrightarrow> ?p \<in> owned \<sigma>" using x by (auto simp: owned_def)
  ultimately show ?thesis
    using own assms by (auto simp: uinv_def handle_defs split: if_splits)
qed

lemma uinv_UMoveNew:
  assumes "uinv \<sigma>" "ustep alloc (UMoveNew x y) \<sigma> = Some \<sigma>'"
  shows "uinv \<sigma>'"
proof -
  from assms(2) have xy: "x \<notin> u_alive \<sigma>" "y \<in> u_alive \<sigma>" "x \<noteq> y" by (auto split: if_splits)
  with assms(2) have "owned \<sigma>' = owned \<sigma>"
    by (auto simp: owned_def handle_defs Let_def split: if_splits)
  moreover from assms xy have "unique_owners \<sigma>'"
    by (auto simp: uinv_def unique_owners_def handle_defs Let_def split: if_splits)
  ultimately show ?thesis
    using assms xy by (auto simp: uinv_def)
qed

lemma uinv_UMoveAssign:
  assumes "uinv \<sigma>" "ustep alloc (UMoveAssign x y) \<sigma> = Some \<sigma>'"
  shows "uinv \<sigma>'"
proof (cases "x = y")
  case True
  with assms show ?thesis by (auto simp: UniquePtr_move_assign_def split: if_splits)
next
  case False
  let ?p = "up_ptr (u_objs \<sigma> x)"
  from assms(2) have xy: "x \<in> u_alive \<sigma>" "y \<in> u_alive \<sigma>" by (auto split: if_splits)
  from False xy assms(2) have objs: "u_alive \<sigma>' = u_alive \<sigma>"
      "up_ptr (u_objs \<sigma>' z) = (if z = y then NULL else if z = x then up_ptr (u_objs \<sigma> y)
         else up_ptr (u_objs \<sigma> z))" for z
    by (auto simp: handle_defs Let_def)
  have "owned \<sigma> - {?p} \<subseteq> owned \<sigma>'"
  proof
    fix p assume "p \<in> owned \<sigma> - {?p}"
    then obtain z where "z \<in> u_alive \<sigma>" "up_ptr (u_objs \<sigma> z) = p" "p \<noteq> NULL" "z \<noteq> x"
      by (auto simp: owned_def)
    with xy False show "p \<in> owned \<sigma>'"
      unfolding owned_def objs by (intro CollectI conjI bexI [of _ "if z = y then x else z"]) auto
  qed
  moreover have "owned \<sigma>' \<subseteq> owned \<sigma> - {?p}"
    using assms(1) False xy by (auto simp: owned_def objs uinv_def unique_owners_def split: if_splits)
  ultimately have own: "owned \<sigma>' = owned \<sigma> - {?p}" by blast
  have "?p = NULL \<or> ?p \<in> owned \<sigma>" using xy by (auto simp: owned_def)
  moreover have "u_escaped \<sigma>' = u_escaped \<sigma>"
      "u_trace \<sigma>' = (if ?p = NULL then u_trace \<sigma> else u_trace \<sigma> @ [Mem (Kfree ?p)])"
    using False xy assms(2) by (auto simp: handle_defs Let_def)
  moreover have "unique_owners \<sigma>'"
    using False xy assms(1) unfolding unique_owners_def objs uinv_def by (metis (no_types, lifting))
  ultimately show ?thesis
    using own assms(1) by (auto simp: uinv_def)
qed

lemma uinv_URelease:
  assumes "uinv \<sigma>" "ustep alloc (URelease x) \<sigma> = Some \<sigma>'"
  shows "uinv \<sigma>'"
proof -
  let ?p = "up_ptr (u_objs \<sigma> x)"
  from assms(2) have x: "x \<in> u_alive \<sigma>" by (simp split: if_splits)
  with assms have own: "owned \<sigma>' = owned \<sigma> - {?p}"
    by (auto simp: owned_def uinv_def unique_owners_def UniquePtr_release_def split: if_splits)
  have "unique_owners \<sigma>'"
    using assms by (auto simp: uinv_def unique_owners_def UniquePtr_release_def split: if_splits)
  moreover have "?p = NULL \<or> ?p \<in> owned \<sigma>" using x by (auto simp: owned_def)
  moreover have "u_trace \<sigma>' = u_trace \<sigma>" "u_escaped \<sigma>' = u_escaped \<sigma> \<union> ({?p} - {NULL})"
    using x assms(2) by (auto simp: UniquePtr_release_def)
  ultimately show ?thesis
    using own assms(1) unfolding uinv_def by auto
qed

lemma uinv_UAlloc:
  assumes "kmalloc_fresh alloc" "uinv \<sigma>" "ustep alloc (UAlloc n f) \<sigma> = Some \<sigma>'"
  shows "uinv \<sigma>'"
proof -
  from assms(3) have "owned \<sigma>' = owned \<sigma>" "unique_owners \<sigma>' = unique_owners \<sigma>"
    by (auto simp: kpp_kmalloc_def owned_def unique_owners_def Let_def)
  moreover from assms(1,2) have "alloc (u_trace \<sigma>) n f \<notin> owned \<sigma> \<union> u_escaped \<sigma>"
    by (auto simp: kmalloc_fresh_def uinv_def)
  ultimately show ?thesis
    using assms(2,3) by (auto simp: uinv_def kpp_kmalloc_def Let_def)
qed

lemma uinv_UFree:
  assumes "uinv \<sigma>" "ustep alloc (UFree p) \<sigma> = Some \<sigma>'"
  shows "uinv \<sigma>'"
proof -
  from assms(2) have "owned \<sigma>' = owned \<sigma>" "unique_owners \<sigma>' = unique_owners \<sigma>"
    by (auto simp: owned_def unique_owners_def split: if_splits)
  then show ?thesis
    using assms by (auto simp: uinv_def kpp_kfree_def split: if_splits)
qed

lemma uinv_UAdopt:
  assumes "uinv \<sigma>" "ustep alloc (UAdopt x p) \<sigma> = Some \<sigma>'"
  shows "uinv \<sigma>'"
proof -
  from assms(2) have x: "x \<notin> u_alive \<sigma>" "p = NULL \<or> p \<in> u_escaped \<sigma>" by (auto split: if_splits)
  with assms(2) have "owned \<sigma>' = owned \<sigma> \<union> ({p} - {NULL})" "u_escaped \<sigma>' = u_escaped \<sigma> - {p}"
      "u_trace \<sigma>' = u_trace \<sigma>"
    by (auto simp: owned_def split: if_splits)
  moreover have "\<forall>z\<in>u_alive \<sigma>. p \<noteq> NULL \<longrightarrow> up_ptr (u_objs \<sigma> z) \<noteq> p"
    using assms(1) x(2) by (auto simp: uinv_def owned_def)
  with assms x(1) have "unique_owners \<sigma>'"
    by (auto simp: uinv_def unique_owners_def split: if_splits)
  ultimately show ?thesis
    using assms(1) x unfolding uinv_def by auto
qed

lemma uinv_ustep: "kmalloc_fresh alloc \<Longrightarrow> uinv \<sigma> \<Longrightarrow> ustep alloc c \<sigma> = Some \<sigma>' \<Longrightarrow> uinv \<sigma>'"
  by (cases c) (metis uinv_UMake uinv_UDestroy uinv_UMoveNew uinv_UMoveAssign uinv_URelease uinv_UAlloc uinv_UFree uinv_UAdopt)+

lemma uinv_urun: "kmalloc_fresh alloc \<Longrightarrow> uinv \<sigma> \<Longrightarrow> urun alloc cs \<sigma> = Some \<sigma>' \<Longrightarrow> uinv \<sigma>'"
  by (induction cs arbitrary: \<sigma>) (auto split: option.splits dest: uinv_ustep)

section \<open>Properties\<close>

text \<open>
  C9.  Memory safety of \<open>UniquePtr\<close> objects with static or automatic storage.  For an allocator that
  hands out unallocated blocks only, a program that constructs them with \<open>make_unique\<close>, or from null or
  a raw pointer it holds itself (each given to one \<open>UniquePtr\<close> only), and then moves, releases and
  destroys them, frees only allocated blocks and none twice; at every point the allocated blocks are
  exactly those owned by a living \<open>UniquePtr\<close> and those the program holds by a raw pointer, no block
  has two owners, and a \<open>UniquePtr\<close> that is not null can be dereferenced.
\<close>

theorem UniquePtr_memory_safe:
  assumes "kmalloc_fresh alloc" "urun alloc cs uinit = Some \<sigma>"
  shows "heap_run (u_trace \<sigma>) = Some (owned \<sigma> \<union> u_escaped \<sigma>) \<and> owned \<sigma> \<inter> u_escaped \<sigma> = {} \<and>
    unique_owners \<sigma> \<and>
    (\<forall>x\<in>u_alive \<sigma>. UniquePtr_bool (u_objs \<sigma> x) \<longrightarrow>
       UniquePtr_deref (u_objs \<sigma> x) (u_trace \<sigma>) = Some (UniquePtr_get (u_objs \<sigma> x)))"
  using uinv_urun [OF assms(1) uinv_init assms(2)]
  by (auto simp: uinv_def UniquePtr_deref_def UniquePtr_bool_def UniquePtr_get_def owned_def)

theorem UniquePtr_memory_safe_witness:
  "\<exists>\<sigma>. urun bump_alloc [UMake 0 64 GFP_KERNEL, UMake 1 64 GFP_KERNEL, UMoveAssign 0 1, URelease 0, UDestroy 0, UDestroy 1,
         UAdopt 0 (Ptr 2), UDestroy 0] uinit = Some \<sigma> \<and>
     heap_run (u_trace \<sigma>) = Some (owned \<sigma> \<union> u_escaped \<sigma>)"
proof -
  obtain \<sigma> where r: "urun bump_alloc
      [UMake 0 64 GFP_KERNEL, UMake 1 64 GFP_KERNEL, UMoveAssign 0 1, URelease 0, UDestroy 0, UDestroy 1,
         UAdopt 0 (Ptr 2), UDestroy 0] uinit = Some \<sigma>"
    by (auto simp: uinit_def UniquePtr_release_def UniquePtr_ctor_def make_unique_def UniquePtr_move_assign_def bump_alloc_def Let_def)
  from UniquePtr_memory_safe [OF kmalloc_fresh_bump r] r show ?thesis by blast
qed

text \<open>
  No leak: when every \<open>UniquePtr\<close> of a program is gone and the client holds none by a raw pointer, no
  block is left allocated.
\<close>

theorem UniquePtr_no_leak:
  assumes "kmalloc_fresh alloc" "urun alloc cs uinit = Some \<sigma>" "u_alive \<sigma> = {}" "u_escaped \<sigma> = {}"
  shows "heap_run (u_trace \<sigma>) = Some {}"
  using uinv_urun [OF assms(1) uinv_init assms(2)] assms(3,4) by (simp add: uinv_def owned_def)

theorem UniquePtr_no_leak_witness:
  "\<exists>\<sigma>. urun bump_alloc [UMake 0 8 GFP_ATOMIC, UMoveNew 1 0, UDestroy 0, UDestroy 1] uinit = Some \<sigma> \<and>
     heap_run (u_trace \<sigma>) = Some {}"
proof -
  obtain \<sigma> where r: "urun bump_alloc [UMake 0 8 GFP_ATOMIC, UMoveNew 1 0, UDestroy 0, UDestroy 1] uinit = Some \<sigma>"
      and e: "u_alive \<sigma> = {}" "u_escaped \<sigma> = {}"
    by (auto simp: uinit_def make_unique_def bump_alloc_def Let_def)
  from UniquePtr_no_leak [OF kmalloc_fresh_bump r e] r show ?thesis by blast
qed

text \<open>
  The default deleter frees the block but does not destroy the object in it: \<open>make_unique\<close>
  runs the constructor of \<open>T\<close>, and destroying the \<open>UniquePtr\<close> adds one \<open>kfree\<close> and no call of the
  destructor of \<open>T\<close>.
\<close>

theorem UniquePtr_never_runs_destructor:
  assumes "make_unique alloc n f tr = (u, tr1)" "UniquePtr_bool u"
  shows "tr1 = tr @ [Mem (Kmalloc n f (up_ptr u)), Mem (Construct (up_ptr u))] \<and>
    UniquePtr_dtor DefaultDeleter u tr1 = tr1 @ [Mem (Kfree (up_ptr u))]"
  using assms
  by (auto simp: make_unique_def UniquePtr_ctor_def UniquePtr_bool_def handle_defs Let_def split: if_splits)

theorem UniquePtr_never_runs_destructor_witness:
  "UniquePtr_dtor DefaultDeleter (UniquePtr_ctor (Ptr 1))
     [Mem (Kmalloc 16 GFP_KERNEL (Ptr 1)), Mem (Construct (Ptr 1))] =
   [Mem (Kmalloc 16 GFP_KERNEL (Ptr 1)), Mem (Construct (Ptr 1)), Mem (Kfree (Ptr 1))]"
proof -
  have "make_unique bump_alloc 16 GFP_KERNEL [] =
      (UniquePtr_ctor (Ptr 1), [Mem (Kmalloc 16 GFP_KERNEL (Ptr 1)), Mem (Construct (Ptr 1))])"
    by (simp add: make_unique_def bump_alloc_def Let_def)
  from UniquePtr_never_runs_destructor [OF this] show ?thesis
    by (simp add: UniquePtr_bool_def UniquePtr_ctor_def)
qed

end
