(* ===== verification/Kpp_Sync.thy ===== *)
theory Kpp_Sync
  imports Kpp_Prelude "HOL-Library.Multiset"
begin

text \<open>
  \<^verbatim>\<open>sync/Atomic.hpp\<close>, \<^verbatim>\<open>sync/Mutex.hpp\<close>, \<^verbatim>\<open>sync/SpinLock.hpp\<close>, \<^verbatim>\<open>sync/ScopedLock.hpp\<close>,
  \<^verbatim>\<open>sync/Semaphore.hpp\<close> and \<^verbatim>\<open>sync/Completion.hpp\<close>.

  The kernel's atomic operations are a parameter (\<open>atomic_kernel\<close>), each a function on the
  contents of the 32-bit cell; \<open>atomic_ok\<close> states what \<^verbatim>\<open>Documentation/atomic_t.txt\<close> says of
  them.  The lock classes forward to one kernel call each; their interface is the locale
  \<open>lockable\<close>, and \<open>ScopedLock\<close> is its client.
\<close>

section \<open>Atomic\<close>

text \<open>
  \<open>a_set\<close> takes the old contents and the value; the \<open>_and_test\<close> functions return the answer and
  the new contents.
\<close>

record atomic_kernel =
  a_set :: "c_int \<Rightarrow> c_int \<Rightarrow> c_int"
  a_read :: "c_int \<Rightarrow> c_int"
  a_add :: "c_int \<Rightarrow> c_int \<Rightarrow> c_int"
  a_sub :: "c_int \<Rightarrow> c_int \<Rightarrow> c_int"
  a_inc :: "c_int \<Rightarrow> c_int"
  a_dec :: "c_int \<Rightarrow> c_int"
  a_inc_and_test :: "c_int \<Rightarrow> bool \<times> c_int"
  a_dec_and_test :: "c_int \<Rightarrow> bool \<times> c_int"

definition atomic_ok :: "atomic_kernel \<Rightarrow> bool" where
  "atomic_ok A \<longleftrightarrow>
     (\<forall>c v. a_set A c v = v) \<and> (\<forall>c. a_read A c = c) \<and>
     (\<forall>i c. a_add A i c = c + i) \<and> (\<forall>i c. a_sub A i c = c - i) \<and>
     (\<forall>c. a_inc A c = c + 1) \<and> (\<forall>c. a_dec A c = c - 1) \<and>
     (\<forall>c. a_inc_and_test A c = (c + 1 = 0, c + 1)) \<and>
     (\<forall>c. a_dec_and_test A c = (c - 1 = 0, c - 1))"

text \<open>Two's complement arithmetic on the cell: a concrete instance of the parameter.\<close>

definition word_atomics :: atomic_kernel where
  "word_atomics = \<lparr>a_set = \<lambda>c v. v, a_read = \<lambda>c. c, a_add = \<lambda>i c. c + i, a_sub = \<lambda>i c. c - i,
     a_inc = \<lambda>c. c + 1, a_dec = \<lambda>c. c - 1, a_inc_and_test = \<lambda>c. (c + 1 = 0, c + 1),
     a_dec_and_test = \<lambda>c. (c - 1 = 0, c - 1)\<rparr>"

record Atomic = at_value :: c_int

text \<open>\<open>junk\<close> is what the cell holds before the constructor body runs.\<close>

definition Atomic_ctor :: "atomic_kernel \<Rightarrow> c_int \<Rightarrow> c_int \<Rightarrow> Atomic" where
  "Atomic_ctor A junk value = \<lparr>at_value = a_set A junk value\<rparr>"

definition Atomic_read :: "atomic_kernel \<Rightarrow> Atomic \<Rightarrow> c_int" where
  "Atomic_read A self = a_read A (at_value self)"

text \<open>\<open>set\<close> stores through \<open>&value\<close>, the address of its own parameter; the member is not touched.\<close>

definition Atomic_set :: "atomic_kernel \<Rightarrow> Atomic \<Rightarrow> c_int \<Rightarrow> Atomic" where
  "Atomic_set A self value = (let value = a_set A value value in self)"

definition Atomic_add :: "atomic_kernel \<Rightarrow> Atomic \<Rightarrow> c_int \<Rightarrow> Atomic" where
  "Atomic_add A self i = self\<lparr>at_value := a_add A i (at_value self)\<rparr>"

definition Atomic_sub :: "atomic_kernel \<Rightarrow> Atomic \<Rightarrow> c_int \<Rightarrow> Atomic" where
  "Atomic_sub A self i = self\<lparr>at_value := a_sub A i (at_value self)\<rparr>"

definition Atomic_inc :: "atomic_kernel \<Rightarrow> Atomic \<Rightarrow> Atomic" where
  "Atomic_inc A self = self\<lparr>at_value := a_inc A (at_value self)\<rparr>"

definition Atomic_dec :: "atomic_kernel \<Rightarrow> Atomic \<Rightarrow> Atomic" where
  "Atomic_dec A self = self\<lparr>at_value := a_dec A (at_value self)\<rparr>"

definition Atomic_inc_and_test :: "atomic_kernel \<Rightarrow> Atomic \<Rightarrow> bool \<times> Atomic" where
  "Atomic_inc_and_test A self =
     (let (b, c) = a_inc_and_test A (at_value self) in (b, self\<lparr>at_value := c\<rparr>))"

definition Atomic_dec_and_test :: "atomic_kernel \<Rightarrow> Atomic \<Rightarrow> bool \<times> Atomic" where
  "Atomic_dec_and_test A self =
     (let (b, c) = a_dec_and_test A (at_value self) in (b, self\<lparr>at_value := c\<rparr>))"

definition Atomic_preinc :: "atomic_kernel \<Rightarrow> Atomic \<Rightarrow> Atomic" where
  "Atomic_preinc A self = Atomic_inc A self"

definition Atomic_predec :: "atomic_kernel \<Rightarrow> Atomic \<Rightarrow> Atomic" where
  "Atomic_predec A self = Atomic_dec A self"

definition Atomic_plus_assign :: "atomic_kernel \<Rightarrow> Atomic \<Rightarrow> c_int \<Rightarrow> Atomic" where
  "Atomic_plus_assign A self i = Atomic_add A self i"

definition Atomic_minus_assign :: "atomic_kernel \<Rightarrow> Atomic \<Rightarrow> c_int \<Rightarrow> Atomic" where
  "Atomic_minus_assign A self i = Atomic_sub A self i"

text \<open>
  The updates of an \<open>Atomic\<close> that several threads may issue.  Every update is one atomic kernel
  operation, so an execution is an interleaving: a list of updates.
\<close>

datatype aop = AAdd c_int | ASub c_int | AInc | ADec | AIncTest | ADecTest

fun aop_run :: "atomic_kernel \<Rightarrow> aop \<Rightarrow> Atomic \<Rightarrow> Atomic" where
  "aop_run A (AAdd i) s = Atomic_plus_assign A s i"
| "aop_run A (ASub i) s = Atomic_minus_assign A s i"
| "aop_run A AInc s = Atomic_preinc A s"
| "aop_run A ADec s = Atomic_predec A s"
| "aop_run A AIncTest s = snd (Atomic_inc_and_test A s)"
| "aop_run A ADecTest s = snd (Atomic_dec_and_test A s)"

definition aops_run :: "atomic_kernel \<Rightarrow> aop list \<Rightarrow> Atomic \<Rightarrow> Atomic" where
  "aops_run A ops s = fold (aop_run A) ops s"

fun aop_delta :: "aop \<Rightarrow> c_int" where
  "aop_delta (AAdd i) = i"
| "aop_delta (ASub i) = - i"
| "aop_delta AInc = 1"
| "aop_delta ADec = -1"
| "aop_delta AIncTest = 1"
| "aop_delta ADecTest = -1"

section \<open>Mutex, SpinLock\<close>

text \<open>A member function of a lock at address \<open>a\<close> forwards to the kernel function on its \<open>lock_\<close>.\<close>

definition Mutex_ctor :: "oid \<Rightarrow> trace \<Rightarrow> trace" where
  "Mutex_ctor a tr = tr @ [Sync (Mutex_init a)]"

definition Mutex_dtor :: "oid \<Rightarrow> trace \<Rightarrow> trace" where
  "Mutex_dtor a tr = tr @ [Sync (Mutex_destroy a)]"

definition Mutex_lock :: "oid \<Rightarrow> trace \<Rightarrow> trace" where
  "Mutex_lock a tr = tr @ [Sync (Lock_mutex a)]"

definition Mutex_unlock :: "oid \<Rightarrow> trace \<Rightarrow> trace" where
  "Mutex_unlock a tr = tr @ [Sync (Unlock_mutex a)]"

definition SpinLock_ctor :: "oid \<Rightarrow> trace \<Rightarrow> trace" where
  "SpinLock_ctor a tr = tr @ [Sync (Spin_lock_init a)]"

definition SpinLock_lock :: "oid \<Rightarrow> trace \<Rightarrow> trace" where
  "SpinLock_lock a tr = tr @ [Sync (Lock_spin a)]"

definition SpinLock_unlock :: "oid \<Rightarrow> trace \<Rightarrow> trace" where
  "SpinLock_unlock a tr = tr @ [Sync (Unlock_spin a)]"

section \<open>ScopedLock\<close>

text \<open>
  \<open>ScopedLock<Lockable>\<close> calls \<open>lock\<close> of the \<open>Lockable\<close> it refers to when it is constructed and
  \<open>unlock\<close> when it is destroyed; the lock class is a pair of functions.
\<close>

record lock_class =
  lc_lock :: "oid \<Rightarrow> trace \<Rightarrow> trace"
  lc_unlock :: "oid \<Rightarrow> trace \<Rightarrow> trace"

record ScopedLock = sl_lock :: oid

definition ScopedLock_ctor :: "lock_class \<Rightarrow> oid \<Rightarrow> trace \<Rightarrow> ScopedLock \<times> trace" where
  "ScopedLock_ctor C a tr = (\<lparr>sl_lock = a\<rparr>, lc_lock C a tr)"

definition ScopedLock_dtor :: "lock_class \<Rightarrow> ScopedLock \<Rightarrow> trace \<Rightarrow> trace" where
  "ScopedLock_dtor C self tr = lc_unlock C (sl_lock self) tr"

text \<open>
  A block that declares a \<open>ScopedLock\<close> runs its body between the constructor and the destructor,
  by whatever \<open>return\<close> it is left.
\<close>

definition scoped :: "lock_class \<Rightarrow> oid \<Rightarrow> (trace \<Rightarrow> 'r \<times> trace) \<Rightarrow> trace \<Rightarrow> 'r \<times> trace" where
  "scoped C a body tr =
     (let (guard, tr1) = ScopedLock_ctor C a tr;
          (r, tr2) = body tr1
      in (r, ScopedLock_dtor C guard tr2))"

definition Mutex_class :: lock_class where
  "Mutex_class = \<lparr>lc_lock = Mutex_lock, lc_unlock = Mutex_unlock\<rparr>"

definition SpinLock_class :: lock_class where
  "SpinLock_class = \<lparr>lc_lock = SpinLock_lock, lc_unlock = SpinLock_unlock\<rparr>"

section \<open>Semaphore, Completion\<close>

text \<open>The results of the interruptible forms of \<open>down\<close> come from the kernel.\<close>

definition Semaphore_ctor :: "oid \<Rightarrow> int \<Rightarrow> trace \<Rightarrow> trace" where
  "Semaphore_ctor a n tr = tr @ [Sync (Sema_init a n)]"

definition Semaphore_down :: "oid \<Rightarrow> trace \<Rightarrow> trace" where
  "Semaphore_down a tr = tr @ [Sync (Down a)]"

definition Semaphore_down_interruptible :: "(trace \<Rightarrow> oid \<Rightarrow> int) \<Rightarrow> oid \<Rightarrow> trace \<Rightarrow> int \<times> trace" where
  "Semaphore_down_interruptible down_interruptible a tr =
     (down_interruptible tr a, tr @ [Sync (Down_interruptible a)])"

definition Semaphore_down_killable :: "(trace \<Rightarrow> oid \<Rightarrow> int) \<Rightarrow> oid \<Rightarrow> trace \<Rightarrow> int \<times> trace" where
  "Semaphore_down_killable down_killable a tr = (down_killable tr a, tr @ [Sync (Down_killable a)])"

definition Semaphore_down_timeout :: "(trace \<Rightarrow> oid \<Rightarrow> int \<Rightarrow> int) \<Rightarrow> oid \<Rightarrow> int \<Rightarrow> trace \<Rightarrow> int \<times> trace" where
  "Semaphore_down_timeout down_timeout a jiffies tr =
     (down_timeout tr a jiffies, tr @ [Sync (Down_timeout a jiffies)])"

definition Semaphore_up :: "oid \<Rightarrow> trace \<Rightarrow> trace" where
  "Semaphore_up a tr = tr @ [Sync (Up a)]"

definition Completion_ctor :: "oid \<Rightarrow> trace \<Rightarrow> trace" where
  "Completion_ctor a tr = tr @ [Sync (Init_completion a)]"

definition Completion_wait :: "oid \<Rightarrow> trace \<Rightarrow> trace" where
  "Completion_wait a tr = tr @ [Sync (Wait_for_completion a)]"

definition Completion_complete :: "oid \<Rightarrow> trace \<Rightarrow> trace" where
  "Completion_complete a tr = tr @ [Sync (Complete a)]"

definition Completion_complete_all :: "oid \<Rightarrow> trace \<Rightarrow> trace" where
  "Completion_complete_all a tr = tr @ [Sync (Complete_all a)]"

section \<open>Nested scopes\<close>

text \<open>
  The blocks of a function body: a kernel call, or a block with a \<open>ScopedLock\<close> in it and the
  blocks nested in that.  \<open>run_block\<close> is what the function does; \<open>lock_stack\<close> checks, from outside,
  that a trace takes and gives back locks in nested order.
\<close>

datatype block = Call kcall | Locked oid "block list"

fun run_block :: "lock_class \<Rightarrow> block \<Rightarrow> trace \<Rightarrow> trace"
  and run_blocks :: "lock_class \<Rightarrow> block list \<Rightarrow> trace \<Rightarrow> trace" where
  "run_block C (Call c) tr = tr @ [c]"
| "run_block C (Locked a bs) tr = snd (scoped C a (\<lambda>t. ((), run_blocks C bs t)) tr)"
| "run_blocks C [] tr = tr"
| "run_blocks C (b # bs) tr = run_blocks C bs (run_block C b tr)"

fun block_calls :: "block \<Rightarrow> kcall set" where
  "block_calls (Call c) = {c}"
| "block_calls (Locked a bs) = (\<Union>b\<in>set bs. block_calls b)"

fun lock_stack :: "(kcall \<Rightarrow> oid option) \<Rightarrow> (kcall \<Rightarrow> oid option) \<Rightarrow> trace \<Rightarrow> oid list \<Rightarrow> oid list option" where
  "lock_stack acq rel [] st = Some st"
| "lock_stack acq rel (c # tr) st =
     (case acq c of
        Some a \<Rightarrow> lock_stack acq rel tr (a # st)
      | None \<Rightarrow> (case rel c of
          None \<Rightarrow> lock_stack acq rel tr st
        | Some a \<Rightarrow> (case st of
            [] \<Rightarrow> None
          | b # st' \<Rightarrow> if a = b then lock_stack acq rel tr st' else None)))"

fun mutex_acquired :: "kcall \<Rightarrow> oid option" where
  "mutex_acquired (Sync (Lock_mutex a)) = Some a"
| "mutex_acquired c = None"

fun mutex_released :: "kcall \<Rightarrow> oid option" where
  "mutex_released (Sync (Unlock_mutex a)) = Some a"
| "mutex_released c = None"

fun spin_acquired :: "kcall \<Rightarrow> oid option" where
  "spin_acquired (Sync (Lock_spin a)) = Some a"
| "spin_acquired c = None"

fun spin_released :: "kcall \<Rightarrow> oid option" where
  "spin_released (Sync (Unlock_spin a)) = Some a"
| "spin_released c = None"

section \<open>The interface of a lock class\<close>

locale lockable =
  fixes C :: lock_class
    and acq :: "kcall \<Rightarrow> oid option"
    and rel :: "kcall \<Rightarrow> oid option"
    and lcall :: "oid \<Rightarrow> kcall"
    and ucall :: "oid \<Rightarrow> kcall"
  assumes lock_call: "lc_lock C a tr = tr @ [lcall a]"
    and unlock_call: "lc_unlock C a tr = tr @ [ucall a]"
    and acq_lock: "acq (lcall a) = Some a"
    and acq_unlock: "acq (ucall a) = None"
    and rel_unlock: "rel (ucall a) = Some a"
begin

lemma scoped_trace:
  "scoped C a body tr = (fst (body (tr @ [lcall a])), snd (body (tr @ [lcall a])) @ [ucall a])"
  by (simp add: scoped_def ScopedLock_ctor_def ScopedLock_dtor_def lock_call unlock_call case_prod_beta)

lemma lock_stack_append:
  "lock_stack acq rel (tr @ tr') st =
     (case lock_stack acq rel tr st of None \<Rightarrow> None | Some st' \<Rightarrow> lock_stack acq rel tr' st')"
  by (induction tr arbitrary: st) (auto split: option.splits list.splits)

lemma run_blocks_nested:
  "(\<And>b tr. b \<in> set bs \<Longrightarrow> lock_stack acq rel (run_block C b tr) st = lock_stack acq rel tr st) \<Longrightarrow>
     lock_stack acq rel (run_blocks C bs tr) st = lock_stack acq rel tr st"
  by (induction bs arbitrary: tr) auto

lemma run_block_nested:
  "\<forall>c\<in>block_calls b. acq c = None \<and> rel c = None \<Longrightarrow>
     lock_stack acq rel (run_block C b tr) st = lock_stack acq rel tr st"
proof (induction b arbitrary: tr)
  case (Call c)
  then show ?case by (auto simp: lock_stack_append split: option.splits)
next
  case (Locked a bs)
  then have "lock_stack acq rel (run_blocks C bs (tr @ [lcall a])) st =
      lock_stack acq rel (tr @ [lcall a]) st"
    by (intro run_blocks_nested) auto
  then show ?case
    by (auto simp: scoped_trace lock_stack_append acq_lock acq_unlock rel_unlock split: option.splits)
qed

text \<open>After any body the stack of held locks is what it was before it.\<close>

lemma body_balanced:
  assumes "\<forall>b\<in>set bs. \<forall>c\<in>block_calls b. acq c = None \<and> rel c = None"
  shows "lock_stack acq rel (run_blocks C bs []) st = Some st"
proof -
  have "lock_stack acq rel (run_blocks C bs []) st = lock_stack acq rel [] st"
    using assms by (intro run_blocks_nested run_block_nested) auto
  then show ?thesis by simp
qed

end

lemmas [sync_defs] = Mutex_lock_def Mutex_unlock_def SpinLock_lock_def SpinLock_unlock_def
  Mutex_class_def SpinLock_class_def

interpretation mutex: lockable Mutex_class mutex_acquired mutex_released
  "\<lambda>a. Sync (Lock_mutex a)" "\<lambda>a. Sync (Unlock_mutex a)"
  by unfold_locales (auto simp: sync_defs)

interpretation spin: lockable SpinLock_class spin_acquired spin_released
  "\<lambda>a. Sync (Lock_spin a)" "\<lambda>a. Sync (Unlock_spin a)"
  by unfold_locales (auto simp: sync_defs)

section \<open>Atomic updates\<close>

lemmas [sync_defs] = Atomic_read_def Atomic_add_def Atomic_sub_def Atomic_inc_def Atomic_dec_def
  Atomic_inc_and_test_def Atomic_dec_and_test_def Atomic_preinc_def Atomic_predec_def
  Atomic_plus_assign_def Atomic_minus_assign_def

lemma atomic_ok_word_atomics: "atomic_ok word_atomics"
  by (simp add: atomic_ok_def word_atomics_def)

lemma aop_run_delta: "atomic_ok A \<Longrightarrow> at_value (aop_run A op s) = at_value s + aop_delta op"
  by (cases op) (auto simp: atomic_ok_def sync_defs)

lemma aops_run_delta:
  "atomic_ok A \<Longrightarrow> at_value (aops_run A ops s) = at_value s + (\<Sum>op\<leftarrow>ops. aop_delta op)"
  unfolding aops_run_def by (induction ops arbitrary: s) (simp_all add: aop_run_delta)

section \<open>Properties\<close>

text \<open>
  C31.  The value of an \<open>Atomic\<close> after any interleaving of updates is the start value plus the sum
  of the updates, in 32-bit arithmetic with wrap-around; it depends on which updates were made
  and not on their order, so no update of any thread is lost.
\<close>

theorem Atomic_updates_commute:
  assumes "atomic_ok A" "mset ops = mset ops'"
  shows "Atomic_read A (aops_run A ops (Atomic_ctor A junk v)) = v + (\<Sum>op\<leftarrow>ops. aop_delta op) \<and>
         Atomic_read A (aops_run A ops' (Atomic_ctor A junk v)) =
           Atomic_read A (aops_run A ops (Atomic_ctor A junk v))"
proof -
  have "(\<Sum>op\<leftarrow>ops. aop_delta op) = (\<Sum>op\<leftarrow>ops'. aop_delta op)"
    using assms(2) by (metis sum_mset_sum_list mset_map)
  with assms(1) show ?thesis
    by (simp add: Atomic_read_def Atomic_ctor_def aops_run_delta) (simp add: atomic_ok_def)
qed

theorem Atomic_updates_commute_witness:
  "Atomic_read word_atomics (aops_run word_atomics [AInc, ASub 3, ADecTest] (Atomic_ctor word_atomics 99 3)) = 0"
  using Atomic_updates_commute [OF atomic_ok_word_atomics,
      of "[AInc, ASub 3, ADecTest]" "[AInc, ASub 3, ADecTest]" 99 3] by simp

text \<open>
  \<open>dec_and_test\<close> reports true exactly when it brings the counter to zero, and then the
  counter reads zero; otherwise the counter has gone down by one.
\<close>

theorem Atomic_dec_and_test_zero:
  assumes "atomic_ok A" "Atomic_dec_and_test A s = (b, s')"
  shows "(b \<longleftrightarrow> Atomic_read A s' = 0) \<and> Atomic_read A s' = Atomic_read A s - 1 \<and>
         (b \<longleftrightarrow> Atomic_read A s = 1)"
  using assms by (auto simp: atomic_ok_def sync_defs)

theorem Atomic_dec_and_test_zero_witness:
  "fst (Atomic_dec_and_test word_atomics \<lparr>at_value = 1\<rparr>) \<and>
   Atomic_read word_atomics (snd (Atomic_dec_and_test word_atomics \<lparr>at_value = 1\<rparr>)) = 0"
  using Atomic_dec_and_test_zero [OF atomic_ok_word_atomics,
      of "\<lparr>at_value = 1\<rparr>" True "\<lparr>at_value = 0\<rparr>"]
  by (simp add: Atomic_dec_and_test_def word_atomics_def)

text \<open>
  \<open>Atomic::set\<close> does not set the value: it writes to its own parameter, so what is read
  afterwards is what was there before.
\<close>

theorem Atomic_set_has_no_effect: "Atomic_read A (Atomic_set A s v) = Atomic_read A s"
  by (simp add: Atomic_set_def)

text \<open>
  \<open>ScopedLock\<close> on a \<open>Mutex\<close>: however blocks with scoped locks are nested and sequenced, the
  locks are taken and given back in nested order, and after the body exactly the locks held
  before it are held.
\<close>

theorem ScopedLock_Mutex_nested:
  assumes "\<forall>b\<in>set bs. \<forall>c\<in>block_calls b. mutex_acquired c = None \<and> mutex_released c = None"
  shows "lock_stack mutex_acquired mutex_released (run_blocks Mutex_class bs []) held = Some held"
  using assms by (rule mutex.body_balanced)

theorem ScopedLock_Mutex_nested_witness:
  "lock_stack mutex_acquired mutex_released
     (run_blocks Mutex_class [Locked 1 [Call (Mem (Kfree NULL)), Locked 2 []], Locked 2 []] []) [7] = Some [7]"
  using ScopedLock_Mutex_nested
    [of "[Locked 1 [Call (Mem (Kfree NULL)), Locked 2 []], Locked 2 []]" "[7]"] by simp

end
