(* ===== verification/Kpp_SharedPtr.thy ===== *)
theory Kpp_SharedPtr
  imports Kpp_Memory Kpp_Sync
begin

text \<open>
  \<^verbatim>\<open>memory/SharedPtr.hpp\<close>.

  \<open>sp_mem\<close> is the memory the handles share: the counters of the control blocks that exist, by the
  address of the block, and the trace.  Reading or writing the counter of a block that does not
  exist (any more) is a fault, \<open>None\<close>.  The object sits inside its control block at the offset
  \<open>off\<close>, which the compiler chooses.

  A handle is an object of its own, at an address (\<open>oid\<close>); \<open>sstate\<close> holds the handles, the set of those
  that exist, and the memory they share.  The last \<open>release\<close> runs \<open>~T()\<close>, which is code of the user:
  the parameter \<open>destroy\<close>, a function on all of that state, since a \<open>T\<close> may have \<open>SharedPtr\<close> members
  that go with it.  After it, \<open>release\<close> and the assignments go on to use \<open>*this\<close> and \<open>other\<close>: a
  handle that no longer exists there is a fault too.

  The first part proves what holds of programs whose objects have no \<open>SharedPtr\<close> members
  (\<open>plain_object\<close>) and whose handles come from \<open>make_shared\<close>, the default constructor, copies and
  moves; the public constructor from a raw pointer and a control block, with which anyone can make a
  second count of the same object, is outside.  The last section shows what the assignments do when
  the source is a member of the object they release.
\<close>

section \<open>The class\<close>

record SharedPtr =
  sp_ptr :: ptr
  sp_cb :: ptr

record sp_mem =
  cb_count :: "ptr \<rightharpoonup> c_int"
  sm_trace :: trace

record sstate =
  s_objs :: "oid \<Rightarrow> SharedPtr"
  s_alive :: "oid set"
  s_mem :: sp_mem

type_synonym destructor = "ptr \<Rightarrow> sstate \<Rightarrow> sstate option"

text \<open>The destructor of an object that holds no handle.\<close>

definition plain_object :: destructor where
  "plain_object p \<sigma> = Some \<sigma>"

fun cb_object :: "nat \<Rightarrow> ptr \<Rightarrow> ptr" where
  "cb_object off (Ptr a) = Ptr (a + off)"
| "cb_object off p = p"

text \<open>\<open>kfree(cb_)\<close>.\<close>

definition cb_free :: "ptr \<Rightarrow> sp_mem \<Rightarrow> sp_mem option" where
  "cb_free cb m =
     (if cb \<noteq> NULL \<and> cb_count m cb = None then None
      else Some (m\<lparr>cb_count := (cb_count m)(cb := None), sm_trace := sm_trace m @ [Mem (Kfree cb)]\<rparr>))"

definition SharedPtr_release :: "atomic_kernel \<Rightarrow> destructor \<Rightarrow> oid \<Rightarrow> sstate \<Rightarrow> sstate option" where
  "SharedPtr_release A destroy this \<sigma> =
     (let self = s_objs \<sigma> this; m = s_mem \<sigma>
      in if sp_cb self = NULL then Some \<sigma>
         else case cb_count m (sp_cb self) of
           None \<Rightarrow> None
         | Some c \<Rightarrow>
             (let (zero, c') = a_dec_and_test A c;
                  m1 = m\<lparr>cb_count := (cb_count m)(sp_cb self \<mapsto> c')\<rparr>
              in if zero
                 then case destroy (sp_ptr self)
                        (\<sigma>\<lparr>s_mem := m1\<lparr>sm_trace := sm_trace m1 @ [Mem (Destruct (sp_ptr self))]\<rparr>\<rparr>) of
                     None \<Rightarrow> None
                   | Some \<sigma>2 \<Rightarrow>
                       if this \<notin> s_alive \<sigma>2 then None
                       else map_option (\<lambda>m3. \<sigma>2\<lparr>s_mem := m3\<rparr>) (cb_free (sp_cb (s_objs \<sigma>2 this)) (s_mem \<sigma>2))
                 else Some (\<sigma>\<lparr>s_mem := m1\<rparr>)))"

text \<open>The guarded \<open>atomic_inc\<close> of the copying members.\<close>

definition cb_inc :: "atomic_kernel \<Rightarrow> ptr \<Rightarrow> sp_mem \<Rightarrow> sp_mem option" where
  "cb_inc A cb m =
     (if cb = NULL then Some m
      else case cb_count m cb of
        None \<Rightarrow> None
      | Some c \<Rightarrow> Some (m\<lparr>cb_count := (cb_count m)(cb \<mapsto> a_inc A c)\<rparr>))"

definition SharedPtr_default :: SharedPtr where
  "SharedPtr_default = \<lparr>sp_ptr = NULL, sp_cb = NULL\<rparr>"

definition SharedPtr_ctor :: "ptr \<Rightarrow> ptr \<Rightarrow> SharedPtr" where
  "SharedPtr_ctor p cb = \<lparr>sp_ptr = p, sp_cb = cb\<rparr>"

definition SharedPtr_dtor :: "atomic_kernel \<Rightarrow> destructor \<Rightarrow> oid \<Rightarrow> sstate \<Rightarrow> sstate option" where
  "SharedPtr_dtor A destroy this \<sigma> = SharedPtr_release A destroy this \<sigma>"

definition SharedPtr_copy_ctor ::
  "atomic_kernel \<Rightarrow> oid \<Rightarrow> oid \<Rightarrow> (oid \<Rightarrow> SharedPtr) \<Rightarrow> sp_mem \<Rightarrow> ((oid \<Rightarrow> SharedPtr) \<times> sp_mem) option" where
  "SharedPtr_copy_ctor A this other s m =
     (let s1 = s(this := \<lparr>sp_ptr = sp_ptr (s other), sp_cb = sp_cb (s other)\<rparr>)
      in map_option (Pair s1) (cb_inc A (sp_cb (s1 this)) m))"

definition SharedPtr_copy_assign ::
  "atomic_kernel \<Rightarrow> destructor \<Rightarrow> oid \<Rightarrow> oid \<Rightarrow> sstate \<Rightarrow> sstate option" where
  "SharedPtr_copy_assign A destroy this other \<sigma> =
     (if this \<noteq> other then
        case SharedPtr_release A destroy this \<sigma> of
          None \<Rightarrow> None
        | Some \<sigma>1 \<Rightarrow>
            if this \<notin> s_alive \<sigma>1 \<or> other \<notin> s_alive \<sigma>1 then None
            else
              (let s = s_objs \<sigma>1;
                   s1 = s(this := (s this)\<lparr>sp_ptr := sp_ptr (s other), sp_cb := sp_cb (s other)\<rparr>)
               in map_option (\<lambda>m. \<sigma>1\<lparr>s_objs := s1, s_mem := m\<rparr>) (cb_inc A (sp_cb (s1 this)) (s_mem \<sigma>1)))
      else Some \<sigma>)"

definition SharedPtr_move_ctor :: "oid \<Rightarrow> oid \<Rightarrow> (oid \<Rightarrow> SharedPtr) \<Rightarrow> (oid \<Rightarrow> SharedPtr)" where
  "SharedPtr_move_ctor this other s =
     (let s1 = s(this := \<lparr>sp_ptr = sp_ptr (s other), sp_cb = sp_cb (s other)\<rparr>)
      in s1(other := (s1 other)\<lparr>sp_ptr := NULL, sp_cb := NULL\<rparr>))"

definition SharedPtr_move_assign ::
  "atomic_kernel \<Rightarrow> destructor \<Rightarrow> oid \<Rightarrow> oid \<Rightarrow> sstate \<Rightarrow> sstate option" where
  "SharedPtr_move_assign A destroy this other \<sigma> =
     (if this \<noteq> other then
        case SharedPtr_release A destroy this \<sigma> of
          None \<Rightarrow> None
        | Some \<sigma>1 \<Rightarrow>
            if this \<notin> s_alive \<sigma>1 \<or> other \<notin> s_alive \<sigma>1 then None
            else
              (let s = s_objs \<sigma>1;
                   s1 = s(this := (s this)\<lparr>sp_ptr := sp_ptr (s other), sp_cb := sp_cb (s other)\<rparr>);
                   s2 = s1(other := (s1 other)\<lparr>sp_ptr := NULL, sp_cb := NULL\<rparr>)
               in Some (\<sigma>1\<lparr>s_objs := s2\<rparr>))
      else Some \<sigma>)"

definition SharedPtr_get :: "SharedPtr \<Rightarrow> ptr" where
  "SharedPtr_get self = sp_ptr self"

definition SharedPtr_use_count :: "atomic_kernel \<Rightarrow> SharedPtr \<Rightarrow> sp_mem \<Rightarrow> int option" where
  "SharedPtr_use_count A self m =
     (if sp_cb self \<noteq> NULL
      then map_option (\<lambda>c. sint (a_read A c)) (cb_count m (sp_cb self)) else Some 0)"

definition SharedPtr_bool :: "SharedPtr \<Rightarrow> bool" where
  "SharedPtr_bool self \<longleftrightarrow> sp_ptr self \<noteq> NULL"

text \<open>
  \<open>operator*\<close>, and \<open>operator->\<close> with the access that follows: the object must be there, that is, its
  block exists and it was constructed once more than it was destroyed.
\<close>

definition SharedPtr_deref :: "SharedPtr \<Rightarrow> sp_mem \<Rightarrow> ptr option" where
  "SharedPtr_deref self m =
     (if cb_count m (sp_cb self) \<noteq> None \<and>
         count_list (sm_trace m) (Mem (Destruct (sp_ptr self))) < count_list (sm_trace m) (Mem (Construct (sp_ptr self)))
      then Some (sp_ptr self) else None)"

text \<open>\<open>junk\<close> is what the memory of the counter holds when \<open>kmalloc\<close> returns it.\<close>

definition make_shared ::
  "atomic_kernel \<Rightarrow> allocator \<Rightarrow> nat \<Rightarrow> c_int \<Rightarrow> nat \<Rightarrow> gfp \<Rightarrow> sp_mem \<Rightarrow> SharedPtr \<times> sp_mem" where
  "make_shared A alloc off junk sizeof_CB flags m =
     (let mem = alloc (sm_trace m) sizeof_CB flags;
          m1 = m\<lparr>sm_trace := sm_trace m @ [Mem (Kmalloc sizeof_CB flags mem)]\<rparr>
      in if mem = NULL then (SharedPtr_default, m1)
         else
           let m2 = m1\<lparr>cb_count := (cb_count m1)(mem \<mapsto> a_set A junk 1)\<rparr>;
               object_ptr = cb_object off mem;
               m3 = m2\<lparr>sm_trace := sm_trace m2 @ [Mem (Construct object_ptr)]\<rparr>
           in (SharedPtr_ctor object_ptr mem, m3))"

section \<open>Release of an object without handles\<close>

text \<open>What is left of \<open>release\<close> then works on the shared memory alone.\<close>

definition release_plain :: "atomic_kernel \<Rightarrow> SharedPtr \<Rightarrow> sp_mem \<Rightarrow> sp_mem option" where
  "release_plain A self m =
     (if sp_cb self = NULL then Some m
      else case cb_count m (sp_cb self) of
        None \<Rightarrow> None
      | Some c \<Rightarrow>
          (let (zero, c') = a_dec_and_test A c;
               m1 = m\<lparr>cb_count := (cb_count m)(sp_cb self \<mapsto> c')\<rparr>
           in if zero
              then Some (m1\<lparr>cb_count := (cb_count m1)(sp_cb self := None),
                            sm_trace := sm_trace m1 @ [Mem (Destruct (sp_ptr self)), Mem (Kfree (sp_cb self))]\<rparr>)
              else Some m1))"

lemma SharedPtr_release_plain:
  "x \<in> s_alive \<sigma> \<Longrightarrow> SharedPtr_release A plain_object x \<sigma> =
     map_option (\<lambda>m. \<sigma>\<lparr>s_mem := m\<rparr>) (release_plain A (s_objs \<sigma> x) (s_mem \<sigma>))"
  by (auto simp: SharedPtr_release_def release_plain_def plain_object_def cb_free_def Let_def
      split: option.splits prod.splits)

section \<open>Programs over SharedPtr\<close>

text \<open>The commands on handles of objects that hold no handles themselves.\<close>

datatype scmd =
    SMake oid nat gfp c_int
  | SDefault oid
  | SDestroy oid
  | SCopyNew oid oid
  | SCopyAssign oid oid
  | SMoveNew oid oid
  | SMoveAssign oid oid

definition sinit :: sstate where
  "sinit = \<lparr>s_objs = (\<lambda>_. SharedPtr_default), s_alive = {},
     s_mem = \<lparr>cb_count = Map.empty, sm_trace = []\<rparr>\<rparr>"

definition with_store :: "sstate \<Rightarrow> ((oid \<Rightarrow> SharedPtr) \<times> sp_mem) option \<Rightarrow> sstate outcome" where
  "with_store \<sigma> r = outcome_of (map_option (\<lambda>(s, m). \<sigma>\<lparr>s_objs := s, s_mem := m\<rparr>) r)"

fun sstep :: "atomic_kernel \<Rightarrow> allocator \<Rightarrow> nat \<Rightarrow> scmd \<Rightarrow> sstate \<Rightarrow> sstate outcome" where
  "sstep A alloc off (SMake x n f junk) \<sigma> =
     (if x \<in> s_alive \<sigma> then Ill_formed
      else let (p, m) = make_shared A alloc off junk n f (s_mem \<sigma>)
           in Ok (\<sigma>\<lparr>s_objs := (s_objs \<sigma>)(x := p), s_alive := insert x (s_alive \<sigma>), s_mem := m\<rparr>))"
| "sstep A alloc off (SDefault x) \<sigma> =
     (if x \<in> s_alive \<sigma> then Ill_formed
      else Ok (\<sigma>\<lparr>s_objs := (s_objs \<sigma>)(x := SharedPtr_default), s_alive := insert x (s_alive \<sigma>)\<rparr>))"
| "sstep A alloc off (SDestroy x) \<sigma> =
     (if x \<notin> s_alive \<sigma> then Ill_formed
      else outcome_of (map_option (\<lambda>\<sigma>'. \<sigma>'\<lparr>s_alive := s_alive \<sigma>' - {x}\<rparr>)
             (SharedPtr_dtor A plain_object x \<sigma>)))"
| "sstep A alloc off (SCopyNew x y) \<sigma> =
     (if x \<in> s_alive \<sigma> \<or> y \<notin> s_alive \<sigma> then Ill_formed
      else with_store (\<sigma>\<lparr>s_alive := insert x (s_alive \<sigma>)\<rparr>) (SharedPtr_copy_ctor A x y (s_objs \<sigma>) (s_mem \<sigma>)))"
| "sstep A alloc off (SCopyAssign x y) \<sigma> =
     (if x \<notin> s_alive \<sigma> \<or> y \<notin> s_alive \<sigma> then Ill_formed
      else outcome_of (SharedPtr_copy_assign A plain_object x y \<sigma>))"
| "sstep A alloc off (SMoveNew x y) \<sigma> =
     (if x \<in> s_alive \<sigma> \<or> y \<notin> s_alive \<sigma> then Ill_formed
      else Ok (\<sigma>\<lparr>s_objs := SharedPtr_move_ctor x y (s_objs \<sigma>), s_alive := insert x (s_alive \<sigma>)\<rparr>))"
| "sstep A alloc off (SMoveAssign x y) \<sigma> =
     (if x \<notin> s_alive \<sigma> \<or> y \<notin> s_alive \<sigma> then Ill_formed
      else outcome_of (SharedPtr_move_assign A plain_object x y \<sigma>))"

fun srun :: "atomic_kernel \<Rightarrow> allocator \<Rightarrow> nat \<Rightarrow> scmd list \<Rightarrow> sstate \<Rightarrow> sstate outcome" where
  "srun A alloc off [] \<sigma> = Ok \<sigma>"
| "srun A alloc off (c # cs) \<sigma> =
     (case sstep A alloc off c \<sigma> of
        Ok \<sigma>' \<Rightarrow> srun A alloc off cs \<sigma>' | Ill_formed \<Rightarrow> Ill_formed | Fault \<Rightarrow> Fault)"

section \<open>The invariant\<close>

text \<open>
  \<open>refs \<sigma> c\<close> counts the living handles on block \<open>c\<close>.  A block exists exactly when it has a handle,
  and then its counter is that number (\<open>cb_rep\<close>); the blocks that exist are the ones allocated,
  and of every object one more construction than destruction has happened if it is there, and
  equally many if it is not (\<open>mem_ok\<close>).
\<close>

definition refs :: "sstate \<Rightarrow> ptr \<Rightarrow> nat" where
  "refs \<sigma> c = tally (s_alive \<sigma>) (\<lambda>x. sp_cb (s_objs \<sigma> x) = c)"

definition cb_rep :: "(ptr \<Rightarrow> nat) \<Rightarrow> sp_mem \<Rightarrow> bool" where
  "cb_rep r m \<longleftrightarrow> cb_count m = (\<lambda>c. if c = NULL \<or> r c = 0 then None else Some (of_nat (r c)))"

definition mem_ok :: "nat \<Rightarrow> sp_mem \<Rightarrow> bool" where
  "mem_ok off m \<longleftrightarrow> heap_run (sm_trace m) = Some (dom (cb_count m)) \<and>
     (\<forall>q. count_list (sm_trace m) (Mem (Construct q)) =
          count_list (sm_trace m) (Mem (Destruct q)) + of_bool (\<exists>c\<in>dom (cb_count m). cb_object off c = q))"

definition sinv :: "nat \<Rightarrow> sstate \<Rightarrow> bool" where
  "sinv off \<sigma> \<longleftrightarrow> finite (s_alive \<sigma>) \<and>
     (\<forall>x\<in>s_alive \<sigma>. sp_ptr (s_objs \<sigma> x) = cb_object off (sp_cb (s_objs \<sigma> x))) \<and>
     cb_rep (refs \<sigma>) (s_mem \<sigma>) \<and> mem_ok off (s_mem \<sigma>)"

section \<open>Counters\<close>

lemma cb_object_inj [simp]: "cb_object off p = cb_object off q \<longleftrightarrow> p = q"
  by (cases p; cases q) auto

lemma cb_object_NULL [simp]: "cb_object off p = NULL \<longleftrightarrow> p = NULL"
  by (cases p) auto

lemma cb_rep_cong: "(\<And>c. c \<noteq> NULL \<Longrightarrow> r c = r' c) \<Longrightarrow> cb_rep r m \<Longrightarrow> cb_rep r' m"
  by (auto simp: cb_rep_def fun_eq_iff)

lemma of_nat_c_int_0: "n < 2 ^ 32 \<Longrightarrow> (of_nat n :: c_int) = 0 \<longleftrightarrow> n = 0"
  by (auto simp: word_of_nat_eq_0_iff dest: nat_dvd_not_less)

lemma sint_of_nat_c_int: "n < 2 ^ 31 \<Longrightarrow> sint (of_nat n :: c_int) = int n"
  by (simp add: signed_of_nat signed_take_bit_int_eq_self)

lemma release_ok:
  assumes "atomic_ok A" "cb_rep r m" "mem_ok off m" "sp_ptr h = cb_object off (sp_cb h)"
    and "sp_cb h \<noteq> NULL \<Longrightarrow> 0 < r (sp_cb h) \<and> r (sp_cb h) < 2 ^ 32"
  shows "\<exists>m'. release_plain A h m = Some m' \<and>
    cb_rep (r(sp_cb h := r (sp_cb h) - 1)) m' \<and> mem_ok off m'"
proof (cases "sp_cb h = NULL")
  case True
  with assms(2,3) show ?thesis
    by (auto simp: release_plain_def elim: cb_rep_cong [rotated])
next
  case False
  let ?c = "sp_cb h"
  from assms(5) False obtain n where n: "r ?c = Suc n" "Suc n < 2 ^ 32"
    by (metis gr0_conv_Suc)
  from assms(2) False n have c: "cb_count m ?c = Some (of_nat (Suc n))" by (simp add: cb_rep_def)
  from assms(1) have dec: "a_dec_and_test A (of_nat (Suc n)) = (n = 0, of_nat n)"
    using n(2) of_nat_c_int_0 [of n] by (simp add: atomic_ok_def)
  show ?thesis
  proof (cases "n = 0")
    case True
    from c have "?c \<in> dom (cb_count m)" by auto
    with True False assms c dec n show ?thesis
      by (auto simp: release_plain_def cb_rep_def mem_ok_def Let_def fun_eq_iff)
  next
    case nz: False
    from c have "dom ((cb_count m)(?c \<mapsto> of_nat n)) = dom (cb_count m)" by auto
    with nz False assms c dec n show ?thesis
      by (auto simp: release_plain_def cb_rep_def mem_ok_def Let_def)
  qed
qed

lemma cb_inc_ok:
  assumes "atomic_ok A" "cb_rep r m" "mem_ok off m" "cb \<noteq> NULL \<Longrightarrow> 0 < r cb"
  shows "\<exists>m'. cb_inc A cb m = Some m' \<and> cb_rep (r(cb := Suc (r cb))) m' \<and> mem_ok off m'"
proof (cases "cb = NULL")
  case True
  with assms(2,3) show ?thesis by (auto simp: cb_inc_def elim: cb_rep_cong [rotated])
next
  case False
  with assms have c: "cb_count m cb = Some (of_nat (r cb))" by (simp add: cb_rep_def)
  from c have "dom ((cb_count m)(cb \<mapsto> v)) = dom (cb_count m)" for v by auto
  with False assms c show ?thesis
    by (auto simp: cb_inc_def cb_rep_def mem_ok_def atomic_ok_def algebra_simps)
qed

section \<open>Every command keeps the invariant and never faults\<close>

definition safe_outcome :: "nat \<Rightarrow> nat \<Rightarrow> sstate outcome \<Rightarrow> bool" where
  "safe_outcome off k r = (case r of
     Ok \<sigma> \<Rightarrow> sinv off \<sigma> \<and> card (s_alive \<sigma>) \<le> k | Ill_formed \<Rightarrow> True | Fault \<Rightarrow> False)"

lemma safe_Ok [simp]: "safe_outcome off k (Ok \<sigma>) \<longleftrightarrow> sinv off \<sigma> \<and> card (s_alive \<sigma>) \<le> k"
  by (simp add: safe_outcome_def)

lemma safe_Ill_formed [simp]: "safe_outcome off k Ill_formed"
  by (simp add: safe_outcome_def)

lemma refs_alive: "finite (s_alive \<sigma>) \<Longrightarrow> x \<in> s_alive \<sigma> \<Longrightarrow> 0 < refs \<sigma> (sp_cb (s_objs \<sigma> x))"
  by (simp add: refs_def tally_pos)

lemma refs_le: "finite (s_alive \<sigma>) \<Longrightarrow> refs \<sigma> c \<le> card (s_alive \<sigma>)"
  unfolding refs_def by (rule tally_le)

lemma refs_outside:
  "x \<notin> s_alive \<sigma> \<Longrightarrow> tally (s_alive \<sigma>) (\<lambda>z. sp_cb (((s_objs \<sigma>)(x := h)) z) = c) = refs \<sigma> c"
  unfolding refs_def by (rule tally_cong) auto

lemma refs_without:
  assumes "finite (s_alive \<sigma>)" "x \<in> s_alive \<sigma>"
  shows "(refs \<sigma>)(sp_cb (s_objs \<sigma> x) := refs \<sigma> (sp_cb (s_objs \<sigma> x)) - 1) =
    (\<lambda>c. tally (s_alive \<sigma> - {x}) (\<lambda>z. sp_cb (s_objs \<sigma> z) = c))"
  using tally_remove [OF assms] by (auto simp: refs_def fun_eq_iff)

lemma release_alive:
  assumes "atomic_ok A" "sinv off \<sigma>" "card (s_alive \<sigma>) < 2 ^ 32" "x \<in> s_alive \<sigma>"
  shows "\<exists>m'. release_plain A (s_objs \<sigma> x) (s_mem \<sigma>) = Some m' \<and> mem_ok off m' \<and>
    cb_rep (\<lambda>c. tally (s_alive \<sigma> - {x}) (\<lambda>z. sp_cb (s_objs \<sigma> z) = c)) m'"
proof -
  have fin: "finite (s_alive \<sigma>)" using assms(2) by (simp add: sinv_def)
  have "refs \<sigma> c < 2 ^ 32" for c using refs_le [OF fin, of c] assms(3) by linarith
  with refs_alive [OF fin assms(4)] assms
    release_ok [of A "refs \<sigma>" "s_mem \<sigma>" off "s_objs \<sigma> x"]
  show ?thesis unfolding refs_without [OF fin assms(4)] by (auto simp: sinv_def)
qed

lemma safe_SMake:
  assumes "atomic_ok A" "kmalloc_fresh alloc" "sinv off \<sigma>"
  shows "safe_outcome off (Suc (card (s_alive \<sigma>))) (sstep A alloc off (SMake x n f junk) \<sigma>)"
proof (cases "x \<in> s_alive \<sigma>")
  case False
  let ?p = "alloc (sm_trace (s_mem \<sigma>)) n f"
  let ?r = "make_shared A alloc off junk n f (s_mem \<sigma>)"
  let ?\<sigma>' = "\<sigma>\<lparr>s_objs := (s_objs \<sigma>)(x := fst ?r), s_alive := insert x (s_alive \<sigma>), s_mem := snd ?r\<rparr>"
  have fin: "finite (s_alive \<sigma>)" and rep: "cb_rep (refs \<sigma>) (s_mem \<sigma>)" and mem: "mem_ok off (s_mem \<sigma>)"
    using assms(3) by (auto simp: sinv_def)
  from mem assms(2) have fresh: "cb_count (s_mem \<sigma>) ?p = None"
    by (auto simp: kmalloc_fresh_def mem_ok_def domIff)
  have refs': "refs ?\<sigma>' c = of_bool (sp_cb (fst ?r) = c) + refs \<sigma> c" for c
    using fin False refs_outside [OF False, of "fst ?r" c] by (simp add: refs_def)
  have h: "sp_cb (fst ?r) = ?p \<and> sp_ptr (fst ?r) = cb_object off ?p"
    by (simp add: make_shared_def SharedPtr_default_def SharedPtr_ctor_def Let_def)
  have "cb_rep (refs ?\<sigma>') (snd ?r)"
  proof (cases "?p = NULL")
    case True
    with rep refs' h show ?thesis
      by (auto simp: cb_rep_def make_shared_def Let_def fun_eq_iff)
  next
    case np: False
    with rep fresh have "refs \<sigma> ?p = 0" by (auto simp: cb_rep_def split: if_splits)
    with np rep refs' h assms(1) show ?thesis
      by (auto simp: cb_rep_def make_shared_def atomic_ok_def Let_def fun_eq_iff)
  qed
  moreover have "mem_ok off (snd ?r)"
    using mem fresh by (auto simp: mem_ok_def make_shared_def Let_def domIff)
  ultimately have "sinv off ?\<sigma>'"
    using assms(3) False h by (auto simp: sinv_def)
  with False fin show ?thesis by (simp add: case_prod_beta)
qed simp

lemma safe_SDefault:
  assumes "sinv off \<sigma>"
  shows "safe_outcome off (Suc (card (s_alive \<sigma>))) (sstep A alloc off (SDefault x) \<sigma>)"
proof (cases "x \<in> s_alive \<sigma>")
  case False
  let ?\<sigma>' = "\<sigma>\<lparr>s_objs := (s_objs \<sigma>)(x := SharedPtr_default), s_alive := insert x (s_alive \<sigma>)\<rparr>"
  have "c \<noteq> NULL \<Longrightarrow> refs \<sigma> c = refs ?\<sigma>' c" for c
    using assms False refs_outside [OF False, of SharedPtr_default c]
    by (simp add: refs_def sinv_def SharedPtr_default_def)
  with assms False show ?thesis
    by (auto simp: sinv_def SharedPtr_default_def elim: cb_rep_cong [rotated])
qed simp

lemma safe_SDestroy:
  assumes "atomic_ok A" "sinv off \<sigma>" "card (s_alive \<sigma>) < 2 ^ 32"
  shows "safe_outcome off (Suc (card (s_alive \<sigma>))) (sstep A alloc off (SDestroy x) \<sigma>)"
proof (cases "x \<in> s_alive \<sigma>")
  case True
  from release_alive [OF assms True] obtain m' where
    "release_plain A (s_objs \<sigma> x) (s_mem \<sigma>) = Some m'" "mem_ok off m'"
    "cb_rep (\<lambda>c. tally (s_alive \<sigma> - {x}) (\<lambda>z. sp_cb (s_objs \<sigma> z) = c)) m'" by blast
  with True assms(2) show ?thesis
    by (auto simp: SharedPtr_dtor_def SharedPtr_release_plain sinv_def refs_def [abs_def] card_Diff_singleton)
qed simp

lemma safe_SCopyNew:
  assumes "atomic_ok A" "sinv off \<sigma>"
  shows "safe_outcome off (Suc (card (s_alive \<sigma>))) (sstep A alloc off (SCopyNew x y) \<sigma>)"
proof (cases "x \<in> s_alive \<sigma> \<or> y \<notin> s_alive \<sigma>")
  case False
  let ?h = "s_objs \<sigma> y"
  let ?s = "(s_objs \<sigma>)(x := \<lparr>sp_ptr = sp_ptr ?h, sp_cb = sp_cb ?h\<rparr>)"
  have fin: "finite (s_alive \<sigma>)" using assms(2) by (simp add: sinv_def)
  from assms cb_inc_ok [of A "refs \<sigma>" "s_mem \<sigma>" off "sp_cb ?h"] refs_alive [OF fin, of y] False
  obtain m' where m': "cb_inc A (sp_cb ?h) (s_mem \<sigma>) = Some m'" "mem_ok off m'"
      "cb_rep ((refs \<sigma>)(sp_cb ?h := Suc (refs \<sigma> (sp_cb ?h)))) m'"
    by (auto simp: sinv_def)
  have "refs (\<sigma>\<lparr>s_alive := insert x (s_alive \<sigma>), s_objs := ?s, s_mem := m'\<rparr>) =
      (refs \<sigma>)(sp_cb ?h := Suc (refs \<sigma> (sp_cb ?h)))"
    using fin False refs_outside [of x \<sigma> "?s x"] by (auto simp: refs_def fun_eq_iff)
  with m' False assms(2) show ?thesis
    by (auto simp: with_store_def SharedPtr_copy_ctor_def Let_def sinv_def)
qed auto

lemma safe_SMoveNew:
  assumes "sinv off \<sigma>"
  shows "safe_outcome off (Suc (card (s_alive \<sigma>))) (sstep A alloc off (SMoveNew x y) \<sigma>)"
proof (cases "x \<in> s_alive \<sigma> \<or> y \<notin> s_alive \<sigma>")
  case False
  let ?s = "SharedPtr_move_ctor x y (s_objs \<sigma>)"
  let ?\<sigma>' = "\<sigma>\<lparr>s_objs := ?s, s_alive := insert x (s_alive \<sigma>)\<rparr>"
  have fin: "finite (s_alive \<sigma>)" using assms by (simp add: sinv_def)
  from False have xy: "x \<noteq> y" by auto
  have "refs \<sigma> c = refs ?\<sigma>' c" if "c \<noteq> NULL" for c
  proof -
    have "tally (s_alive \<sigma> - {y}) (\<lambda>z. sp_cb (?s z) = c) =
        tally (s_alive \<sigma> - {y}) (\<lambda>z. sp_cb (s_objs \<sigma> z) = c)"
      using False xy by (intro tally_cong) (auto simp: SharedPtr_move_ctor_def Let_def)
    with that False xy fin show ?thesis
      by (simp add: refs_def tally_remove [of "s_alive \<sigma>" y])
        (simp add: SharedPtr_move_ctor_def Let_def)
  qed
  with assms False show ?thesis
    by (auto simp: sinv_def SharedPtr_move_ctor_def Let_def elim: cb_rep_cong [rotated])
qed auto

text \<open>
  Assignment: the old block of \<open>x\<close> loses a handle, then \<open>x\<close> takes over what \<open>y\<close> has.  \<open>y\<close> itself
  keeps the block of \<open>y\<close> alive in between, also when it is the old block of \<open>x\<close>.
\<close>

lemma refs_split:
  assumes "finite (s_alive \<sigma>)" "x \<in> s_alive \<sigma>"
  shows "refs \<sigma> c = of_bool (sp_cb (s_objs \<sigma> x) = c) +
    tally (s_alive \<sigma> - {x}) (\<lambda>z. sp_cb (s_objs \<sigma> z) = c)"
  unfolding refs_def using assms by (rule tally_remove)

lemma safe_SCopyAssign:
  assumes "atomic_ok A" "sinv off \<sigma>" "card (s_alive \<sigma>) < 2 ^ 32"
  shows "safe_outcome off (Suc (card (s_alive \<sigma>))) (sstep A alloc off (SCopyAssign x y) \<sigma>)"
proof (cases "x \<in> s_alive \<sigma> \<and> y \<in> s_alive \<sigma> \<and> x \<noteq> y")
  case True
  let ?h = "s_objs \<sigma> y"
  let ?s = "(s_objs \<sigma>)(x := (s_objs \<sigma> x)\<lparr>sp_ptr := sp_ptr ?h, sp_cb := sp_cb ?h\<rparr>)"
  let ?r = "\<lambda>c. tally (s_alive \<sigma> - {x}) (\<lambda>z. sp_cb (s_objs \<sigma> z) = c)"
  have fin: "finite (s_alive \<sigma>)" using assms(2) by (simp add: sinv_def)
  from release_alive [OF assms, of x] True obtain m1 where
    m1: "release_plain A (s_objs \<sigma> x) (s_mem \<sigma>) = Some m1" "mem_ok off m1" "cb_rep ?r m1" by blast
  have "0 < ?r (sp_cb ?h)" using fin True by (intro tally_pos [of _ y]) auto
  with cb_inc_ok [OF assms(1) m1(3,2), of "sp_cb ?h"] obtain m2 where
    m2: "cb_inc A (sp_cb ?h) m1 = Some m2" "mem_ok off m2"
      "cb_rep (?r(sp_cb ?h := Suc (?r (sp_cb ?h)))) m2" by blast
  have "tally (s_alive \<sigma> - {x}) (\<lambda>z. sp_cb (?s z) = c) = ?r c" for c
    by (rule tally_cong) auto
  then have "refs (\<sigma>\<lparr>s_objs := ?s, s_mem := m2\<rparr>) = ?r(sp_cb ?h := Suc (?r (sp_cb ?h)))"
    using refs_split [of "\<sigma>\<lparr>s_objs := ?s, s_mem := m2\<rparr>" x] fin True by (auto simp: fun_eq_iff)
  with m1 m2 True assms(2) show ?thesis
    by (auto simp: SharedPtr_copy_assign_def SharedPtr_release_plain Let_def sinv_def)
next
  case False
  with assms(2) show ?thesis
    by (auto simp: SharedPtr_copy_assign_def)
qed

lemma safe_SMoveAssign:
  assumes "atomic_ok A" "sinv off \<sigma>" "card (s_alive \<sigma>) < 2 ^ 32"
  shows "safe_outcome off (Suc (card (s_alive \<sigma>))) (sstep A alloc off (SMoveAssign x y) \<sigma>)"
proof (cases "x \<in> s_alive \<sigma> \<and> y \<in> s_alive \<sigma> \<and> x \<noteq> y")
  case True
  let ?h = "s_objs \<sigma> y"
  let ?s = "(s_objs \<sigma>)(x := (s_objs \<sigma> x)\<lparr>sp_ptr := sp_ptr ?h, sp_cb := sp_cb ?h\<rparr>,
    y := ?h\<lparr>sp_ptr := NULL, sp_cb := NULL\<rparr>)"
  let ?r = "\<lambda>c. tally (s_alive \<sigma> - {x}) (\<lambda>z. sp_cb (s_objs \<sigma> z) = c)"
  have fin: "finite (s_alive \<sigma>)" using assms(2) by (simp add: sinv_def)
  from release_alive [OF assms, of x] True obtain m1 where
    m1: "release_plain A (s_objs \<sigma> x) (s_mem \<sigma>) = Some m1" "mem_ok off m1" "cb_rep ?r m1" by blast
  have "?r c = refs (\<sigma>\<lparr>s_mem := m1, s_objs := ?s\<rparr>) c" if "c \<noteq> NULL" for c
  proof -
    have "tally (s_alive \<sigma> - {x} - {y}) (\<lambda>z. sp_cb (?s z) = c) =
        tally (s_alive \<sigma> - {x} - {y}) (\<lambda>z. sp_cb (s_objs \<sigma> z) = c)"
      by (rule tally_cong) auto
    with that fin True show ?thesis
      using refs_split [of "\<sigma>\<lparr>s_mem := m1, s_objs := ?s\<rparr>" x c]
        tally_remove [of "s_alive \<sigma> - {x}" y "\<lambda>z. sp_cb (s_objs \<sigma> z) = c"]
        tally_remove [of "s_alive \<sigma> - {x}" y "\<lambda>z. sp_cb (?s z) = c"] by simp
  qed
  with m1(3) have "cb_rep (refs (\<sigma>\<lparr>s_mem := m1, s_objs := ?s\<rparr>)) m1" by (rule cb_rep_cong [rotated])
  with m1 True assms(2) show ?thesis
    by (auto simp: SharedPtr_move_assign_def SharedPtr_release_plain Let_def sinv_def)
next
  case False
  with assms(2) show ?thesis
    by (auto simp: SharedPtr_move_assign_def)
qed

lemmas safe_commands = safe_SMake safe_SDefault safe_SDestroy safe_SCopyNew safe_SCopyAssign
  safe_SMoveNew safe_SMoveAssign

lemma sstep_safe:
  "atomic_ok A \<Longrightarrow> kmalloc_fresh alloc \<Longrightarrow> sinv off \<sigma> \<Longrightarrow> card (s_alive \<sigma>) < 2 ^ 32 \<Longrightarrow>
     safe_outcome off (Suc (card (s_alive \<sigma>))) (sstep A alloc off c \<sigma>)"
  by (cases c) (simp_all only: safe_commands)

lemma srun_safe:
  assumes "atomic_ok A" "kmalloc_fresh alloc" "sinv off \<sigma>" "card (s_alive \<sigma>) + length cs < 2 ^ 32"
  shows "safe_outcome off (card (s_alive \<sigma>) + length cs) (srun A alloc off cs \<sigma>)"
  using assms(3,4)
proof (induction cs arbitrary: \<sigma>)
  case (Cons c cs)
  from Cons.prems have step: "safe_outcome off (Suc (card (s_alive \<sigma>))) (sstep A alloc off c \<sigma>)"
    by (intro sstep_safe assms(1,2)) auto
  show ?case
  proof (cases "sstep A alloc off c \<sigma>")
    case (Ok \<sigma>')
    with step have "sinv off \<sigma>'" "card (s_alive \<sigma>') \<le> Suc (card (s_alive \<sigma>))" by auto
    with Cons.prems Cons.IH [of \<sigma>'] Ok show ?thesis
      by (auto simp: safe_outcome_def split: outcome.splits)
  qed (use step in \<open>simp_all add: safe_outcome_def\<close>)
qed simp

lemma sinv_init: "sinv off sinit"
  by (auto simp: sinv_def sinit_def cb_rep_def mem_ok_def refs_def)

section \<open>Properties\<close>

text \<open>
  C1.  Memory safety of \<open>SharedPtr\<close> for objects that have no \<open>SharedPtr\<close> members: a program of fewer
  than \<open>2^32\<close> commands on handles from \<open>make_shared\<close>, the default constructor, copies and moves never
  touches the counter of a control block that is gone, and never frees a block that is not allocated.
\<close>

theorem SharedPtr_never_faults:
  assumes "atomic_ok A" "kmalloc_fresh alloc" "length cs < 2 ^ 32"
  shows "srun A alloc off cs sinit \<noteq> Fault \<and>
    (\<forall>\<sigma>. srun A alloc off cs sinit = Ok \<sigma> \<longrightarrow> heap_run (sm_trace (s_mem \<sigma>)) \<noteq> None)"
  using srun_safe [OF assms(1,2) sinv_init, of cs off] assms(3)
  by (auto simp: safe_outcome_def sinv_def mem_ok_def sinit_def)

theorem SharedPtr_never_faults_witness:
  "srun word_atomics bump_alloc 8 [SMake 0 24 GFP_KERNEL 5, SCopyNew 1 0, SMoveAssign 0 1, SDestroy 1] sinit \<noteq> Fault"
  using SharedPtr_never_faults [OF atomic_ok_word_atomics kmalloc_fresh_bump,
      of "[SMake 0 24 GFP_KERNEL 5, SCopyNew 1 0, SMoveAssign 0 1, SDestroy 1]" 8] by simp

text \<open>
  C2.  The reference count is exact: at every point of such a program, \<open>use_count\<close> of a living handle
  returns the number of living handles that share its control block, up to the largest \<open>int\<close>.
\<close>

theorem SharedPtr_use_count_exact:
  assumes "atomic_ok A" "kmalloc_fresh alloc" "length cs < 2 ^ 31"
    and "srun A alloc off cs sinit = Ok \<sigma>" "x \<in> s_alive \<sigma>" "SharedPtr_bool (s_objs \<sigma> x)"
  shows "SharedPtr_use_count A (s_objs \<sigma> x) (s_mem \<sigma>) =
    Some (int (card {y \<in> s_alive \<sigma>. sp_cb (s_objs \<sigma> y) = sp_cb (s_objs \<sigma> x)}))"
proof -
  let ?c = "sp_cb (s_objs \<sigma> x)"
  from srun_safe [OF assms(1,2) sinv_init, of cs off] assms(3,4)
  have inv: "sinv off \<sigma>" and card: "card (s_alive \<sigma>) < 2 ^ 31"
    by (auto simp: sinit_def)
  then have fin: "finite (s_alive \<sigma>)" and c: "?c \<noteq> NULL"
    using assms(5,6) by (auto simp: sinv_def SharedPtr_bool_def)
  from refs_le [OF fin, of ?c] card have "refs \<sigma> ?c < 2 ^ 31" by linarith
  then have "sint (of_nat (refs \<sigma> ?c) :: c_int) = int (refs \<sigma> ?c)"
    by (simp add: sint_of_nat_c_int)
  with inv c refs_alive [OF fin assms(5)] assms(1)
  have "SharedPtr_use_count A (s_objs \<sigma> x) (s_mem \<sigma>) = Some (int (refs \<sigma> ?c))"
    by (simp add: SharedPtr_use_count_def sinv_def cb_rep_def atomic_ok_def)
  then show ?thesis by (simp add: refs_def tally_def)
qed

theorem SharedPtr_use_count_exact_witness:
  "\<exists>\<sigma>. srun word_atomics bump_alloc 8 [SMake 0 24 GFP_KERNEL 5, SCopyNew 1 0] sinit = Ok \<sigma> \<and>
     SharedPtr_use_count word_atomics (s_objs \<sigma> 1) (s_mem \<sigma>) =
       Some (int (card {y \<in> s_alive \<sigma>. sp_cb (s_objs \<sigma> y) = sp_cb (s_objs \<sigma> 1)}))"
proof -
  obtain \<sigma> where r: "srun word_atomics bump_alloc 8 [SMake 0 24 GFP_KERNEL 5, SCopyNew 1 0] sinit = Ok \<sigma>"
      and x: "1 \<in> s_alive \<sigma>" "SharedPtr_bool (s_objs \<sigma> 1)"
    by (auto simp: sinit_def make_shared_def bump_alloc_def with_store_def SharedPtr_copy_ctor_def
        cb_inc_def SharedPtr_ctor_def SharedPtr_bool_def Let_def)
  from SharedPtr_use_count_exact [OF atomic_ok_word_atomics kmalloc_fresh_bump _ r x] r show ?thesis
    by auto
qed

text \<open>
  C3.  In such a program (objects without \<open>SharedPtr\<close> members, no handle from a raw pointer) the
  shared object lives exactly as long as it has handles: every object was constructed
  once more than it was destroyed as long as a living handle points to it, and equally often
  otherwise; and the blocks still allocated are those of the living handles.  So nothing leaks
  and nothing is destroyed twice.
\<close>

theorem SharedPtr_lifetime:
  assumes "atomic_ok A" "kmalloc_fresh alloc" "length cs < 2 ^ 32"
    and "srun A alloc off cs sinit = Ok \<sigma>"
  shows "(\<forall>q. q \<noteq> NULL \<longrightarrow> count_list (sm_trace (s_mem \<sigma>)) (Mem (Construct q)) =
      count_list (sm_trace (s_mem \<sigma>)) (Mem (Destruct q)) +
        of_bool (\<exists>x\<in>s_alive \<sigma>. SharedPtr_get (s_objs \<sigma> x) = q)) \<and>
    heap_run (sm_trace (s_mem \<sigma>)) = Some {c. c \<noteq> NULL \<and> (\<exists>x\<in>s_alive \<sigma>. sp_cb (s_objs \<sigma> x) = c)}"
proof -
  from srun_safe [OF assms(1,2) sinv_init, of cs off] assms(3,4)
  have inv: "sinv off \<sigma>" by (auto simp: sinit_def)
  then have dom: "dom (cb_count (s_mem \<sigma>)) = {c. c \<noteq> NULL \<and> (\<exists>x\<in>s_alive \<sigma>. sp_cb (s_objs \<sigma> x) = c)}"
    by (auto simp: sinv_def cb_rep_def refs_def tally_eq_0 split: if_splits)
  have "q \<noteq> NULL \<Longrightarrow> (\<exists>c\<in>dom (cb_count (s_mem \<sigma>)). cb_object off c = q) \<longleftrightarrow>
      (\<exists>x\<in>s_alive \<sigma>. SharedPtr_get (s_objs \<sigma> x) = q)" for q
    using inv unfolding dom by (auto simp: sinv_def SharedPtr_get_def)
  with inv dom show ?thesis by (simp add: sinv_def mem_ok_def)
qed

theorem SharedPtr_lifetime_witness:
  "\<exists>\<sigma>. srun word_atomics bump_alloc 8 [SMake 0 24 GFP_KERNEL 5, SCopyNew 1 0, SDestroy 0, SDestroy 1] sinit = Ok \<sigma> \<and>
     heap_run (sm_trace (s_mem \<sigma>)) = Some {}"
proof -
  let ?cs = "[SMake 0 24 GFP_KERNEL 5, SCopyNew 1 0, SDestroy 0, SDestroy 1]"
  obtain \<sigma> where r: "srun word_atomics bump_alloc 8 ?cs sinit = Ok \<sigma>" and none: "s_alive \<sigma> = {}"
    by (auto simp: sinit_def make_shared_def bump_alloc_def with_store_def SharedPtr_copy_ctor_def
        SharedPtr_dtor_def SharedPtr_release_plain release_plain_def cb_inc_def SharedPtr_ctor_def word_atomics_def Let_def)
  from SharedPtr_lifetime [OF atomic_ok_word_atomics kmalloc_fresh_bump _ r] r none show ?thesis by auto
qed

section \<open>A handle inside the object\<close>

text \<open>
  The destructor of a \<open>T\<close> whose only \<open>SharedPtr\<close> member is the handle at \<open>y\<close>, as in
  \<^verbatim>\<open>struct Node { SharedPtr<Node> next; }\<close>: the member is destroyed with the object.
\<close>

definition member_dtor :: "atomic_kernel \<Rightarrow> oid \<Rightarrow> destructor" where
  "member_dtor A y p \<sigma> =
     map_option (\<lambda>\<sigma>'. \<sigma>'\<lparr>s_alive := s_alive \<sigma>' - {y}\<rparr>) (SharedPtr_dtor A plain_object y \<sigma>)"

lemma release_plain_eq_None:
  "release_plain A h m = None \<longleftrightarrow> sp_cb h \<noteq> NULL \<and> cb_count m (sp_cb h) = None"
  by (auto simp: release_plain_def Let_def split: option.splits prod.splits)

lemma release_plain_frame:
  "release_plain A h m = Some m' \<Longrightarrow> sp_cb h \<noteq> c \<Longrightarrow> cb_count m' c = cb_count m c"
  by (auto simp: release_plain_def Let_def split: option.splits prod.splits if_splits)

text \<open>What a reachable state says of the block of a living handle.\<close>

lemma counted:
  assumes "sinv off \<sigma>" "card (s_alive \<sigma>) < 2 ^ 32" "x \<in> s_alive \<sigma>" "sp_cb (s_objs \<sigma> x) \<noteq> NULL"
  obtains n where "refs \<sigma> (sp_cb (s_objs \<sigma> x)) = Suc n" "Suc n < 2 ^ 32"
    "cb_count (s_mem \<sigma>) (sp_cb (s_objs \<sigma> x)) = Some (of_nat (Suc n))"
proof -
  have fin: "finite (s_alive \<sigma>)" using assms(1) by (simp add: sinv_def)
  from refs_alive [OF fin assms(3)] obtain n where n: "refs \<sigma> (sp_cb (s_objs \<sigma> x)) = Suc n"
    by (metis gr0_conv_Suc)
  with refs_le [OF fin, of "sp_cb (s_objs \<sigma> x)"] assms that [of n] show thesis
    by (simp add: sinv_def cb_rep_def)
qed

lemma dec_and_test_of_nat:
  "atomic_ok A \<Longrightarrow> Suc n < 2 ^ 32 \<Longrightarrow> a_dec_and_test A (of_nat (Suc n)) = (n = 0, of_nat n)"
  using of_nat_c_int_0 [of n] by (simp add: atomic_ok_def)

lemma release_not_last:
  assumes "atomic_ok A" "sinv off \<sigma>" "card (s_alive \<sigma>) < 2 ^ 32" "x \<in> s_alive \<sigma>"
    and "sp_cb (s_objs \<sigma> x) \<noteq> NULL" "refs \<sigma> (sp_cb (s_objs \<sigma> x)) \<noteq> 1"
  shows "SharedPtr_release A D x \<sigma> = SharedPtr_release A plain_object x \<sigma>"
  by (rule counted [OF assms(2-5)])
    (use assms dec_and_test_of_nat [OF assms(1)] in \<open>simp add: SharedPtr_release_def del: of_nat_Suc\<close>)

lemma release_cong_members:
  assumes "SharedPtr_release A D x \<sigma> = SharedPtr_release A E x \<sigma>"
  shows "SharedPtr_dtor A D x \<sigma> = SharedPtr_dtor A E x \<sigma>"
    "SharedPtr_copy_assign A D x y \<sigma> = SharedPtr_copy_assign A E x y \<sigma>"
    "SharedPtr_move_assign A D x y \<sigma> = SharedPtr_move_assign A E x y \<sigma>"
  by (simp_all add: SharedPtr_dtor_def SharedPtr_copy_assign_def SharedPtr_move_assign_def assms)

lemma safe_outcome_of: "safe_outcome off k (outcome_of r) \<Longrightarrow> r \<noteq> None"
  by (cases r) (auto simp: safe_outcome_def)

lemma release_last_member:
  assumes "atomic_ok A" "sinv off \<sigma>" "card (s_alive \<sigma>) < 2 ^ 32" "x \<in> s_alive \<sigma>" "y \<in> s_alive \<sigma>" "x \<noteq> y"
    and "sp_cb (s_objs \<sigma> x) \<noteq> NULL" "refs \<sigma> (sp_cb (s_objs \<sigma> x)) = 1"
  shows "\<exists>\<sigma>'. SharedPtr_release A (member_dtor A y) x \<sigma> = Some \<sigma>' \<and> s_alive \<sigma>' = s_alive \<sigma> - {y}"
proof -
  let ?c = "sp_cb (s_objs \<sigma> x)" and ?h = "s_objs \<sigma> y"
  let ?m = "(s_mem \<sigma>)\<lparr>cb_count := (cb_count (s_mem \<sigma>))(?c \<mapsto> 0),
    sm_trace := sm_trace (s_mem \<sigma>) @ [Mem (Destruct (sp_ptr (s_objs \<sigma> x)))]\<rparr>"
  have fin: "finite (s_alive \<sigma>)" using assms(2) by (simp add: sinv_def)
  have other: "sp_cb ?h \<noteq> ?c"
  proof
    assume "sp_cb ?h = ?c"
    then have "{x, y} \<subseteq> {z \<in> s_alive \<sigma>. sp_cb (s_objs \<sigma> z) = ?c}" using assms(4,5) by auto
    from card_mono [OF _ this] fin assms(6,8) show False by (simp add: refs_def tally_def)
  qed
  have "release_plain A ?h ?m \<noteq> None"
    using counted [OF assms(2,3,5)] by (auto simp: release_plain_eq_None)
  then obtain m1 where m1: "release_plain A ?h ?m = Some m1" by blast
  from release_plain_frame [OF m1 other] have "cb_count m1 ?c = Some 0" by simp
  with m1 assms(4-6) have D: "member_dtor A y (sp_ptr (s_objs \<sigma> x)) (\<sigma>\<lparr>s_mem := ?m\<rparr>) =
      Some (\<sigma>\<lparr>s_mem := m1, s_alive := s_alive \<sigma> - {y}\<rparr>)" "cb_free ?c m1 \<noteq> None"
    by (simp_all add: member_dtor_def SharedPtr_dtor_def SharedPtr_release_plain cb_free_def)
  from assms(8) dec_and_test_of_nat [OF assms(1), of 0] show ?thesis
    by (rule_tac counted [OF assms(2-4,7)])
      (use assms(4,6,7) D in \<open>auto simp: SharedPtr_release_def\<close>)
qed

text \<open>
  C29.  Assignment releases before it reads its argument (the order of \<^verbatim>\<open>SharedPtr.hpp:63\<close> and
  \<^verbatim>\<open>:84\<close>).  Let the object \<open>x\<close> points to have the \<open>SharedPtr\<close> member \<open>y\<close>, in any state a program
  reaches.  Destroying \<open>x\<close> is fine.  Both assignments \<^verbatim>\<open>x = y\<close> (\<^verbatim>\<open>p = p->next\<close>) use the member after
  its object was destroyed with it, exactly when \<open>x\<close> is the only handle on the object.
\<close>

theorem SharedPtr_assign_from_member:
  assumes "atomic_ok A" "kmalloc_fresh alloc" "length cs < 2 ^ 31"
    and "srun A alloc off cs sinit = Ok \<sigma>" "x \<in> s_alive \<sigma>" "y \<in> s_alive \<sigma>" "x \<noteq> y"
    and "SharedPtr_bool (s_objs \<sigma> x)"
    and "only \<longleftrightarrow> card {z \<in> s_alive \<sigma>. sp_cb (s_objs \<sigma> z) = sp_cb (s_objs \<sigma> x)} = 1"
  shows "SharedPtr_dtor A (member_dtor A y) x \<sigma> \<noteq> None \<and>
    (SharedPtr_copy_assign A (member_dtor A y) x y \<sigma> = None \<longleftrightarrow> only) \<and>
    (SharedPtr_move_assign A (member_dtor A y) x y \<sigma> = None \<longleftrightarrow> only)"
proof -
  let ?D = "member_dtor A y" and ?c = "sp_cb (s_objs \<sigma> x)"
  from srun_safe [OF assms(1,2) sinv_init, of cs off] assms(3,4)
  have inv: "sinv off \<sigma>" and card: "card (s_alive \<sigma>) < 2 ^ 32" by (auto simp: sinit_def)
  with assms(5,8) have c: "?c \<noteq> NULL" by (auto simp: sinv_def SharedPtr_bool_def)
  have only: "only \<longleftrightarrow> refs \<sigma> ?c = 1" using assms(9) by (simp add: refs_def tally_def)
  show ?thesis
  proof (cases only)
    case True
    with only have one: "refs \<sigma> ?c = 1" by simp
    from release_last_member [OF assms(1) inv card assms(5,6,7) c one] obtain \<sigma>' where
      "SharedPtr_release A ?D x \<sigma> = Some \<sigma>'" "s_alive \<sigma>' = s_alive \<sigma> - {y}" by blast
    with assms(7) True show ?thesis
      by (simp add: SharedPtr_dtor_def SharedPtr_copy_assign_def SharedPtr_move_assign_def)
  next
    case False
    from release_not_last [OF assms(1) inv card assms(5) c] only False
    have same: "SharedPtr_release A ?D x \<sigma> = SharedPtr_release A plain_object x \<sigma>" by auto
    note safe = sstep_safe [OF assms(1,2) inv card]
    from safe [of "SDestroy x"] assms(5) have d: "SharedPtr_dtor A plain_object x \<sigma> \<noteq> None"
      by (auto dest: safe_outcome_of)
    from safe [of "SCopyAssign x y"] assms(5,6) have ca: "SharedPtr_copy_assign A plain_object x y \<sigma> \<noteq> None"
      by (auto dest: safe_outcome_of)
    from safe [of "SMoveAssign x y"] assms(5,6) have ma: "SharedPtr_move_assign A plain_object x y \<sigma> \<noteq> None"
      by (auto dest: safe_outcome_of)
    show ?thesis unfolding release_cong_members [OF same] using d ca ma False by blast
  qed
qed

theorem SharedPtr_assign_from_member_witness:
  "\<exists>\<sigma>. srun word_atomics bump_alloc 8 [SMake 0 24 GFP_KERNEL 5, SMake 1 24 GFP_KERNEL 6] sinit = Ok \<sigma> \<and>
     SharedPtr_copy_assign word_atomics (member_dtor word_atomics 1) 0 1 \<sigma> = None"
proof -
  let ?cs = "[SMake 0 24 GFP_KERNEL 5, SMake 1 24 GFP_KERNEL 6]"
  obtain \<sigma> where r: "srun word_atomics bump_alloc 8 ?cs sinit = Ok \<sigma>"
      and x: "0 \<in> s_alive \<sigma>" "1 \<in> s_alive \<sigma>" "SharedPtr_bool (s_objs \<sigma> 0)"
      and only: "{z \<in> s_alive \<sigma>. sp_cb (s_objs \<sigma> z) = sp_cb (s_objs \<sigma> 0)} = {0}"
    by (auto simp: sinit_def make_shared_def bump_alloc_def SharedPtr_ctor_def SharedPtr_bool_def Let_def)
  from SharedPtr_assign_from_member [OF atomic_ok_word_atomics kmalloc_fresh_bump _ r x(1,2) _ x(3), of True] r
  show ?thesis by (auto simp: only)
qed

end
