(* ===== verification/Kpp_Threads.thy ===== *)
theory Kpp_Threads
  imports Kpp_SharedPtr
begin

text \<open>
  \<^verbatim>\<open>memory/SharedPtr.hpp\<close> under concurrency: threads that each own a \<open>SharedPtr\<close> on the same object.

  \<open>release\<close> is not atomic.  It decrements the counter, then runs the destructor of the object, then
  frees the block; \<open>release_dec\<close>, \<open>release_destruct\<close> and \<open>release_free\<close> are these three parts, and
  \<open>release_parts\<close> says that in a row they are \<open>SharedPtr_release\<close> of an object without handles (\<open>release_plain\<close>).  A schedule is a list of events of
  the threads, in any order; an event that its thread cannot do at that point is \<open>Ill_formed\<close>, and an
  access to memory that is gone is \<open>Fault\<close>.
\<close>

section \<open>The parts of release\<close>

definition release_dec :: "atomic_kernel \<Rightarrow> SharedPtr \<Rightarrow> sp_mem \<Rightarrow> (bool \<times> sp_mem) option" where
  "release_dec A self m =
     (if sp_cb self = NULL then Some (False, m)
      else case cb_count m (sp_cb self) of
        None \<Rightarrow> None
      | Some c \<Rightarrow>
          (let (zero, c') = a_dec_and_test A c
           in Some (zero, m\<lparr>cb_count := (cb_count m)(sp_cb self \<mapsto> c')\<rparr>)))"

definition release_destruct :: "SharedPtr \<Rightarrow> sp_mem \<Rightarrow> sp_mem option" where
  "release_destruct self m =
     (if cb_count m (sp_cb self) = None then None
      else Some (m\<lparr>sm_trace := sm_trace m @ [Mem (Destruct (sp_ptr self))]\<rparr>))"

definition release_free :: "SharedPtr \<Rightarrow> sp_mem \<Rightarrow> sp_mem option" where
  "release_free self m =
     (if cb_count m (sp_cb self) = None then None
      else Some (m\<lparr>cb_count := (cb_count m)(sp_cb self := None),
                   sm_trace := sm_trace m @ [Mem (Kfree (sp_cb self))]\<rparr>))"

lemma release_parts:
  "release_plain A self m =
     Option.bind (release_dec A self m) (\<lambda>(zero, m1).
       if zero then Option.bind (release_destruct self m1) (release_free self) else Some m1)"
  by (auto simp: release_plain_def release_dec_def release_destruct_def release_free_def Let_def
      split: option.splits prod.splits)

section \<open>Schedules\<close>

text \<open>
  The handle of thread \<open>t\<close> is the object at address \<open>t\<close>.  \<open>CCopy t u\<close>: thread \<open>t\<close> starts thread \<open>u\<close> with
  a copy of its handle.  \<open>CUse t\<close>: thread \<open>t\<close> accesses the object.  The other three are the parts of
  the destructor of the handle of \<open>t\<close>.
\<close>

datatype cphase = Absent | Holding | Destroying | Freeing | Gone

datatype cevent = CCopy oid oid | CUse oid | CDec oid | CDestruct oid | CFree oid

record cstate =
  cn_objs :: "oid \<Rightarrow> SharedPtr"
  cn_phase :: "oid \<Rightarrow> cphase"
  cn_mem :: sp_mem

fun cstep :: "atomic_kernel \<Rightarrow> cevent \<Rightarrow> cstate \<Rightarrow> cstate outcome" where
  "cstep A (CCopy t u) \<sigma> =
     (if cn_phase \<sigma> t \<noteq> Holding \<or> cn_phase \<sigma> u \<noteq> Absent then Ill_formed
      else outcome_of (map_option
        (\<lambda>(s, m). \<sigma>\<lparr>cn_objs := s, cn_phase := (cn_phase \<sigma>)(u := Holding), cn_mem := m\<rparr>)
        (SharedPtr_copy_ctor A u t (cn_objs \<sigma>) (cn_mem \<sigma>))))"
| "cstep A (CUse t) \<sigma> =
     (if cn_phase \<sigma> t \<noteq> Holding then Ill_formed
      else outcome_of (map_option (\<lambda>_. \<sigma>) (SharedPtr_deref (cn_objs \<sigma> t) (cn_mem \<sigma>))))"
| "cstep A (CDec t) \<sigma> =
     (if cn_phase \<sigma> t \<noteq> Holding then Ill_formed
      else outcome_of (map_option
        (\<lambda>(zero, m). \<sigma>\<lparr>cn_phase := (cn_phase \<sigma>)(t := if zero then Destroying else Gone), cn_mem := m\<rparr>)
        (release_dec A (cn_objs \<sigma> t) (cn_mem \<sigma>))))"
| "cstep A (CDestruct t) \<sigma> =
     (if cn_phase \<sigma> t \<noteq> Destroying then Ill_formed
      else outcome_of (map_option
        (\<lambda>m. \<sigma>\<lparr>cn_phase := (cn_phase \<sigma>)(t := Freeing), cn_mem := m\<rparr>)
        (release_destruct (cn_objs \<sigma> t) (cn_mem \<sigma>))))"
| "cstep A (CFree t) \<sigma> =
     (if cn_phase \<sigma> t \<noteq> Freeing then Ill_formed
      else outcome_of (map_option
        (\<lambda>m. \<sigma>\<lparr>cn_phase := (cn_phase \<sigma>)(t := Gone), cn_mem := m\<rparr>)
        (release_free (cn_objs \<sigma> t) (cn_mem \<sigma>))))"

fun crun :: "atomic_kernel \<Rightarrow> cevent list \<Rightarrow> cstate \<Rightarrow> cstate outcome" where
  "crun A [] \<sigma> = Ok \<sigma>"
| "crun A (e # es) \<sigma> =
     (case cstep A e \<sigma> of Ok \<sigma>' \<Rightarrow> crun A es \<sigma>' | Ill_formed \<Rightarrow> Ill_formed | Fault \<Rightarrow> Fault)"

text \<open>The first thread has made the object.\<close>

definition cstart :: "SharedPtr \<Rightarrow> sp_mem \<Rightarrow> cstate" where
  "cstart h m = \<lparr>cn_objs = (\<lambda>_. SharedPtr_default)(0 := h), cn_phase = (\<lambda>_. Absent)(0 := Holding), cn_mem = m\<rparr>"

definition no_blocks :: sp_mem where
  "no_blocks = \<lparr>cb_count = Map.empty, sm_trace = []\<rparr>"

section \<open>The invariant\<close>

definition sharers :: "cstate \<Rightarrow> oid set" where
  "sharers \<sigma> = {t. cn_phase \<sigma> t = Holding}"

text \<open>
  Every handle in use is a copy of \<open>h\<close>.  The object goes through four stages: it has \<open>n > 0\<close> holders
  and the counter is \<open>n\<close>; one thread has taken the last reference; it has destroyed the object; it
  has freed the block.
\<close>

inductive stage :: "SharedPtr \<Rightarrow> trace \<Rightarrow> cstate \<Rightarrow> bool" for h tr where
  shared: "finite (sharers \<sigma>) \<Longrightarrow> sharers \<sigma> \<noteq> {} \<Longrightarrow> \<forall>t. cn_phase \<sigma> t \<in> {Absent, Holding, Gone} \<Longrightarrow>
    cb_count (cn_mem \<sigma>) (sp_cb h) = Some (of_nat (card (sharers \<sigma>))) \<Longrightarrow> sm_trace (cn_mem \<sigma>) = tr \<Longrightarrow> stage h tr \<sigma>"
| last: "cn_phase \<sigma> t = Destroying \<Longrightarrow> \<forall>u. u \<noteq> t \<longrightarrow> cn_phase \<sigma> u \<in> {Absent, Gone} \<Longrightarrow>
    cb_count (cn_mem \<sigma>) (sp_cb h) \<noteq> None \<Longrightarrow> sm_trace (cn_mem \<sigma>) = tr \<Longrightarrow> stage h tr \<sigma>"
| destroyed: "cn_phase \<sigma> t = Freeing \<Longrightarrow> \<forall>u. u \<noteq> t \<longrightarrow> cn_phase \<sigma> u \<in> {Absent, Gone} \<Longrightarrow>
    cb_count (cn_mem \<sigma>) (sp_cb h) \<noteq> None \<Longrightarrow> sm_trace (cn_mem \<sigma>) = tr @ [Mem (Destruct (sp_ptr h))] \<Longrightarrow> stage h tr \<sigma>"
| freed: "\<forall>t. cn_phase \<sigma> t \<in> {Absent, Gone} \<Longrightarrow> cb_count (cn_mem \<sigma>) (sp_cb h) = None \<Longrightarrow>
    sm_trace (cn_mem \<sigma>) = tr @ [Mem (Destruct (sp_ptr h)), Mem (Kfree (sp_cb h))] \<Longrightarrow> stage h tr \<sigma>"

definition copies_of :: "SharedPtr \<Rightarrow> cstate \<Rightarrow> bool" where
  "copies_of h \<sigma> \<longleftrightarrow> (\<forall>t. cn_phase \<sigma> t \<in> {Holding, Destroying, Freeing} \<longrightarrow> cn_objs \<sigma> t = h)"

definition conc_inv :: "SharedPtr \<Rightarrow> trace \<Rightarrow> cstate \<Rightarrow> bool" where
  "conc_inv h tr \<sigma> \<longleftrightarrow> copies_of h \<sigma> \<and> stage h tr \<sigma>"

text \<open>The trace \<open>tr\<close> of the making of the object, in which it is alive.\<close>

definition made :: "SharedPtr \<Rightarrow> trace \<Rightarrow> bool" where
  "made h tr \<longleftrightarrow> sp_cb h \<noteq> NULL \<and>
     count_list tr (Mem (Destruct (sp_ptr h))) < count_list tr (Mem (Construct (sp_ptr h)))"

lemma stage_holding:
  "stage h tr \<sigma> \<Longrightarrow> cn_phase \<sigma> t = Holding \<Longrightarrow>
     finite (sharers \<sigma>) \<and> (\<forall>t. cn_phase \<sigma> t \<in> {Absent, Holding, Gone}) \<and>
     cb_count (cn_mem \<sigma>) (sp_cb h) = Some (of_nat (card (sharers \<sigma>))) \<and> sm_trace (cn_mem \<sigma>) = tr"
  by (erule stage.cases) (auto dest: spec [of _ t])

lemma stage_last:
  "stage h tr \<sigma> \<Longrightarrow> cn_phase \<sigma> t \<in> {Destroying, Freeing} \<Longrightarrow>
     (\<forall>u. u \<noteq> t \<longrightarrow> cn_phase \<sigma> u \<in> {Absent, Gone}) \<and> cb_count (cn_mem \<sigma>) (sp_cb h) \<noteq> None \<and>
     sm_trace (cn_mem \<sigma>) = tr @ (if cn_phase \<sigma> t = Freeing then [Mem (Destruct (sp_ptr h))] else [])"
  by (erule stage.cases) (auto dest: spec [of _ t] split: if_splits, (metis cphase.distinct)+)

lemma stage_over:
  "stage h tr \<sigma> \<Longrightarrow> \<forall>t. cn_phase \<sigma> t \<in> {Absent, Gone} \<Longrightarrow>
     sm_trace (cn_mem \<sigma>) = tr @ [Mem (Destruct (sp_ptr h)), Mem (Kfree (sp_cb h))]"
proof (erule stage.cases, goal_cases)
  case (1 \<sigma>')
  then obtain t where "t \<in> sharers \<sigma>" by blast
  with 1(1) show ?case by (auto simp: sharers_def dest: spec [of _ t])
qed (auto, (metis cphase.distinct)+)

lemma holding_shared:
  assumes "conc_inv h tr \<sigma>" "cn_phase \<sigma> t = Holding"
  shows "cn_objs \<sigma> t = h" "finite (sharers \<sigma>)" "t \<in> sharers \<sigma>"
    "\<forall>t. cn_phase \<sigma> t \<in> {Absent, Holding, Gone}"
    "cb_count (cn_mem \<sigma>) (sp_cb h) = Some (of_nat (card (sharers \<sigma>)))" "sm_trace (cn_mem \<sigma>) = tr"
  using assms stage_holding [of h tr \<sigma> t] by (auto simp: conc_inv_def copies_of_def sharers_def)

section \<open>Every event keeps the invariant and never faults\<close>

definition conc_safe :: "SharedPtr \<Rightarrow> trace \<Rightarrow> nat \<Rightarrow> cstate outcome \<Rightarrow> bool" where
  "conc_safe h tr k r = (case r of
     Ok \<sigma> \<Rightarrow> conc_inv h tr \<sigma> \<and> card (sharers \<sigma>) \<le> k | Ill_formed \<Rightarrow> True | Fault \<Rightarrow> False)"

lemma conc_safe_simps [simp]:
  "conc_safe h tr k (Ok \<sigma>) \<longleftrightarrow> conc_inv h tr \<sigma> \<and> card (sharers \<sigma>) \<le> k" "conc_safe h tr k Ill_formed"
  by (simp_all add: conc_safe_def)

lemma conc_CCopy:
  assumes "atomic_ok A" "made h tr" "conc_inv h tr \<sigma>"
  shows "conc_safe h tr (Suc (card (sharers \<sigma>))) (cstep A (CCopy t u) \<sigma>)"
proof (cases "cn_phase \<sigma> t = Holding \<and> cn_phase \<sigma> u = Absent")
  case True
  note H = holding_shared [OF assms(3) conjunct1 [OF True]]
  let ?m = "(cn_mem \<sigma>)\<lparr>cb_count := (cb_count (cn_mem \<sigma>))(sp_cb h \<mapsto> of_nat (card (sharers \<sigma>)) + 1)\<rparr>"
  let ?\<sigma> = "\<sigma>\<lparr>cn_objs := (cn_objs \<sigma>)(u := \<lparr>sp_ptr = sp_ptr h, sp_cb = sp_cb h\<rparr>), cn_phase := (cn_phase \<sigma>)(u := Holding), cn_mem := ?m\<rparr>"
  have step: "cstep A (CCopy t u) \<sigma> = Ok ?\<sigma>"
    using True H(1,5) assms(1,2)
    by (simp add: SharedPtr_copy_ctor_def cb_inc_def made_def atomic_ok_def Let_def)
  have sharers': "sharers ?\<sigma> = insert u (sharers \<sigma>)" by (auto simp: sharers_def)
  have "u \<notin> sharers \<sigma>" using True by (simp add: sharers_def)
  with H(2) sharers' have card': "card (sharers ?\<sigma>) = Suc (card (sharers \<sigma>))" by simp
  have "stage h tr ?\<sigma>"
    using H(2,4,6) sharers' card' by (intro stage.shared) (auto simp: algebra_simps)
  moreover have "copies_of h ?\<sigma>" using assms(3) by (auto simp: conc_inv_def copies_of_def)
  ultimately show ?thesis unfolding step by (simp add: conc_inv_def card')
qed auto

lemma conc_CUse:
  assumes "made h tr" "conc_inv h tr \<sigma>"
  shows "conc_safe h tr (Suc (card (sharers \<sigma>))) (cstep A (CUse t) \<sigma>)"
proof (cases "cn_phase \<sigma> t = Holding")
  case True
  from holding_shared [OF assms(2) True] assms True show ?thesis
    by (simp add: SharedPtr_deref_def made_def)
qed simp

lemma conc_CDec:
  assumes "atomic_ok A" "made h tr" "conc_inv h tr \<sigma>" "card (sharers \<sigma>) < 2 ^ 32"
  shows "conc_safe h tr (Suc (card (sharers \<sigma>))) (cstep A (CDec t) \<sigma>)"
proof (cases "cn_phase \<sigma> t = Holding")
  case True
  note H = holding_shared [OF assms(3) True]
  from H(2,3) obtain n where n: "card (sharers \<sigma>) = Suc n" by (metis card_Suc_Diff1)
  let ?m = "(cn_mem \<sigma>)\<lparr>cb_count := (cb_count (cn_mem \<sigma>))(sp_cb h \<mapsto> of_nat n)\<rparr>"
  let ?\<sigma> = "\<sigma>\<lparr>cn_phase := (cn_phase \<sigma>)(t := if n = 0 then Destroying else Gone), cn_mem := ?m\<rparr>"
  have "a_dec_and_test A (of_nat (Suc n)) = (n = 0, of_nat n)"
    using assms(1,4) n of_nat_c_int_0 [of n] by (simp add: atomic_ok_def)
  then have step: "cstep A (CDec t) \<sigma> = Ok ?\<sigma>"
    using True H(1,5) assms(2) n by (simp add: release_dec_def made_def)
  have sharers': "sharers ?\<sigma> = sharers \<sigma> - {t}" by (auto simp: sharers_def)
  then have card': "card (sharers ?\<sigma>) = n" using H(2,3) n by simp
  have copies: "copies_of h ?\<sigma>" using assms(3) H(1) by (auto simp: conc_inv_def copies_of_def)
  have "stage h tr ?\<sigma>"
  proof (cases "n = 0")
    case True
    with n H(3) have "sharers \<sigma> = {t}" by (metis card_1_singletonE One_nat_def singletonD)
    with True H(4,6) show ?thesis by (intro stage.last [of _ t]) (auto simp: sharers_def)
  next
    case False
    with card' have "sharers ?\<sigma> \<noteq> {}" by (metis card.empty)
    with False H(2,4,6) card' sharers' show ?thesis by (intro stage.shared) auto
  qed
  with step copies card' n show ?thesis by (simp add: conc_inv_def)
qed simp

lemma conc_CDestruct:
  assumes "conc_inv h tr \<sigma>"
  shows "conc_safe h tr (Suc (card (sharers \<sigma>))) (cstep A (CDestruct t) \<sigma>)"
proof (cases "cn_phase \<sigma> t = Destroying")
  case True
  let ?m = "(cn_mem \<sigma>)\<lparr>sm_trace := tr @ [Mem (Destruct (sp_ptr h))]\<rparr>"
  let ?\<sigma> = "\<sigma>\<lparr>cn_phase := (cn_phase \<sigma>)(t := Freeing), cn_mem := ?m\<rparr>"
  from assms True have h: "cn_objs \<sigma> t = h" "stage h tr \<sigma>" by (auto simp: conc_inv_def copies_of_def)
  from True have "cn_phase \<sigma> t \<in> {Destroying, Freeing}" by simp
  note N = stage_last [OF h(2) this]
  have "cstep A (CDestruct t) \<sigma> = Ok ?\<sigma>" using True h(1) N by (simp add: release_destruct_def)
  moreover have "stage h tr ?\<sigma>" using N by (intro stage.destroyed [of _ t]) auto
  moreover have "sharers ?\<sigma> = {}" using N(1) by (force simp: sharers_def)
  ultimately show ?thesis using assms True by (auto simp: conc_inv_def copies_of_def)
qed simp

lemma conc_CFree:
  assumes "conc_inv h tr \<sigma>"
  shows "conc_safe h tr (Suc (card (sharers \<sigma>))) (cstep A (CFree t) \<sigma>)"
proof (cases "cn_phase \<sigma> t = Freeing")
  case True
  let ?m = "(cn_mem \<sigma>)\<lparr>cb_count := (cb_count (cn_mem \<sigma>))(sp_cb h := None),
    sm_trace := tr @ [Mem (Destruct (sp_ptr h)), Mem (Kfree (sp_cb h))]\<rparr>"
  let ?\<sigma> = "\<sigma>\<lparr>cn_phase := (cn_phase \<sigma>)(t := Gone), cn_mem := ?m\<rparr>"
  from assms True have h: "cn_objs \<sigma> t = h" "stage h tr \<sigma>" by (auto simp: conc_inv_def copies_of_def)
  from True have "cn_phase \<sigma> t \<in> {Destroying, Freeing}" by simp
  note N = stage_last [OF h(2) this]
  have "cstep A (CFree t) \<sigma> = Ok ?\<sigma>" using True h(1) N by (simp add: release_free_def)
  moreover have "stage h tr ?\<sigma>" using N by (intro stage.freed) auto
  moreover have "sharers ?\<sigma> = {}" using N(1) by (force simp: sharers_def)
  ultimately show ?thesis using assms by (auto simp: conc_inv_def copies_of_def)
qed simp

lemmas conc_events = conc_CCopy conc_CUse conc_CDec conc_CDestruct conc_CFree

lemma cstep_safe:
  "atomic_ok A \<Longrightarrow> made h tr \<Longrightarrow> conc_inv h tr \<sigma> \<Longrightarrow> card (sharers \<sigma>) < 2 ^ 32 \<Longrightarrow>
     conc_safe h tr (Suc (card (sharers \<sigma>))) (cstep A e \<sigma>)"
  by (cases e) (simp_all only: conc_events)

lemma crun_safe:
  assumes "atomic_ok A" "made h tr" "conc_inv h tr \<sigma>" "card (sharers \<sigma>) + length es < 2 ^ 32"
  shows "conc_safe h tr (card (sharers \<sigma>) + length es) (crun A es \<sigma>)"
  using assms(3,4)
proof (induction es arbitrary: \<sigma>)
  case (Cons e es)
  from Cons.prems have step: "conc_safe h tr (Suc (card (sharers \<sigma>))) (cstep A e \<sigma>)"
    by (intro cstep_safe assms(1,2)) auto
  show ?case
  proof (cases "cstep A e \<sigma>")
    case (Ok \<sigma>')
    with step have "conc_inv h tr \<sigma>'" "card (sharers \<sigma>') \<le> Suc (card (sharers \<sigma>))" by auto
    with Cons.prems Cons.IH [of \<sigma>'] Ok show ?thesis
      by (auto simp: conc_safe_def split: outcome.splits)
  qed (use step in \<open>simp_all add: conc_safe_def\<close>)
qed simp

lemma conc_inv_start:
  assumes "atomic_ok A" "make_shared A alloc off junk n f no_blocks = (h, m)" "SharedPtr_bool h"
  shows "made h (sm_trace m) \<and> conc_inv h (sm_trace m) (cstart h m) \<and> sharers (cstart h m) = {0}"
proof -
  have hold: "sharers (cstart h m) = {0}" by (auto simp: sharers_def cstart_def)
  from assms have "made h (sm_trace m)" "cb_count m (sp_cb h) = Some 1"
    by (auto simp: make_shared_def no_blocks_def made_def SharedPtr_bool_def SharedPtr_default_def SharedPtr_ctor_def
        atomic_ok_def Let_def split: if_splits)
  moreover have "stage h (sm_trace m) (cstart h m)"
    using calculation(2) hold by (intro stage.shared) (simp_all add: cstart_def)
  ultimately show ?thesis using hold by (simp add: conc_inv_def copies_of_def cstart_def)
qed

section \<open>Properties\<close>

text \<open>
  C4.  \<open>SharedPtr\<close> is thread-safe: threads that share an object made by \<open>make_shared\<close>, hand out copies,
  use the object and drop their handles, in any interleaving of the parts of these operations, never
  touch the counter, the object or the block after they are gone.  While a thread holds a handle the
  object has been neither destroyed nor freed; once every handle is dropped and \<open>release\<close> has
  finished, it has been destroyed and freed exactly once, in this order.
\<close>

theorem SharedPtr_thread_safe:
  assumes "atomic_ok A" "make_shared A alloc off junk n f no_blocks = (h, m)" "SharedPtr_bool h"
    and "Suc (length es) < 2 ^ 32"
  shows "crun A es (cstart h m) \<noteq> Fault \<and>
    (\<forall>\<sigma>. crun A es (cstart h m) = Ok \<sigma> \<longrightarrow>
       ((\<exists>t. cn_phase \<sigma> t = Holding) \<longrightarrow> sm_trace (cn_mem \<sigma>) = sm_trace m) \<and>
       ((\<forall>t. cn_phase \<sigma> t \<in> {Absent, Gone}) \<longrightarrow>
          sm_trace (cn_mem \<sigma>) = sm_trace m @ [Mem (Destruct (SharedPtr_get h)), Mem (Kfree (sp_cb h))]))"
proof -
  from conc_inv_start [OF assms(1-3)] assms(4)
  have safe: "conc_safe h (sm_trace m) (Suc (length es)) (crun A es (cstart h m))"
    using crun_safe [OF assms(1), of h "sm_trace m" "cstart h m" es] by simp
  show ?thesis
  proof (intro conjI allI impI)
    show "crun A es (cstart h m) \<noteq> Fault" using safe by (auto simp: conc_safe_def)
  next
    fix \<sigma> assume "crun A es (cstart h m) = Ok \<sigma>"
    with safe have inv: "conc_inv h (sm_trace m) \<sigma>" by simp
    show "sm_trace (cn_mem \<sigma>) = sm_trace m" if "\<exists>t. cn_phase \<sigma> t = Holding"
      using that holding_shared(6) [OF inv] by blast
    show "sm_trace (cn_mem \<sigma>) = sm_trace m @ [Mem (Destruct (SharedPtr_get h)), Mem (Kfree (sp_cb h))]"
      if "\<forall>t. cn_phase \<sigma> t \<in> {Absent, Gone}"
      using that stage_over [of h "sm_trace m" \<sigma>] inv by (simp add: conc_inv_def SharedPtr_get_def)
  qed
qed

theorem SharedPtr_thread_safe_witness:
  "\<exists>h m \<sigma>. make_shared word_atomics bump_alloc 8 5 24 GFP_KERNEL no_blocks = (h, m) \<and>
     crun word_atomics [CCopy 0 1, CDec 0, CUse 1, CDec 1, CDestruct 1, CFree 1] (cstart h m) = Ok \<sigma> \<and>
     sm_trace (cn_mem \<sigma>) = sm_trace m @ [Mem (Destruct (SharedPtr_get h)), Mem (Kfree (sp_cb h))]"
proof -
  let ?es = "[CCopy 0 1, CDec 0, CUse 1, CDec 1, CDestruct 1, CFree 1]"
  note defs = make_shared_def no_blocks_def bump_alloc_def SharedPtr_ctor_def SharedPtr_bool_def cstart_def
    SharedPtr_copy_ctor_def cb_inc_def word_atomics_def release_dec_def release_destruct_def release_free_def
    SharedPtr_deref_def Let_def
  obtain h m where mk: "make_shared word_atomics bump_alloc 8 5 24 GFP_KERNEL no_blocks = (h, m)"
    by (cases "make_shared word_atomics bump_alloc 8 5 24 GFP_KERNEL no_blocks")
  then have h: "SharedPtr_bool h" by (auto simp: defs)
  obtain \<sigma> where r: "crun word_atomics ?es (cstart h m) = Ok \<sigma>" "\<forall>t. cn_phase \<sigma> t \<in> {Absent, Gone}"
    using mk by (auto simp: defs)
  from SharedPtr_thread_safe [OF atomic_ok_word_atomics mk h, of ?es] r mk show ?thesis by auto
qed

end
