(* ===== verification/Kpp_List.thy ===== *)
theory Kpp_List
  imports Kpp_Prelude
begin

text \<open>
  \<^verbatim>\<open>util/List.hpp\<close>: the wrapper of the kernel's intrusive circular list.

  The links of all \<open>list_head\<close> structures are two functions from addresses to addresses.  The
  functions of \<^verbatim>\<open>linux/list.h\<close> are a parameter \<open>K\<close>; the locale \<open>kernel_list\<close> states what their
  documentation promises, in terms of \<open>ring l h xs\<close>: from the head \<open>h\<close> the entries \<open>xs\<close> are
  reached in order along \<open>next\<close> and in reverse along \<open>prev\<close>, and both walks end at \<open>h\<close>.
  \<open>pointer_lists\<close>, the usual pointer manipulation, is an instance.
\<close>

section \<open>Links and the kernel's list functions\<close>

record links =
  l_next :: "oid \<Rightarrow> oid"
  l_prev :: "oid \<Rightarrow> oid"

record list_kernel =
  k_init_list_head :: "oid \<Rightarrow> links \<Rightarrow> links"
  k_list_empty :: "oid \<Rightarrow> links \<Rightarrow> bool"
  k_list_add :: "oid \<Rightarrow> oid \<Rightarrow> links \<Rightarrow> links"
  k_list_add_tail :: "oid \<Rightarrow> oid \<Rightarrow> links \<Rightarrow> links"
  k_list_del :: "oid \<Rightarrow> links \<Rightarrow> links"

section \<open>The class\<close>

text \<open>A \<open>List\<close> is its \<open>head_\<close>, a \<open>list_head\<close> at an address; an iterator is the address it is at.\<close>

definition List_ctor :: "list_kernel \<Rightarrow> oid \<Rightarrow> links \<Rightarrow> links" where
  "List_ctor K self l = k_init_list_head K self l"

definition List_empty :: "list_kernel \<Rightarrow> oid \<Rightarrow> links \<Rightarrow> bool" where
  "List_empty K self l \<longleftrightarrow> k_list_empty K self l"

definition List_add :: "list_kernel \<Rightarrow> oid \<Rightarrow> oid \<Rightarrow> links \<Rightarrow> links" where
  "List_add K self node l = k_list_add K node self l"

definition List_add_tail :: "list_kernel \<Rightarrow> oid \<Rightarrow> oid \<Rightarrow> links \<Rightarrow> links" where
  "List_add_tail K self node l = k_list_add_tail K node self l"

definition List_del :: "list_kernel \<Rightarrow> oid \<Rightarrow> links \<Rightarrow> links" where
  "List_del K node l = k_list_del K node l"

record Iterator = it_node :: oid

definition Iterator_deref :: "Iterator \<Rightarrow> oid" where
  "Iterator_deref self = it_node self"

definition Iterator_inc :: "links \<Rightarrow> Iterator \<Rightarrow> Iterator" where
  "Iterator_inc l self = self\<lparr>it_node := l_next l (it_node self)\<rparr>"

definition Iterator_neq :: "Iterator \<Rightarrow> Iterator \<Rightarrow> bool" where
  "Iterator_neq self other \<longleftrightarrow> it_node self \<noteq> it_node other"

definition List_begin :: "oid \<Rightarrow> links \<Rightarrow> Iterator" where
  "List_begin self l = \<lparr>it_node = l_next l self\<rparr>"

definition List_end :: "oid \<Rightarrow> Iterator" where
  "List_end self = \<lparr>it_node = self\<rparr>"

text \<open>
  A range-based \<open>for\<close> over a list whose body may leave the loop: the body returns \<open>Some r\<close> to
  return \<open>r\<close> from the enclosing function.  On links that are not a ring the loop may run for
  ever, which is the value \<open>None\<close>; \<open>Some None\<close> is falling out of the loop at the end.
\<close>

partial_function (option) for_each ::
  "links \<Rightarrow> Iterator \<Rightarrow> Iterator \<Rightarrow> (oid \<Rightarrow> 'r option) \<Rightarrow> 'r option option" where
  "for_each l it stop body =
     (if Iterator_neq it stop then
        (case body (Iterator_deref it) of
           Some r \<Rightarrow> Some (Some r)
         | None \<Rightarrow> for_each l (Iterator_inc l it) stop body)
      else Some None)"

section \<open>Rings\<close>

fun chain :: "(oid \<Rightarrow> oid) \<Rightarrow> oid \<Rightarrow> oid list \<Rightarrow> oid \<Rightarrow> bool" where
  "chain n a [] b \<longleftrightarrow> n a = b"
| "chain n a (x # xs) b \<longleftrightarrow> n a = x \<and> chain n x xs b"

definition ring :: "links \<Rightarrow> oid \<Rightarrow> oid list \<Rightarrow> bool" where
  "ring l h xs \<longleftrightarrow> distinct (h # xs) \<and> chain (l_next l) h xs h \<and> chain (l_prev l) h (rev xs) h"

text \<open>The pointer manipulation of a doubly linked circular list.\<close>

definition splice :: "oid \<Rightarrow> oid \<Rightarrow> oid \<Rightarrow> links \<Rightarrow> links" where
  "splice new prv nxt l =
     \<lparr>l_next = (l_next l)(new := nxt, prv := new), l_prev = (l_prev l)(nxt := new, new := prv)\<rparr>"

definition unlink :: "oid \<Rightarrow> oid \<Rightarrow> links \<Rightarrow> links" where
  "unlink prv nxt l = \<lparr>l_next = (l_next l)(prv := nxt), l_prev = (l_prev l)(nxt := prv)\<rparr>"

definition pointer_lists :: list_kernel where
  "pointer_lists =
     \<lparr>k_init_list_head = \<lambda>h l. \<lparr>l_next = (l_next l)(h := h), l_prev = (l_prev l)(h := h)\<rparr>,
      k_list_empty = \<lambda>h l. l_next l h = h,
      k_list_add = \<lambda>new h l. splice new h (l_next l h) l,
      k_list_add_tail = \<lambda>new h l. splice new (l_prev l h) h l,
      k_list_del = \<lambda>e l. unlink (l_prev l e) (l_next l e) l\<rparr>"

lemma chain_append: "chain n a (xs @ y # ys) b \<longleftrightarrow> chain n a xs y \<and> chain n y ys b"
  by (induction xs arbitrary: a) auto

lemma chain_cong: "(\<And>z. z \<in> set (a # xs) \<Longrightarrow> n z = n' z) \<Longrightarrow> chain n a xs b = chain n' a xs b"
  by (induction xs arbitrary: a) auto

lemma chain_upd_other [simp]: "z \<notin> set (a # xs) \<Longrightarrow> chain (n(z := v)) a xs b = chain n a xs b"
  by (rule chain_cong) auto

lemma ring_frame:
  assumes "ring l g ys" "\<And>z. z \<in> set (g # ys) \<Longrightarrow> l_next l z = l_next l' z \<and> l_prev l z = l_prev l' z"
  shows "ring l' g ys"
  using assms chain_cong [of g ys "l_next l" "l_next l'" g] chain_cong [of g "rev ys" "l_prev l" "l_prev l'" g]
  by (auto simp: ring_def)

section \<open>The interface of the kernel's list functions\<close>

locale kernel_list =
  fixes K :: list_kernel
  assumes init_ring: "ring (k_init_list_head K h l) h []"
    and init_frame: "ring l g ys \<Longrightarrow> h \<notin> set (g # ys) \<Longrightarrow> ring (k_init_list_head K h l) g ys"
    and empty_ring: "ring l h xs \<Longrightarrow> k_list_empty K h l \<longleftrightarrow> xs = []"
    and add_ring: "ring l h xs \<Longrightarrow> n \<notin> set (h # xs) \<Longrightarrow> ring (k_list_add K n h l) h (n # xs)"
    and add_frame: "ring l h xs \<Longrightarrow> n \<notin> set (h # xs) \<Longrightarrow> ring l g ys \<Longrightarrow>
      set (g # ys) \<inter> set (n # h # xs) = {} \<Longrightarrow> ring (k_list_add K n h l) g ys"
    and add_tail_ring: "ring l h xs \<Longrightarrow> n \<notin> set (h # xs) \<Longrightarrow> ring (k_list_add_tail K n h l) h (xs @ [n])"
    and add_tail_frame: "ring l h xs \<Longrightarrow> n \<notin> set (h # xs) \<Longrightarrow> ring l g ys \<Longrightarrow>
      set (g # ys) \<inter> set (n # h # xs) = {} \<Longrightarrow> ring (k_list_add_tail K n h l) g ys"
    and del_ring: "ring l h (xs @ n # ys) \<Longrightarrow> ring (k_list_del K n l) h (xs @ ys)"
    and del_frame: "ring l h (xs @ n # ys) \<Longrightarrow> ring l g zs \<Longrightarrow>
      set (g # zs) \<inter> set (h # xs @ n # ys) = {} \<Longrightarrow> ring (k_list_del K n l) g zs"
begin

lemma List_ctor_ring: "ring (List_ctor K h l) h []"
  by (simp add: List_ctor_def init_ring)

lemma List_empty_iff: "ring l h xs \<Longrightarrow> List_empty K h l \<longleftrightarrow> xs = []"
  by (simp add: List_empty_def empty_ring)

lemma List_add_tail_ring: "ring l h xs \<Longrightarrow> n \<notin> set (h # xs) \<Longrightarrow> ring (List_add_tail K h n l) h (xs @ [n])"
  unfolding List_add_tail_def by (rule add_tail_ring)

lemma List_add_tail_frame:
  "ring l h xs \<Longrightarrow> n \<notin> set (h # xs) \<Longrightarrow> ring l g ys \<Longrightarrow> set (g # ys) \<inter> set (n # h # xs) = {} \<Longrightarrow>
     ring (List_add_tail K h n l) g ys"
  unfolding List_add_tail_def by (rule add_tail_frame)

end

lemma ring_next: "ring l h xs \<Longrightarrow> l_next l h = hd (xs @ [h])"
  by (cases xs) (auto simp: ring_def)

lemma ring_prev: "ring l h xs \<Longrightarrow> l_prev l h = last (h # xs)"
  by (cases xs rule: rev_cases) (auto simp: ring_def)

lemma splice_head_ring:
  assumes "ring l h xs" "n \<notin> set (h # xs)"
  shows "ring (splice n h (l_next l h) l) h (n # xs)"
  using assms
  by (cases xs) (auto simp: ring_def splice_def chain_append)

lemma splice_tail_ring:
  assumes "ring l h xs" "n \<notin> set (h # xs)"
  shows "ring (splice n (l_prev l h) h l) h (xs @ [n])"
  using assms
  by (cases xs rule: rev_cases) (auto simp: ring_def splice_def chain_append)

lemma unlink_ring:
  assumes "ring l h (xs @ n # ys)"
  shows "ring (unlink (l_prev l n) (l_next l n) l) h (xs @ ys)"
  using assms
  by (cases xs rule: rev_cases; cases ys) (auto simp: ring_def unlink_def chain_append)

lemma ring_neighbours:
  assumes "ring l h (xs @ n # ys)"
  shows "l_prev l n = last (h # xs) \<and> l_next l n = hd (ys @ [h])"
  using assms by (cases xs rule: rev_cases; cases ys) (auto simp: ring_def chain_append)

lemma hd_in_ring: "hd (xs @ [h]) \<in> set (h # xs)"
  by (cases xs) auto

lemma last_in_ring: "last (h # xs) \<in> set (h # xs)"
  by (rule last_in_set) simp

lemma splice_frame:
  assumes "ring l g ys" "set (g # ys) \<inter> {n, p, q} = {}"
  shows "ring (splice n p q l) g ys"
  using assms by (elim ring_frame) (auto simp: splice_def)

lemma unlink_frame:
  assumes "ring l g ys" "set (g # ys) \<inter> {p, q} = {}"
  shows "ring (unlink p q l) g ys"
  using assms by (elim ring_frame) (auto simp: unlink_def)

interpretation plist: kernel_list pointer_lists
proof
  fix l h xs n g ys zs
  show "ring (k_init_list_head pointer_lists h l) h []"
    by (simp add: pointer_lists_def ring_def)
  show "ring (k_init_list_head pointer_lists h l) g ys" if "ring l g ys" "h \<notin> set (g # ys)"
    using that by (elim ring_frame) (auto simp: pointer_lists_def)
  show "k_list_empty pointer_lists h l \<longleftrightarrow> xs = []" if "ring l h xs"
    using that ring_next [OF that] by (cases xs) (auto simp: pointer_lists_def ring_def)
  show "ring (k_list_add pointer_lists n h l) h (n # xs)" if "ring l h xs" "n \<notin> set (h # xs)"
    using splice_head_ring [OF that] by (simp add: pointer_lists_def)
  show "ring (k_list_add_tail pointer_lists n h l) h (xs @ [n])" if "ring l h xs" "n \<notin> set (h # xs)"
    using splice_tail_ring [OF that] by (simp add: pointer_lists_def)
  show "ring (k_list_del pointer_lists n l) h (xs @ ys)" if "ring l h (xs @ n # ys)"
    using unlink_ring [OF that] by (simp add: pointer_lists_def)
  show "ring (k_list_add pointer_lists n h l) g ys"
    if "ring l h xs" "ring l g ys" "set (g # ys) \<inter> set (n # h # xs) = {}"
  proof -
    have "l_next l h \<in> set (h # xs)" using ring_next [OF that(1)] hd_in_ring [of xs h] by simp
    with that have "set (g # ys) \<inter> {n, h, l_next l h} = {}" by auto
    with that(2) show ?thesis by (simp add: pointer_lists_def splice_frame)
  qed
  show "ring (k_list_add_tail pointer_lists n h l) g ys"
    if "ring l h xs" "ring l g ys" "set (g # ys) \<inter> set (n # h # xs) = {}"
  proof -
    have "l_prev l h \<in> set (h # xs)" using ring_prev [OF that(1)] last_in_ring [of h xs] by simp
    with that have "set (g # ys) \<inter> {n, l_prev l h, h} = {}" by auto
    with that(2) show ?thesis by (simp add: pointer_lists_def splice_frame)
  qed
  show "ring (k_list_del pointer_lists n l) g zs"
    if "ring l h (xs @ n # ys)" "ring l g zs" "set (g # zs) \<inter> set (h # xs @ n # ys) = {}"
  proof -
    have "l_prev l n \<in> set (h # xs)" "l_next l n \<in> set (h # ys)"
      using ring_neighbours [OF that(1)] hd_in_ring [of ys h] last_in_ring [of h xs] by simp_all
    with that have "set (g # zs) \<inter> {l_prev l n, l_next l n} = {}" by auto
    with that(2) show ?thesis by (simp add: pointer_lists_def unlink_frame)
  qed
qed

section \<open>Traversal\<close>

text \<open>What the loop computes on a ring: the first result of the body along the entries.\<close>

fun first_result :: "(oid \<Rightarrow> 'r option) \<Rightarrow> oid list \<Rightarrow> 'r option" where
  "first_result body [] = None"
| "first_result body (x # xs) = (case body x of Some r \<Rightarrow> Some r | None \<Rightarrow> first_result body xs)"

lemma for_each_chain:
  "chain (l_next l) a xs h \<Longrightarrow> h \<notin> set xs \<Longrightarrow>
     for_each l \<lparr>it_node = l_next l a\<rparr> (List_end h) body = Some (first_result body xs)"
proof (induction xs arbitrary: a)
  case Nil
  then show ?case by (subst for_each.simps) (simp add: Iterator_neq_def List_end_def)
next
  case (Cons x xs)
  then show ?case
    by (subst for_each.simps)
      (auto simp: Iterator_neq_def Iterator_deref_def Iterator_inc_def List_end_def split: option.splits)
qed

lemma for_each_ring:
  "ring l h xs \<Longrightarrow> for_each l (List_begin h l) (List_end h) body = Some (first_result body xs)"
  by (simp add: ring_def List_begin_def for_each_chain)

section \<open>Properties\<close>

text \<open>
  Iterating over a \<open>List\<close> terminates and visits the entries in order: after \<open>add_tail\<close> the
  new entry comes last, after \<open>add\<close> it comes first, after \<open>del\<close> it is gone, and \<open>empty\<close> tells
  whether there is anything to visit.
\<close>

theorem List_operations_traverse:
  assumes "kernel_list K" "ring l h xs" "n \<notin> set (h # xs)"
  shows "for_each l (List_begin h l) (List_end h) body = Some (first_result body xs) \<and>
    (let l1 = List_add_tail K h n l
     in for_each l1 (List_begin h l1) (List_end h) body = Some (first_result body (xs @ [n]))) \<and>
    (let l1 = List_add K h n l
     in for_each l1 (List_begin h l1) (List_end h) body = Some (first_result body (n # xs))) \<and>
    (\<forall>y\<in>set xs. let l1 = List_del K y l
     in for_each l1 (List_begin h l1) (List_end h) body = Some (first_result body (remove1 y xs))) \<and>
    (List_empty K h l \<longleftrightarrow> xs = [])"
proof -
  have "ring (List_del K y l) h (remove1 y xs)" if "y \<in> set xs" for y
  proof -
    from that obtain us vs where "xs = us @ y # vs" "y \<notin> set us" by (meson split_list_first)
    with kernel_list.del_ring [OF assms(1), of l h us y vs] assms(2) show ?thesis
      by (simp add: List_del_def remove1_append)
  qed
  then show ?thesis
    using assms(1-3) kernel_list.add_ring [OF assms(1-3)] kernel_list.add_tail_ring [OF assms(1-3)]
      kernel_list.List_empty_iff [OF assms(1,2)]
    by (simp add: for_each_ring List_add_def List_add_tail_def)
qed

theorem List_operations_traverse_witness:
  "let l = List_add_tail pointer_lists 100 7 (List_ctor pointer_lists 100 \<lparr>l_next = (\<lambda>_. 0), l_prev = (\<lambda>_. 0)\<rparr>);
       l1 = List_add_tail pointer_lists 100 9 l
   in for_each l1 (List_begin 100 l1) (List_end 100) (\<lambda>x. if 8 < x then Some x else None) = Some (Some 9)"
proof -
  let ?l0 = "List_ctor pointer_lists 100 \<lparr>l_next = (\<lambda>_. 0), l_prev = (\<lambda>_. 0)\<rparr>"
  have "ring (List_add_tail pointer_lists 100 7 ?l0) 100 [7]"
    using plist.List_add_tail_ring [OF plist.List_ctor_ring, of 7 100] by simp
  from List_operations_traverse [OF plist.kernel_list_axioms this, of 9 "\<lambda>x. if 8 < x then Some x else None"]
  show ?thesis by (simp add: Let_def)
qed

end
