(* ===== verification/Kpp_Error.thy ===== *)
theory Kpp_Error
  imports Kpp_Prelude
begin

text \<open>
  \<^verbatim>\<open>core/Error.hpp\<close> and \<^verbatim>\<open>util/Expected.hpp\<close>.

  \<open>Expected<T, E>\<close> is a union of a value and an error with a flag.  The model keeps the member
  that really is in the union (\<open>slot\<close>) apart from the flag the class consults, so that using the
  wrong member is visible: it is \<open>None\<close>.
\<close>

section \<open>Error\<close>

record Error = err_code :: int

definition Error_ctor :: "int \<Rightarrow> Error" where
  "Error_ctor code = \<lparr>err_code = code\<rparr>"

definition Error_value :: "Error \<Rightarrow> int" where
  "Error_value self = err_code self"

definition Error_is_error :: "Error \<Rightarrow> bool" where
  "Error_is_error self \<longleftrightarrow> err_code self < 0"

definition Error_eq_int :: "Error \<Rightarrow> int \<Rightarrow> bool" where
  "Error_eq_int lhs rhs \<longleftrightarrow> Error_value lhs = rhs"

definition Error_neq_int :: "Error \<Rightarrow> int \<Rightarrow> bool" where
  "Error_neq_int lhs rhs \<longleftrightarrow> Error_value lhs \<noteq> rhs"

definition Error_eq :: "Error \<Rightarrow> Error \<Rightarrow> bool" where
  "Error_eq lhs rhs \<longleftrightarrow> Error_value lhs = Error_value rhs"

definition Error_neq :: "Error \<Rightarrow> Error \<Rightarrow> bool" where
  "Error_neq lhs rhs \<longleftrightarrow> Error_value lhs \<noteq> Error_value rhs"

lemma Error_is_error_ctor [simp]: "Error_is_error (Error_ctor c) \<longleftrightarrow> c < 0"
  by (simp add: Error_is_error_def Error_ctor_def)

section \<open>Expected\<close>












section \<open>Programs over Expected\<close>









section \<open>The flag tells the truth\<close>











section \<open>Properties\<close>



end
