(* ===== verification/Kpp_HashMap.thy ===== *)
theory Kpp_HashMap
  imports Kpp_List Kpp_Memory Kpp_Error
begin

text \<open>
  \<^verbatim>\<open>util/HashMap.hpp\<close>, a chained hash table over \<open>List\<close> and \<open>UniquePtr\<close>.

  A node is a heap block whose first member is its \<open>list_head\<close>, so \<open>container_of\<close> leaves the
  address as it is.  The bucket array is one block of \<open>bucket_count\<close> list heads of 16 bytes each.
  \<open>make_unique<List[]>(flags, n)\<close>, which the constructor calls and \<^verbatim>\<open>UniquePtr.hpp\<close> does not
  provide, is read as the array form: one allocation, then the \<open>List\<close> constructor on every element.

  \<open>buckets_[hash]\<close>, for which \<open>UniquePtr\<close> has no operator either, is read as the element of that array.

  \<open>find\<close> is modelled as it is written.  Its loop binds \<^verbatim>\<open>auto& node\<close> to what the iterator returns, a
  pointer by value; this compiles only as \<^verbatim>\<open>auto node\<close>, so \<open>node\<close> is a variable of the loop.  And
  \<^verbatim>\<open>container_of(&node, Node, list_node)\<close> then is the address of that variable, not the node the
  pointer in it leads to.  \<open>HashMap_find\<close> has that address as its parameter \<open>var\<close>, and reading a \<open>Node\<close>
  where no block is allocated is \<open>None\<close>.  \<open>HashMap_find_meant\<close> is not code of the class: it is \<open>find\<close>
  with \<^verbatim>\<open>container_of(node, Node, list_node)\<close>, and serves to read off what \<open>insert\<close> built.

  The hash function is a parameter, as in the source.  Taking a remainder modulo a bucket count
  of zero is \<open>None\<close>.
\<close>

section \<open>Blocks of memory\<close>

text \<open>The blocks that are allocated after a trace, as address and size.\<close>

fun block_step :: "kcall \<Rightarrow> (nat \<times> nat) set \<Rightarrow> (nat \<times> nat) set" where
  "block_step (Mem (Kmalloc n f (Ptr a))) B = insert (a, n) B"
| "block_step (Mem (Kfree (Ptr a))) B = {b \<in> B. fst b \<noteq> a}"
| "block_step c B = B"

definition live_blocks :: "trace \<Rightarrow> (nat \<times> nat) set" where
  "live_blocks tr = fold block_step tr {}"

section \<open>The class\<close>

record ('k, 'v) Node =
  node_key :: 'k
  node_value :: 'v

record HashMap =
  hm_buckets :: UniquePtr
  hm_bucket_count :: nat

record ('k, 'v) hmem =
  hm_links :: links
  hm_nodes :: "oid \<Rightarrow> ('k, 'v) Node"
  hm_trace :: trace

definition sizeof_List :: nat where
  "sizeof_List = 16"

definition bucket_at :: "nat \<Rightarrow> nat \<Rightarrow> oid" where
  "bucket_at base i = base + sizeof_List * i"

definition HashMap_ctor ::
  "list_kernel \<Rightarrow> allocator \<Rightarrow> nat \<Rightarrow> ('k, 'v) hmem \<Rightarrow> (HashMap \<times> ('k, 'v) hmem) option" where
  "HashMap_ctor K alloc bucket_count m =
     (let mem = alloc (hm_trace m) (sizeof_List * bucket_count) GFP_KERNEL;
          m1 = m\<lparr>hm_trace := hm_trace m @ [Mem (Kmalloc (sizeof_List * bucket_count) GFP_KERNEL mem)]\<rparr>
      in case mem of
           NULL \<Rightarrow> Some (\<lparr>hm_buckets = UniquePtr_ctor NULL, hm_bucket_count = bucket_count\<rparr>, m1)
         | ERR_PTR _ \<Rightarrow> None
         | Ptr base \<Rightarrow>
             Some (\<lparr>hm_buckets = UniquePtr_ctor mem, hm_bucket_count = bucket_count\<rparr>,
               m1\<lparr>hm_links := fold (\<lambda>i. List_ctor K (bucket_at base i)) [0..<bucket_count] (hm_links m1)\<rparr>))"

definition HashMap_insert ::
  "list_kernel \<Rightarrow> allocator \<Rightarrow> nat \<Rightarrow> ('k \<Rightarrow> nat) \<Rightarrow> HashMap \<Rightarrow> 'k \<Rightarrow> 'v \<Rightarrow> ('k, 'v) hmem \<Rightarrow>
   (Error \<times> ('k, 'v) hmem) option" where
  "HashMap_insert K alloc sizeof_Node hasher self key value m =
     (case UniquePtr_get (hm_buckets self) of
        Ptr base \<Rightarrow>
          (if hm_bucket_count self = 0 then None
           else
             let hash = hasher key mod hm_bucket_count self;
                 bucket = bucket_at base hash;
                 (node_ptr, tr) = make_unique alloc sizeof_Node GFP_KERNEL (hm_trace m);
                 m1 = m\<lparr>hm_trace := tr\<rparr>
             in if \<not> UniquePtr_bool node_ptr then Some (Error_ctor (- ENOMEM), m1)
                else case fst (UniquePtr_release node_ptr) of
                  Ptr n \<Rightarrow>
                    Some (Error_ctor 0,
                      m1\<lparr>hm_nodes := (hm_nodes m1)(n := \<lparr>node_key = key, node_value = value\<rparr>),
                         hm_links := List_add_tail K bucket n (hm_links m1)\<rparr>)
                | _ \<Rightarrow> None)
      | ERR_PTR _ \<Rightarrow> None
      | NULL \<Rightarrow> Some (Error_ctor (- ENOMEM), m))"



text \<open>The implicit destructor destroys the members: \<open>buckets_\<close> gives back the array.\<close>

definition HashMap_dtor :: "HashMap \<Rightarrow> ('k, 'v) hmem \<Rightarrow> ('k, 'v) hmem" where
  "HashMap_dtor self m = m\<lparr>hm_trace := UniquePtr_dtor DefaultDeleter (hm_buckets self) (hm_trace m)\<rparr>"

text \<open>A client that inserts a list of entries and collects the error codes.\<close>

fun HashMap_inserts ::
  "list_kernel \<Rightarrow> allocator \<Rightarrow> nat \<Rightarrow> ('k \<Rightarrow> nat) \<Rightarrow> HashMap \<Rightarrow> ('k \<times> 'v) list \<Rightarrow> ('k, 'v) hmem \<Rightarrow>
   (Error list \<times> ('k, 'v) hmem) option" where
  "HashMap_inserts K alloc sz hasher h [] m = Some ([], m)"
| "HashMap_inserts K alloc sz hasher h ((k, v) # kvs) m =
     (case HashMap_insert K alloc sz hasher h k v m of
        None \<Rightarrow> None
      | Some (e, m1) \<Rightarrow>
          (case HashMap_inserts K alloc sz hasher h kvs m1 of
             None \<Rightarrow> None | Some (es, m2) \<Rightarrow> Some (e # es, m2)))"

section \<open>Kmalloc and blocks\<close>

text \<open>
  The documented behaviour of \<open>kmalloc\<close>: the block it returns overlaps no allocated block, and failure is the null pointer.
\<close>

definition kmalloc_disjoint :: "allocator \<Rightarrow> bool" where
  "kmalloc_disjoint alloc \<longleftrightarrow>
     (\<forall>tr n f. \<not> IS_ERR (alloc tr n f)) \<and>
     (\<forall>tr n f a b m. alloc tr n f = Ptr a \<longrightarrow> (b, m) \<in> live_blocks tr \<longrightarrow> a + n \<le> b \<or> b + m \<le> a)"

fun top_block :: "trace \<Rightarrow> nat" where
  "top_block [] = 0"
| "top_block (Mem (Kmalloc n f (Ptr a)) # tr) = max (a + n) (top_block tr)"
| "top_block (Mem (Kmalloc n f (ERR_PTR a)) # tr) = top_block tr"
| "top_block (Mem (Kmalloc n f NULL) # tr) = top_block tr"
| "top_block (c # tr) = top_block tr"

definition block_alloc :: allocator where
  "block_alloc tr n f = Ptr (top_block tr)"

lemma live_blocks_snoc [simp]: "live_blocks (tr @ [c]) = block_step c (live_blocks tr)"
  by (simp add: live_blocks_def)

lemma top_block_Cons: "top_block tr \<le> top_block (c # tr)"
  by (cases "c # tr" rule: top_block.cases) auto

lemma block_step_top: "(b, m) \<in> block_step c B \<Longrightarrow> (b, m) \<in> B \<or> b + m \<le> top_block (c # tr)"
  by (cases "(c, B)" rule: block_step.cases) auto

lemma fold_block_top:
  "(b, m) \<in> fold block_step tr B \<Longrightarrow> (b, m) \<in> B \<or> b + m \<le> top_block tr"
proof (induction tr arbitrary: B)
  case (Cons c tr)
  from Cons.prems have "(b, m) \<in> fold block_step tr (block_step c B)" by simp
  from Cons.IH [OF this] block_step_top [of b m c B tr] top_block_Cons [of tr c] show ?case by auto
qed simp

lemma kmalloc_disjoint_block_alloc: "kmalloc_disjoint block_alloc"
  using fold_block_top by (fastforce simp: kmalloc_disjoint_def block_alloc_def live_blocks_def)

section \<open>The table as a map\<close>












text \<open>The entries whose insertion reported success.\<close>

definition inserted :: "('k \<times> 'v) list \<Rightarrow> Error list \<Rightarrow> ('k \<times> 'v) list" where
  "inserted kvs es = map fst (filter (\<lambda>(kv, e). \<not> Error_is_error e) (zip kvs es))"


lemma HashMap_inserts_null:
  assumes "up_ptr (hm_buckets h) = NULL"
  shows "HashMap_inserts K alloc sz hasher h kvs m = Some (replicate (length kvs) (Error_ctor (- ENOMEM)), m)"
  by (induction kvs) (auto simp: HashMap_insert_def UniquePtr_get_def assms)

lemma inserted_failed: "inserted kvs (replicate (length kvs) (Error_ctor (- ENOMEM))) = []"
  by (induction kvs) (auto simp: inserted_def)

section \<open>Blocks left behind\<close>

text \<open>\<open>nodes_left sz base n N tr\<close>: beside the bucket array, exactly the node blocks \<open>N\<close> are allocated.\<close>

definition nodes_left :: "nat \<Rightarrow> nat \<Rightarrow> nat \<Rightarrow> nat set \<Rightarrow> trace \<Rightarrow> bool" where
  "nodes_left sz base n N tr \<longleftrightarrow> finite N \<and> base \<notin> N \<and> live_blocks tr = insert (base, sizeof_List * n) (N \<times> {sz})"

lemma nodes_left_alloc:
  assumes "kmalloc_disjoint alloc" "0 < sz" "0 < n" "nodes_left sz base n N tr" "alloc tr sz f = Ptr a"
  shows "a \<notin> N \<and> nodes_left sz base n (insert a N) (tr @ [Mem (Kmalloc sz f (Ptr a)), Mem (Construct (Ptr a))])"
proof -
  have apart: "a + sz \<le> b \<or> b + s \<le> a" if "(b, s) \<in> live_blocks tr" for b s
    using assms(1,5) that unfolding kmalloc_disjoint_def by blast
  from apart [of base "sizeof_List * n"] apart [of a sz] assms(2-4)
  have "a \<noteq> base" "a \<notin> N" by (auto simp: nodes_left_def sizeof_List_def)
  with assms(4) show ?thesis by (auto simp: nodes_left_def live_blocks_def)
qed

lemma HashMap_insert_nodes:
  assumes "kmalloc_disjoint alloc" "0 < sz" "0 < n" "nodes_left sz base n N (hm_trace m)"
    and "h = \<lparr>hm_buckets = UniquePtr_ctor (Ptr base), hm_bucket_count = n\<rparr>"
    and "HashMap_insert K alloc sz hasher h k v m = Some (e, m')"
  shows "\<exists>N'. nodes_left sz base n N' (hm_trace m') \<and> card N' = card N + of_bool (\<not> Error_is_error e)"
proof (cases "alloc (hm_trace m) sz GFP_KERNEL")
  case NULL
  with assms(3,5,6) have "e = Error_ctor (- ENOMEM)"
    "hm_trace m' = hm_trace m @ [Mem (Kmalloc sz GFP_KERNEL NULL)]"
    by (auto simp: HashMap_insert_def make_unique_def UniquePtr_get_def UniquePtr_bool_def Let_def)
  moreover from this(2) have "live_blocks (hm_trace m') = live_blocks (hm_trace m)" by simp
  ultimately show ?thesis using assms(4) by (intro exI [of _ N]) (simp add: nodes_left_def)
next
  case (ERR_PTR e)
  with assms(1) show ?thesis unfolding kmalloc_disjoint_def by (metis IS_ERR.simps(1))
next
  case (Ptr a)
  with assms(3,5,6) have "e = Error_ctor 0"
    "hm_trace m' = hm_trace m @ [Mem (Kmalloc sz GFP_KERNEL (Ptr a)), Mem (Construct (Ptr a))]"
    by (auto simp: HashMap_insert_def make_unique_def UniquePtr_get_def UniquePtr_bool_def UniquePtr_release_def Let_def)
  moreover have "finite N" using assms(4) by (simp add: nodes_left_def)
  ultimately show ?thesis
    using nodes_left_alloc [OF assms(1-4) Ptr] by (intro exI [of _ "insert a N"]) simp
qed

lemma HashMap_inserts_nodes:
  assumes "kmalloc_disjoint alloc" "0 < sz" "0 < n" "nodes_left sz base n N (hm_trace m)"
    and h: "h = \<lparr>hm_buckets = UniquePtr_ctor (Ptr base), hm_bucket_count = n\<rparr>"
    and "HashMap_inserts K alloc sz hasher h kvs m = Some (es, m')"
  shows "\<exists>N'. nodes_left sz base n N' (hm_trace m') \<and> card N' = card N + length (inserted kvs es)"
  using assms(4,6)
proof (induction kvs arbitrary: m N es)
  case Nil
  then show ?case by (auto simp: inserted_def)
next
  case (Cons kv kvs)
  obtain k v where kv: "kv = (k, v)" by (cases kv)
  with Cons.prems(2) obtain e m1 es1 where
    1: "HashMap_insert K alloc sz hasher h k v m = Some (e, m1)" and
    2: "HashMap_inserts K alloc sz hasher h kvs m1 = Some (es1, m')" and es: "es = e # es1"
    by (auto split: option.splits)
  from HashMap_insert_nodes [OF assms(1-3) Cons.prems(1) h 1] obtain N1 where
    N1: "nodes_left sz base n N1 (hm_trace m1)" "card N1 = card N + of_bool (\<not> Error_is_error e)" by blast
  from Cons.IH [OF N1(1) 2] N1(2) es show ?case by (auto simp: inserted_def)
qed

section \<open>Properties\<close>



text \<open>
  C11.  Destroying a \<open>HashMap\<close> gives back the bucket array and nothing else: of a table built in an
  empty heap, whatever is inserted and whichever allocations fail, exactly one block for every
  insertion that reported success is still allocated after the destructor, all of the size of a node.
\<close>

theorem HashMap_destructor_leaks_nodes:
  assumes "kmalloc_disjoint alloc" "0 < sz" "0 < n" "live_blocks (hm_trace m0) = {}"
    and ctor: "HashMap_ctor K alloc n m0 = Some (h, m)"
    and ins: "HashMap_inserts K alloc sz hasher h kvs m = Some (es, m')"
  shows "\<exists>N. live_blocks (hm_trace (HashMap_dtor h m')) = N \<times> {sz} \<and> card N = length (inserted kvs es)"
proof (cases "alloc (hm_trace m0) (sizeof_List * n) GFP_KERNEL")
  case NULL
  with ctor have "up_ptr (hm_buckets h) = NULL" "live_blocks (hm_trace m) = {}"
    using assms(4) by (auto simp: HashMap_ctor_def Let_def)
  with ins show ?thesis
    by (intro exI [of _ "{}"])
      (auto simp: HashMap_inserts_null inserted_failed HashMap_dtor_def UniquePtr_dtor_def)
next
  case (ERR_PTR e)
  with assms(1) show ?thesis unfolding kmalloc_disjoint_def by (metis IS_ERR.simps(1))
next
  case (Ptr base)
  with ctor assms(4) have h: "h = \<lparr>hm_buckets = UniquePtr_ctor (Ptr base), hm_bucket_count = n\<rparr>"
    and "nodes_left sz base n {} (hm_trace m)"
    by (auto simp: HashMap_ctor_def nodes_left_def Let_def)
  from HashMap_inserts_nodes [OF assms(1-3) this(2) h ins] obtain N where
    "nodes_left sz base n N (hm_trace m')" "card N = length (inserted kvs es)" by auto
  with h show ?thesis
    by (intro exI [of _ N])
      (auto simp: HashMap_dtor_def UniquePtr_dtor_def DefaultDeleter_def kpp_kfree_def nodes_left_def)
qed

theorem HashMap_destructor_leaks_nodes_witness:
  "\<exists>h m es m' N.
     HashMap_ctor pointer_lists block_alloc 4
       \<lparr>hm_links = \<lparr>l_next = (\<lambda>_. 0), l_prev = (\<lambda>_. 0)\<rparr>,
        hm_nodes = (\<lambda>_. \<lparr>node_key = 0, node_value = CHR ''z''\<rparr>), hm_trace = []\<rparr> = Some (h, m) \<and>
     HashMap_inserts pointer_lists block_alloc 32 (\<lambda>k. k) h [(5 :: nat, CHR ''a''), (9, CHR ''b'')] m = Some (es, m') \<and>
     live_blocks (hm_trace (HashMap_dtor h m')) = N \<times> {32} \<and> card N = 2"
proof -
  let ?m0 = "\<lparr>hm_links = \<lparr>l_next = (\<lambda>_. 0), l_prev = (\<lambda>_. 0)\<rparr>,
        hm_nodes = (\<lambda>_. \<lparr>node_key = 0 :: nat, node_value = CHR ''z''\<rparr>), hm_trace = []\<rparr>"
  let ?kvs = "[(5 :: nat, CHR ''a''), (9, CHR ''b'')]"
  obtain h m es m' where c: "HashMap_ctor pointer_lists block_alloc 4 ?m0 = Some (h, m)"
    and i: "HashMap_inserts pointer_lists block_alloc 32 (\<lambda>k. k) h ?kvs m = Some (es, m')"
    and "length (inserted ?kvs es) = 2"
    by (auto simp: HashMap_ctor_def HashMap_insert_def block_alloc_def make_unique_def UniquePtr_get_def
        UniquePtr_bool_def UniquePtr_release_def inserted_def Error_is_error_def Error_ctor_def Let_def)
  moreover have "live_blocks (hm_trace ?m0) = {}" "0 < (32 :: nat)" "0 < (4 :: nat)"
    by (simp_all add: live_blocks_def)
  note HashMap_destructor_leaks_nodes [OF kmalloc_disjoint_block_alloc this(2,3,1) c i]
  ultimately show ?thesis by auto
qed

end
