(* ===== verification/Kpp_Vfs.thy ===== *)
theory Kpp_Vfs
  imports Kpp_Error
begin

text \<open>
  \<^verbatim>\<open>vfs/UserData.hpp\<close>, \<^verbatim>\<open>vfs/IoctlDSL.hpp\<close> and \<^verbatim>\<open>vfs/FileOperations.hpp\<close>.

  User memory is a function from addresses to bytes.  The kernel's \<open>copy_to_user\<close> and
  \<open>copy_from_user\<close> are a parameter (\<open>uaccess\<close>): both return the number of bytes not copied;
  \<open>uaccess_ok\<close> is their documented behaviour, which leaves open what a partial copy has done.
\<close>

section \<open>User memory\<close>

type_synonym byte = "8 word"

type_synonym umem = "nat \<Rightarrow> byte"

definition uload :: "nat \<Rightarrow> nat \<Rightarrow> umem \<Rightarrow> byte list" where
  "uload a n u = map u [a..<a + n]"

definition ustore :: "nat \<Rightarrow> byte list \<Rightarrow> umem \<Rightarrow> umem" where
  "ustore a bs u = (\<lambda>x. if a \<le> x \<and> x < a + length bs then bs ! (x - a) else u x)"

text \<open>
  \<open>ua_to U a bs u\<close>: copy \<open>bs\<close> to the user address \<open>a\<close>.  \<open>ua_from U a bs u\<close>: copy from \<open>a\<close> over the
  kernel bytes \<open>bs\<close>.
\<close>

record uaccess =
  ua_to :: "nat \<Rightarrow> byte list \<Rightarrow> umem \<Rightarrow> nat \<times> umem"
  ua_from :: "nat \<Rightarrow> byte list \<Rightarrow> umem \<Rightarrow> nat \<times> byte list"

definition uaccess_ok :: "uaccess \<Rightarrow> bool" where
  "uaccess_ok U \<longleftrightarrow>
     (\<forall>a bs u. fst (ua_to U a bs u) = 0 \<longrightarrow> snd (ua_to U a bs u) = ustore a bs u) \<and>
     (\<forall>a bs u. length (snd (ua_from U a bs u)) = length bs) \<and>
     (\<forall>a bs u. fst (ua_from U a bs u) = 0 \<longrightarrow> snd (ua_from U a bs u) = uload a (length bs) u)"

text \<open>
  A concrete instance: accesses below \<open>lim\<close> succeed, others copy what lies below \<open>lim\<close> and zero
  the rest of the destination, as the kernel does.
\<close>

definition bounded_uaccess :: "nat \<Rightarrow> uaccess" where
  "bounded_uaccess lim =
     \<lparr>ua_to = \<lambda>a bs u. (a + length bs - max a lim, ustore a (take (lim - a) bs) u),
      ua_from = \<lambda>a bs u. (a + length bs - max a lim,
        take (length bs) (uload a (lim - a) u @ replicate (length bs) 0))\<rparr>"

section \<open>UserData\<close>

text \<open>An object of type \<open>T\<close> is its \<open>sizeof(T)\<close> bytes.\<close>

definition kpp_copy_to_user :: "uaccess \<Rightarrow> nat \<Rightarrow> byte list \<Rightarrow> umem \<Rightarrow> Error \<times> umem" where
  "kpp_copy_to_user U to obj u =
     (let (left, u') = ua_to U to obj u
      in if left \<noteq> 0 then (Error_ctor (- EFAULT), u') else (Error_ctor 0, u'))"

definition kpp_copy_from_user :: "uaccess \<Rightarrow> byte list \<Rightarrow> nat \<Rightarrow> umem \<Rightarrow> Error \<times> byte list" where
  "kpp_copy_from_user U obj addr u =
     (let (left, obj') = ua_from U addr obj u
      in if left \<noteq> 0 then (Error_ctor (- EFAULT), obj') else (Error_ctor 0, obj'))"

section \<open>IoctlDSL\<close>

datatype IoctlDirection = DIR_NONE | DIR_READ | DIR_WRITE | DIR_READ_WRITE

text \<open>
  A command of the pack: its number, its direction, the size of its data type, and the owner's
  handler for it, which may change the data (passed by reference) and the owner.
\<close>

record 'o IoctlCommand =
  ic_cmd :: nat
  ic_direction :: IoctlDirection
  ic_size :: nat
  ic_handle :: "nat \<Rightarrow> byte list \<Rightarrow> 'o \<Rightarrow> int \<times> byte list \<times> 'o"

text \<open>The variables of \<open>handle\<close>: \<open>ret\<close>, \<open>handled\<close>, the owner and user memory.\<close>

record 'o iostate =
  io_ret :: int
  io_handled :: bool
  io_owner :: 'o
  io_umem :: umem

definition process_command ::
  "uaccess \<Rightarrow> nat \<Rightarrow> nat \<Rightarrow> nat \<Rightarrow> 'o IoctlCommand \<Rightarrow> 'o iostate \<Rightarrow> 'o iostate" where
  "process_command U file cmd arg C s =
     (if io_handled s \<or> cmd \<noteq> ic_cmd C then s
      else
        let data = replicate (ic_size C) 0;
            (e, data) = (if ic_direction C = DIR_WRITE \<or> ic_direction C = DIR_READ_WRITE
                         then kpp_copy_from_user U data arg (io_umem s) else (Error_ctor 0, data))
        in if Error_is_error e then s\<lparr>io_ret := - EFAULT, io_handled := True\<rparr>
           else
             let (ret, data, owner) = ic_handle C file data (io_owner s);
                 s1 = s\<lparr>io_ret := ret, io_owner := owner\<rparr>;
                 s2 = (if ic_direction C = DIR_READ \<or> ic_direction C = DIR_READ_WRITE then
                         if io_ret s1 = 0 then
                           let (e, u) = kpp_copy_to_user U arg data (io_umem s1);
                               s2 = s1\<lparr>io_umem := u\<rparr>
                           in if Error_is_error e then s2\<lparr>io_ret := - EFAULT\<rparr> else s2
                         else s1
                       else s1)
             in s2\<lparr>io_handled := True\<rparr>)"

definition IoctlHandler_handle ::
  "uaccess \<Rightarrow> 'o IoctlCommand list \<Rightarrow> nat \<Rightarrow> nat \<Rightarrow> nat \<Rightarrow> 'o \<Rightarrow> umem \<Rightarrow> int \<times> 'o \<times> umem" where
  "IoctlHandler_handle U Commands file cmd arg owner u =
     (let s = fold (process_command U file cmd arg) Commands
                \<lparr>io_ret = - ENOTTY, io_handled = False, io_owner = owner, io_umem = u\<rparr>
      in (io_ret s, io_owner s, io_umem s))"

text \<open>
  The contract of an ioctl dispatcher: the first command with the number is served, and serving
  means copying the argument in if the direction says so, calling the handler once, and copying
  the result out if the direction says so and the handler returned 0.
\<close>

definition dir_in :: "IoctlDirection \<Rightarrow> bool" where
  "dir_in d \<longleftrightarrow> d \<in> {DIR_WRITE, DIR_READ_WRITE}"

definition dir_out :: "IoctlDirection \<Rightarrow> bool" where
  "dir_out d \<longleftrightarrow> d \<in> {DIR_READ, DIR_READ_WRITE}"

definition serve :: "uaccess \<Rightarrow> nat \<Rightarrow> nat \<Rightarrow> 'o IoctlCommand \<Rightarrow> 'o \<Rightarrow> umem \<Rightarrow> int \<times> 'o \<times> umem" where
  "serve U file arg C owner u =
     (let (fault, data) = (if dir_in (ic_direction C)
                           then (fst (ua_from U arg (replicate (ic_size C) 0) u) \<noteq> 0,
                                 snd (ua_from U arg (replicate (ic_size C) 0) u))
                           else (False, replicate (ic_size C) 0))
      in if fault then (- EFAULT, owner, u)
         else case ic_handle C file data owner of (ret, data', owner') \<Rightarrow>
           if dir_out (ic_direction C) \<and> ret = 0
           then (case ua_to U arg data' u of (left, u') \<Rightarrow>
                   (if left \<noteq> 0 then - EFAULT else 0, owner', u'))
           else (ret, owner', u))"

section \<open>FileOperations\<close>

text \<open>
  The virtual functions \<open>get_open\<close>, \<dots> of a class return member function pointers; the model of
  the dynamic type of an object is the table of what they return.  A callback works on the world
  \<open>'w\<close> (the owner and everything else); \<open>read\<close> and \<open>write\<close> also take the file offset and return
  the new one.
\<close>

record 'w vtable =
  vt_open :: "(nat \<Rightarrow> nat \<Rightarrow> 'w \<Rightarrow> int \<times> 'w) option"
  vt_release :: "(nat \<Rightarrow> nat \<Rightarrow> 'w \<Rightarrow> int \<times> 'w) option"
  vt_read :: "(nat \<Rightarrow> nat \<Rightarrow> c_ulong \<Rightarrow> c_ulong \<Rightarrow> 'w \<Rightarrow> int \<times> c_ulong \<times> 'w) option"
  vt_write :: "(nat \<Rightarrow> nat \<Rightarrow> c_ulong \<Rightarrow> c_ulong \<Rightarrow> 'w \<Rightarrow> int \<times> c_ulong \<times> 'w) option"
  vt_ioctl :: "(nat \<Rightarrow> nat \<Rightarrow> nat \<Rightarrow> 'w \<Rightarrow> int \<times> 'w) option"
  vt_poll :: "(nat \<Rightarrow> nat \<Rightarrow> 'w \<Rightarrow> nat \<times> 'w) option"

text \<open>The definitions of the base class: all return \<open>nullptr\<close>.\<close>

definition FileOperations_vtable :: "'w vtable" where
  "FileOperations_vtable = \<lparr>vt_open = None, vt_release = None, vt_read = None, vt_write = None,
     vt_ioctl = None, vt_poll = None\<rparr>"

text \<open>
  Which entries of \<open>struct file_operations\<close> point to a trampoline, and whether \<open>owner\<close> is the module.
\<close>

record fops_table =
  fop_owner :: bool
  fop_open :: bool
  fop_release :: bool
  fop_read :: bool
  fop_write :: bool
  fop_unlocked_ioctl :: bool
  fop_poll :: bool

record FileOperations =
  fo_fops :: fops_table
  fo_owner :: ptr

text \<open>
  While the constructor of the base class runs, the dynamic type of the object is the base
  class, whatever class \<open>derived\<close> is being constructed: the virtual calls in the constructor use
  \<open>FileOperations_vtable\<close>.
\<close>

definition vtable_during_base_ctor :: "'w vtable \<Rightarrow> 'w vtable" where
  "vtable_during_base_ctor derived = FileOperations_vtable"

definition FileOperations_ctor :: "'w vtable \<Rightarrow> ptr \<Rightarrow> FileOperations" where
  "FileOperations_ctor derived owner =
     (let vt = vtable_during_base_ctor derived
      in \<lparr>fo_fops = \<lparr>fop_owner = True, fop_open = vt_open vt \<noteq> None, fop_release = vt_release vt \<noteq> None,
             fop_read = vt_read vt \<noteq> None, fop_write = vt_write vt \<noteq> None,
             fop_unlocked_ioctl = vt_ioctl vt \<noteq> None, fop_poll = vt_poll vt \<noteq> None\<rparr>,
          fo_owner = owner\<rparr>)"

definition FileOperations_native_handle :: "FileOperations \<Rightarrow> fops_table" where
  "FileOperations_native_handle self = fo_fops self"

text \<open>
  The trampolines look the callback up in the object's final dynamic type \<open>vt\<close>.
  \<open>kpp_fops\<close> is \<open>f->f_op\<close>; \<open>None\<close> if that is null.
\<close>

definition open_trampoline ::
  "'w vtable \<Rightarrow> FileOperations option \<Rightarrow> nat \<Rightarrow> nat \<Rightarrow> 'w \<Rightarrow> int \<times> 'w" where
  "open_trampoline vt kpp_fops i f w =
     (case kpp_fops of
        Some fo \<Rightarrow> if fo_owner fo \<noteq> NULL
          then (case vt_open vt of Some func \<Rightarrow> func i f w | None \<Rightarrow> (0, w)) else (0, w)
      | None \<Rightarrow> (0, w))"

definition release_trampoline ::
  "'w vtable \<Rightarrow> FileOperations option \<Rightarrow> nat \<Rightarrow> nat \<Rightarrow> 'w \<Rightarrow> int \<times> 'w" where
  "release_trampoline vt kpp_fops i f w =
     (case kpp_fops of
        Some fo \<Rightarrow> if fo_owner fo \<noteq> NULL
          then (case vt_release vt of Some func \<Rightarrow> func i f w | None \<Rightarrow> (0, w)) else (0, w)
      | None \<Rightarrow> (0, w))"

definition read_trampoline ::
  "'w vtable \<Rightarrow> FileOperations option \<Rightarrow> nat \<Rightarrow> nat \<Rightarrow> c_ulong \<Rightarrow> c_ulong \<Rightarrow> 'w \<Rightarrow> int \<times> c_ulong \<times> 'w" where
  "read_trampoline vt kpp_fops f buf sz off w =
     (case kpp_fops of
        Some fo \<Rightarrow> if fo_owner fo \<noteq> NULL
          then (case vt_read vt of Some func \<Rightarrow> func f buf sz off w | None \<Rightarrow> (- EIO, off, w)) else (- EIO, off, w)
      | None \<Rightarrow> (- EIO, off, w))"

definition write_trampoline ::
  "'w vtable \<Rightarrow> FileOperations option \<Rightarrow> nat \<Rightarrow> nat \<Rightarrow> c_ulong \<Rightarrow> c_ulong \<Rightarrow> 'w \<Rightarrow> int \<times> c_ulong \<times> 'w" where
  "write_trampoline vt kpp_fops f buf sz off w =
     (case kpp_fops of
        Some fo \<Rightarrow> if fo_owner fo \<noteq> NULL
          then (case vt_write vt of Some func \<Rightarrow> func f buf sz off w | None \<Rightarrow> (- EIO, off, w)) else (- EIO, off, w)
      | None \<Rightarrow> (- EIO, off, w))"

definition ioctl_trampoline ::
  "'w vtable \<Rightarrow> FileOperations option \<Rightarrow> nat \<Rightarrow> nat \<Rightarrow> nat \<Rightarrow> 'w \<Rightarrow> int \<times> 'w" where
  "ioctl_trampoline vt kpp_fops f cmd arg w =
     (case kpp_fops of
        Some fo \<Rightarrow> if fo_owner fo \<noteq> NULL
          then (case vt_ioctl vt of Some func \<Rightarrow> func f cmd arg w | None \<Rightarrow> (- ENOTTY, w)) else (- ENOTTY, w)
      | None \<Rightarrow> (- ENOTTY, w))"

definition poll_trampoline ::
  "nat \<Rightarrow> 'w vtable \<Rightarrow> FileOperations option \<Rightarrow> nat \<Rightarrow> nat \<Rightarrow> 'w \<Rightarrow> nat \<times> 'w" where
  "poll_trampoline DEFAULT_POLLMASK vt kpp_fops f pt w =
     (case kpp_fops of
        Some fo \<Rightarrow> if fo_owner fo \<noteq> NULL
          then (case vt_poll vt of Some func \<Rightarrow> func f pt w | None \<Rightarrow> (DEFAULT_POLLMASK, w))
          else (DEFAULT_POLLMASK, w)
      | None \<Rightarrow> (DEFAULT_POLLMASK, w))"

section \<open>Lemmas\<close>

lemma uload_length [simp]: "length (uload a n u) = n"
  by (simp add: uload_def)

lemma uload_ustore [simp]: "uload a (length bs) (ustore a bs u) = bs"
  by (rule nth_equalityI) (auto simp: uload_def ustore_def)

lemma ustore_outside: "x < a \<or> a + length bs \<le> x \<Longrightarrow> ustore a bs u x = u x"
  by (auto simp: ustore_def)

lemma uload_take: "m \<le> n \<Longrightarrow> take m (uload a n u) = uload a m u"
  by (simp add: uload_def take_map)

lemma uaccess_ok_bounded: "uaccess_ok (bounded_uaccess lim)"
proof -
  have "take (lim - a) bs = bs" if "a + length bs \<le> max a lim" for a and bs :: "byte list"
    using that by (cases "a \<le> lim") auto
  moreover have "take (length bs) (uload a (lim - a) u @ replicate (length bs) 0) = uload a (length bs) u"
    if "a + length bs \<le> max a lim" for a u and bs :: "byte list"
    using that uload_take [of "length bs" "lim - a" a u] by (cases "a \<le> lim") auto
  ultimately show ?thesis
    by (auto simp: uaccess_ok_def bounded_uaccess_def min_def)
qed

lemma fold_handled: "io_handled s \<Longrightarrow> fold (process_command U file cmd arg) Cs s = s"
  by (induction Cs) (auto simp: process_command_def)

lemma process_command_serves:
  assumes "\<not> io_handled s" "ic_cmd C = cmd"
  shows "\<exists>s'. process_command U file cmd arg C s = s' \<and> io_handled s' \<and>
    (io_ret s', io_owner s', io_umem s') = serve U file arg C (io_owner s) (io_umem s)"
  using assms
  by (cases "ic_direction C")
    (auto simp: process_command_def serve_def dir_in_def dir_out_def kpp_copy_from_user_def
      kpp_copy_to_user_def Let_def case_prod_beta)

lemma handle_find:
  "IoctlHandler_handle U Cs file cmd arg owner u =
     (case find (\<lambda>C. ic_cmd C = cmd) Cs of
        None \<Rightarrow> (- ENOTTY, owner, u) | Some C \<Rightarrow> serve U file arg C owner u)"
proof -
  have "\<not> io_handled s \<Longrightarrow> (let s' = fold (process_command U file cmd arg) Cs s
      in (io_ret s', io_owner s', io_umem s')) =
      (case find (\<lambda>C. ic_cmd C = cmd) Cs of
         None \<Rightarrow> (io_ret s, io_owner s, io_umem s) | Some C \<Rightarrow> serve U file arg C (io_owner s) (io_umem s))" for s
  proof (induction Cs)
    case (Cons C Cs)
    show ?case
    proof (cases "ic_cmd C = cmd")
      case True
      with process_command_serves [OF Cons.prems True, of U "file" arg]
      show ?thesis
        by (auto simp: fold_handled)
    next
      case False
      with Cons show ?thesis by (simp add: process_command_def)
    qed
  qed simp
  then show ?thesis by (simp add: IoctlHandler_handle_def Let_def split: option.split)
qed

section \<open>Properties\<close>

text \<open>
  C14.  The fold over the command pack is a dispatcher: the first command with the requested
  number is served according to its direction, no other handler runs, and an unknown number
  gives \<open>-ENOTTY\<close> with the owner and user memory untouched.
\<close>

theorem IoctlHandler_dispatches:
  "IoctlHandler_handle U Cs file cmd arg owner u =
     (case find (\<lambda>C. ic_cmd C = cmd) Cs of
        None \<Rightarrow> (- ENOTTY, owner, u) | Some C \<Rightarrow> serve U file arg C owner u)"
  by (rule handle_find)

text \<open>
  An argument that cannot be read never reaches the handler: for a command that takes data
  from the user, a fault while copying in gives \<open>-EFAULT\<close> and leaves owner and user memory as
  they were.
\<close>

theorem IoctlHandler_fault_before_handler:
  assumes "find (\<lambda>C. ic_cmd C = cmd) Cs = Some C" "ic_direction C \<in> {DIR_WRITE, DIR_READ_WRITE}"
    and "fst (ua_from U arg (replicate (ic_size C) 0) u) \<noteq> 0"
  shows "IoctlHandler_handle U Cs file cmd arg owner u = (- EFAULT, owner, u)"
  using assms by (simp add: handle_find serve_def dir_in_def)

theorem IoctlHandler_fault_before_handler_witness:
  "IoctlHandler_handle (bounded_uaccess 100)
     [\<lparr>ic_cmd = 7, ic_direction = DIR_WRITE, ic_size = 4, ic_handle = \<lambda>f d n. (0, d, n + (1 :: nat))\<rparr>]
     3 7 98 0 (\<lambda>_. 0) = (- EFAULT, 0, \<lambda>_. 0)"
  by (rule IoctlHandler_fault_before_handler [where C = "\<lparr>ic_cmd = 7, ic_direction = DIR_WRITE, ic_size = 4,
    ic_handle = \<lambda>f d n. (0, d, n + (1 :: nat))\<rparr>"])
    (simp_all add: bounded_uaccess_def)

text \<open>
  C15.  Round trip through an ioctl: for a read-write command whose handler succeeds, the handler
  gets the user's bytes and the user finds the handler's result at the same address, the
  rest of user memory being unchanged.
\<close>

theorem IoctlHandler_read_write_roundtrip:
  assumes "uaccess_ok U" "find (\<lambda>C. ic_cmd C = cmd) Cs = Some C" "ic_direction C = DIR_READ_WRITE"
    and "fst (ua_from U arg (replicate (ic_size C) 0) u) = 0"
    and "ic_handle C file (uload arg (ic_size C) u) owner = (0, data, owner')"
    and "fst (ua_to U arg data u) = 0"
  shows "\<exists>u'. IoctlHandler_handle U Cs file cmd arg owner u = (0, owner', u') \<and>
    uload arg (length data) u' = data \<and> (\<forall>x. x < arg \<or> arg + length data \<le> x \<longrightarrow> u' x = u x)"
proof -
  from assms(1,4) have "snd (ua_from U arg (replicate (ic_size C) 0) u) = uload arg (ic_size C) u"
    by (simp add: uaccess_ok_def)
  moreover from assms(1,6) have "ua_to U arg data u = (0, ustore arg data u)"
    by (metis uaccess_ok_def prod.collapse)
  ultimately have "IoctlHandler_handle U Cs file cmd arg owner u = (0, owner', ustore arg data u)"
    using assms by (simp add: handle_find serve_def dir_in_def dir_out_def)
  then show ?thesis by (auto intro!: exI [of _ "ustore arg data u"] simp: ustore_outside)
qed

theorem IoctlHandler_read_write_roundtrip_witness:
  "\<exists>u'. IoctlHandler_handle (bounded_uaccess 100)
     [\<lparr>ic_cmd = 7, ic_direction = DIR_READ_WRITE, ic_size = 2, ic_handle = \<lambda>f d n. (0, rev d, n + (1 :: nat))\<rparr>]
     3 7 40 0 (\<lambda>x. if x = 40 then 1 else 2) = (0, 1, u') \<and> uload 40 2 u' = [2, 1]"
proof -
  let ?C = "\<lparr>ic_cmd = 7, ic_direction = DIR_READ_WRITE, ic_size = 2,
    ic_handle = \<lambda>f d n. (0, rev d, n + (1 :: nat))\<rparr>"
  let ?u = "\<lambda>x. if x = 40 then 1 else 2 :: byte"
  have l: "uload 40 2 ?u = [1, 2]" by (simp add: uload_def upt_rec)
  have "\<exists>u'. IoctlHandler_handle (bounded_uaccess 100) [?C] 3 7 40 0 ?u = (0, 1, u') \<and>
      uload 40 (length [2, 1 :: byte]) u' = [2, 1] \<and> (\<forall>x. x < 40 \<or> 40 + length [2, 1 :: byte] \<le> x \<longrightarrow> u' x = ?u x)"
    by (rule IoctlHandler_read_write_roundtrip [OF uaccess_ok_bounded, where C = ?C])
      (simp_all add: l, simp_all add: bounded_uaccess_def)
  then show ?thesis by (auto simp: numeral_2_eq_2)
qed

text \<open>
  No class derived from \<open>FileOperations\<close> gets its callbacks installed: the constructor asks
  the virtual functions while the object is still a plain \<open>FileOperations\<close>, so every entry of
  the operations table is null, whatever the derived class overrides.
\<close>

theorem FileOperations_installs_nothing:
  "fo_fops (FileOperations_ctor derived owner) =
     \<lparr>fop_owner = True, fop_open = False, fop_release = False, fop_read = False, fop_write = False,
      fop_unlocked_ioctl = False, fop_poll = False\<rparr>"
  by (simp add: FileOperations_ctor_def vtable_during_base_ctor_def FileOperations_vtable_def)

text \<open>
  The trampolines of a live object with an owner call exactly the override of the final class,
  and fall back to their documented default codes where the class has none; without an owner no
  callback runs.
\<close>

theorem trampolines_dispatch:
  assumes "fo_owner fo \<noteq> NULL"
  shows "open_trampoline vt (Some fo) i f w = (case vt_open vt of Some g \<Rightarrow> g i f w | None \<Rightarrow> (0, w)) \<and>
    release_trampoline vt (Some fo) i f w = (case vt_release vt of Some g \<Rightarrow> g i f w | None \<Rightarrow> (0, w)) \<and>
    read_trampoline vt (Some fo) f buf n off w =
      (case vt_read vt of Some g \<Rightarrow> g f buf n off w | None \<Rightarrow> (- EIO, off, w)) \<and>
    write_trampoline vt (Some fo) f buf n off w =
      (case vt_write vt of Some g \<Rightarrow> g f buf n off w | None \<Rightarrow> (- EIO, off, w)) \<and>
    ioctl_trampoline vt (Some fo) f cmd arg w =
      (case vt_ioctl vt of Some g \<Rightarrow> g f cmd arg w | None \<Rightarrow> (- ENOTTY, w)) \<and>
    read_trampoline vt (Some (fo\<lparr>fo_owner := NULL\<rparr>)) f buf n off w = (- EIO, off, w) \<and>
    write_trampoline vt (Some (fo\<lparr>fo_owner := NULL\<rparr>)) f buf n off w = (- EIO, off, w)"
  using assms
  by (simp add: open_trampoline_def release_trampoline_def read_trampoline_def write_trampoline_def
      ioctl_trampoline_def)

theorem trampolines_dispatch_witness:
  "open_trampoline (FileOperations_vtable\<lparr>vt_open := Some (\<lambda>i f w. (- 16, w + (1 :: nat)))\<rparr>)
     (Some (FileOperations_ctor FileOperations_vtable (Ptr 1))) 2 3 0 = (- 16, 1)"
proof -
  have "fo_owner (FileOperations_ctor FileOperations_vtable (Ptr 1)) \<noteq> NULL"
    by (simp add: FileOperations_ctor_def Let_def)
  from trampolines_dispatch [OF this, of
      "FileOperations_vtable\<lparr>vt_open := Some (\<lambda>i f w. (- 16, w + (1 :: nat)))\<rparr>" 2 3 0 0 0 0 0 0]
  show ?thesis by (elim conjE) simp
qed

end
