(* ===== verification/Kpp_StringView.thy ===== *)
theory Kpp_StringView
  imports Kpp_Prelude
begin

text \<open>
  \<^verbatim>\<open>core/StringView.hpp\<close> and \<^verbatim>\<open>core/ModuleParam.hpp\<close>.

  A \<open>const char*\<close> is modelled by the characters that can be read from it on, to the end of the
  object it points into; the null pointer is \<open>None\<close>.  A function that would read past that end,
  or through the null pointer, returns \<open>None\<close>.

  This says nothing of how long the characters stay there: \<open>StringView_cstr\<close> keeps them, where the class
  keeps their address.  What is proved here holds while the strings the views were made from are
  not freed or overwritten; \<^verbatim>\<open>Kpp_Param\<close> has the views with their addresses and the lifetime of the
  buffers.
\<close>

section \<open>The C string functions the class uses\<close>

abbreviation NUL :: char where "NUL \<equiv> CHR 0x00"

fun strlen :: "char list \<Rightarrow> nat option" where
  "strlen [] = None"
| "strlen (c # m) = (if c = NUL then Some 0 else map_option Suc (strlen m))"

text \<open>
  \<open>strncmp\<close> of the C standard: at most \<open>n\<close> characters are compared, as unsigned characters, and
  the comparison stops behind a NUL.
\<close>

fun strncmp :: "char list option \<Rightarrow> char list option \<Rightarrow> nat \<Rightarrow> int option" where
  "strncmp a b 0 = Some 0"
| "strncmp (Some (x # xs)) (Some (y # ys)) (Suc n) =
     (if x \<noteq> y then Some (of_char x - of_char y)
      else if x = NUL then Some 0
      else strncmp (Some xs) (Some ys) n)"
| "strncmp a b (Suc n) = None"

text \<open>
  \<open>strncpy\<close>: copies \<open>n\<close> characters to the start of the buffer, and pads with NUL behind a NUL of
  the source.  \<open>strncpy_chars\<close> gives the \<open>n\<close> characters written.
\<close>

fun strncpy_chars :: "char list \<Rightarrow> nat \<Rightarrow> char list option" where
  "strncpy_chars src 0 = Some []"
| "strncpy_chars (c # src) (Suc n) =
     (if c = NUL then Some (replicate (Suc n) NUL) else map_option ((#) c) (strncpy_chars src n))"
| "strncpy_chars [] (Suc n) = None"

definition strncpy :: "char list \<Rightarrow> char list option \<Rightarrow> nat \<Rightarrow> char list option" where
  "strncpy dst src n =
     (if n = 0 then Some dst
      else case src of
        None \<Rightarrow> None
      | Some m \<Rightarrow> (case strncpy_chars m n of
          None \<Rightarrow> None
        | Some cs \<Rightarrow> if n \<le> length dst then Some (cs @ drop n dst) else None))"

section \<open>StringView\<close>

record StringView =
  sv_data :: "char list option"
  sv_size :: nat

definition StringView_default :: StringView where
  "StringView_default = \<lparr>sv_data = None, sv_size = 0\<rparr>"

definition StringView_count :: "char list option \<Rightarrow> nat \<Rightarrow> StringView" where
  "StringView_count s count = \<lparr>sv_data = s, sv_size = count\<rparr>"

definition StringView_cstr :: "char list option \<Rightarrow> StringView option" where
  "StringView_cstr s =
     (case s of
        None \<Rightarrow> Some \<lparr>sv_data = None, sv_size = 0\<rparr>
      | Some m \<Rightarrow> map_option (\<lambda>n. \<lparr>sv_data = s, sv_size = n\<rparr>) (strlen m))"

definition StringView_data :: "StringView \<Rightarrow> char list option" where
  "StringView_data self = sv_data self"

definition StringView_size :: "StringView \<Rightarrow> nat" where
  "StringView_size self = sv_size self"

definition StringView_empty :: "StringView \<Rightarrow> bool" where
  "StringView_empty self \<longleftrightarrow> sv_size self = 0"

definition StringView_at :: "StringView \<Rightarrow> nat \<Rightarrow> char option" where
  "StringView_at self pos =
     (case sv_data self of None \<Rightarrow> None | Some m \<Rightarrow> if pos < length m then Some (m ! pos) else None)"

definition StringView_eq :: "StringView \<Rightarrow> StringView \<Rightarrow> bool option" where
  "StringView_eq lhs rhs =
     (if sv_size lhs = sv_size rhs
      then map_option (\<lambda>c. c = 0) (strncmp (sv_data lhs) (sv_data rhs) (sv_size lhs))
      else Some False)"

definition StringView_neq :: "StringView \<Rightarrow> StringView \<Rightarrow> bool option" where
  "StringView_neq lhs rhs = map_option Not (StringView_eq lhs rhs)"

section \<open>Module parameters\<close>

text \<open>
  \<open>kp->arg\<close> points to a \<open>StringView\<close>: the set callback returns the new view with its return
  code, the get callback writes into the buffer the kernel gave it.
\<close>

definition param_set_string :: "char list option \<Rightarrow> StringView \<Rightarrow> (int \<times> StringView) option" where
  "param_set_string val sv = map_option (\<lambda>sv'. (0, sv')) (StringView_cstr val)"

definition param_get_string :: "char list \<Rightarrow> StringView \<Rightarrow> (int \<times> char list) option" where
  "param_get_string buffer sv =
     (case strncpy buffer (sv_data sv) (sv_size sv) of
        None \<Rightarrow> None
      | Some b \<Rightarrow> if sv_size sv < length b
                  then Some (int (sv_size sv), b[sv_size sv := NUL]) else None)"

text \<open>
  \<open>struct kernel_param\<close> holds the callbacks and the address of the view they work on.  A
  \<open>StringParam\<close> at address \<open>this\<close> enters its own member \<open>sv_\<close>, which is at offset 0, and registers it
  with \<open>module_param_cb\<close>.
\<close>

record kernel_param_ops =
  kpo_set :: "char list option \<Rightarrow> StringView \<Rightarrow> (int \<times> StringView) option"
  kpo_get :: "char list \<Rightarrow> StringView \<Rightarrow> (int \<times> char list) option"

definition string_view_ops :: kernel_param_ops where
  "string_view_ops = \<lparr>kpo_set = param_set_string, kpo_get = param_get_string\<rparr>"

record kernel_param =
  kp_name :: cstr
  kp_ops :: kernel_param_ops
  kp_arg :: oid
  kp_perm :: nat

record StringParam =
  spm_sv :: StringView
  spm_kp :: kernel_param

definition StringParam_ctor :: "oid \<Rightarrow> cstr \<Rightarrow> nat \<Rightarrow> trace \<Rightarrow> StringParam \<times> trace" where
  "StringParam_ctor this name perm tr =
     (\<lparr>spm_sv = StringView_default,
       spm_kp = \<lparr>kp_name = name, kp_ops = string_view_ops, kp_arg = this, kp_perm = perm\<rparr>\<rparr>,
      tr @ [Obj (Module_param_cb name this perm)])"

definition StringParam_value :: "StringParam \<Rightarrow> StringView" where
  "StringParam_value self = spm_sv self"

text \<open>
  The kernel writes and reads the parameters through their registered callbacks, on the view whose
  address is \<open>kp_arg\<close>.  The store holds the parameters of a module by address.
\<close>

definition param_write ::
  "oid \<Rightarrow> char list option \<Rightarrow> (oid \<Rightarrow> StringParam) \<Rightarrow> (int \<times> (oid \<Rightarrow> StringParam)) option" where
  "param_write x val s =
     (let kp = spm_kp (s x)
      in map_option (\<lambda>(rc, sv). (rc, s(kp_arg kp := (s (kp_arg kp))\<lparr>spm_sv := sv\<rparr>)))
           (kpo_set (kp_ops kp) val (spm_sv (s (kp_arg kp)))))"

definition param_read :: "oid \<Rightarrow> char list \<Rightarrow> (oid \<Rightarrow> StringParam) \<Rightarrow> (int \<times> char list) option" where
  "param_read x buffer s =
     (let kp = spm_kp (s x) in kpo_get (kp_ops kp) buffer (spm_sv (s (kp_arg kp))))"

text \<open>A module with a list of parameters (address, name, permissions), and a list of writes.\<close>

fun params_ctor :: "(oid \<times> cstr \<times> nat) list \<Rightarrow> (oid \<Rightarrow> StringParam) \<Rightarrow> trace \<Rightarrow> (oid \<Rightarrow> StringParam) \<times> trace" where
  "params_ctor [] s tr = (s, tr)"
| "params_ctor ((x, name, perm) # ps) s tr =
     (let (p, tr1) = StringParam_ctor x name perm tr in params_ctor ps (s(x := p)) tr1)"

fun param_writes :: "(oid \<times> string) list \<Rightarrow> (oid \<Rightarrow> StringParam) \<Rightarrow> (oid \<Rightarrow> StringParam) option" where
  "param_writes [] s = Some s"
| "param_writes ((x, w) # ws) s =
     (case param_write x (Some (w @ [NUL])) s of
        None \<Rightarrow> None
      | Some (rc, s1) \<Rightarrow> if rc = 0 then param_writes ws s1 else None)"

section \<open>Well-formed views\<close>

text \<open>The characters a view stands for, and when all of them can be read.\<close>

definition sv_chars :: "StringView \<Rightarrow> char list" where
  "sv_chars v = (case sv_data v of None \<Rightarrow> [] | Some m \<Rightarrow> take (sv_size v) m)"

definition sv_wf :: "StringView \<Rightarrow> bool" where
  "sv_wf v \<longleftrightarrow> (case sv_data v of None \<Rightarrow> sv_size v = 0 | Some m \<Rightarrow> sv_size v \<le> length m)"

lemma strlen_Some: "strlen m = Some n \<longleftrightarrow> n < length m \<and> m ! n = NUL \<and> NUL \<notin> set (take n m)"
proof (induction m arbitrary: n)
  case (Cons c m)
  show ?case by (cases n) (auto simp: Cons.IH)
qed simp

lemma strlen_append: "NUL \<notin> set xs \<Longrightarrow> strlen (xs @ NUL # m) = Some (length xs)"
  by (induction xs) auto

lemma of_char_int_eq: "(of_char x - of_char y = (0 :: int)) \<longleftrightarrow> x = y"
  by simp

lemma strncmp_zero:
  assumes "n \<le> length xs" "n \<le> length ys"
  shows "\<exists>c. strncmp (Some xs) (Some ys) n = Some c \<and>
    (c = 0 \<longleftrightarrow> takeWhile (\<lambda>c. c \<noteq> NUL) (take n xs) = takeWhile (\<lambda>c. c \<noteq> NUL) (take n ys))"
  using assms
proof (induction n arbitrary: xs ys)
  case (Suc n)
  then obtain x xs' y ys' where "xs = x # xs'" "ys = y # ys'"
    by (metis Suc_le_length_iff)
  with Suc show ?case by (auto simp: of_char_int_eq)
qed simp

lemma takeWhile_no_NUL: "NUL \<notin> set xs \<Longrightarrow> takeWhile (\<lambda>c. c \<noteq> NUL) xs = xs"
  by (simp add: takeWhile_eq_all_conv) metis

lemma StringView_eq_total:
  assumes "sv_wf l" "sv_wf r"
  shows "StringView_eq l r = Some (sv_size l = sv_size r \<and>
    takeWhile (\<lambda>c. c \<noteq> NUL) (sv_chars l) = takeWhile (\<lambda>c. c \<noteq> NUL) (sv_chars r))"
proof (cases "sv_size l = sv_size r")
  case True
  show ?thesis
  proof (cases "sv_data l = None \<or> sv_data r = None")
    case True
    with assms \<open>sv_size l = sv_size r\<close> have "sv_size l = 0" "sv_size r = 0"
      by (auto simp: sv_wf_def)
    then show ?thesis by (simp add: StringView_eq_def sv_chars_def split: option.splits)
  next
    case False
    then obtain xs ys where "sv_data l = Some xs" "sv_data r = Some ys" by auto
    with assms \<open>sv_size l = sv_size r\<close> strncmp_zero [of "sv_size r" xs ys] show ?thesis
      by (auto simp: StringView_eq_def sv_wf_def sv_chars_def)
  qed
qed (simp add: StringView_eq_def)

lemma strncpy_chars_take:
  "n \<le> length m \<Longrightarrow> NUL \<notin> set (take n m) \<Longrightarrow> strncpy_chars m n = Some (take n m)"
proof (induction m n rule: strncpy_chars.induct)
  case (2 c src n)
  then show ?case by auto
qed simp_all

lemma sv_chars_length: "sv_wf v \<Longrightarrow> length (sv_chars v) = sv_size v"
  by (auto simp: sv_wf_def sv_chars_def split: option.splits)

lemma param_get_string_cstr:
  assumes "NUL \<notin> set xs"
  shows "param_get_string buf \<lparr>sv_data = Some (xs @ NUL # m), sv_size = length xs\<rparr> =
    (if length xs < length buf
     then Some (int (length xs), xs @ NUL # drop (Suc (length xs)) buf) else None)"
proof -
  have "strncpy_chars (xs @ NUL # m) (length xs) = Some xs"
    using strncpy_chars_take [of "length xs" "xs @ NUL # m"] assms by simp
  then show ?thesis
    by (auto simp: param_get_string_def strncpy_def list_update_append Cons_nth_drop_Suc [symmetric]
        neq_Nil_conv)
qed

text \<open>
  Parameters in order: each has the callbacks of a \<open>StringParam\<close> and works on its own view, which is
  default-constructed or shows a C string; the strings are \<open>V\<close>.
\<close>

definition the_default :: "'a \<Rightarrow> 'a option \<Rightarrow> 'a" where
  "the_default d o' = (case o' of None \<Rightarrow> d | Some a \<Rightarrow> a)"

definition sv_shows :: "string \<Rightarrow> StringView \<Rightarrow> bool" where
  "sv_shows v sv \<longleftrightarrow> NUL \<notin> set v \<and> (v = [] \<and> sv = StringView_default \<or> sv = \<lparr>sv_data = Some (v @ [NUL]), sv_size = length v\<rparr>)"

definition params_ok :: "oid set \<Rightarrow> (oid \<Rightarrow> string) \<Rightarrow> (oid \<Rightarrow> StringParam) \<Rightarrow> bool" where
  "params_ok X V s \<longleftrightarrow> (\<forall>x\<in>X. kp_ops (spm_kp (s x)) = string_view_ops \<and> kp_arg (spm_kp (s x)) = x \<and> sv_shows (V x) (spm_sv (s x)))"

lemma param_get_string_shows:
  assumes "sv_shows v sv"
  shows "param_get_string buf sv = (if length v < length buf
    then Some (int (length v), v @ NUL # drop (Suc (length v)) buf) else None)"
proof (cases "sv = StringView_default")
  case True
  with assms have "v = []" by (auto simp: sv_shows_def StringView_default_def)
  with True show ?thesis
    by (cases buf) (simp_all add: StringView_default_def param_get_string_def strncpy_def)
next
  case False
  with assms param_get_string_cstr [of v buf "[]"] show ?thesis by (auto simp: sv_shows_def)
qed

lemma sv_chars_shows: "sv_shows v sv \<Longrightarrow> sv_chars sv = v"
  by (auto simp: sv_shows_def sv_chars_def StringView_default_def)

lemma params_ok_read:
  "params_ok X V s \<Longrightarrow> x \<in> X \<Longrightarrow>
     param_read x buf s = (if length (V x) < length buf
       then Some (int (length (V x)), V x @ NUL # drop (Suc (length (V x))) buf) else None) \<and>
     sv_chars (StringParam_value (s x)) = V x"
  by (auto simp: params_ok_def param_read_def string_view_ops_def StringParam_value_def Let_def
      param_get_string_shows sv_chars_shows)

lemma param_write_ok:
  assumes "params_ok X V s" "x \<in> X" "NUL \<notin> set w"
  shows "\<exists>s'. param_write x (Some (w @ [NUL])) s = Some (0, s') \<and> params_ok X (V(x := w)) s'"
proof -
  have "strlen (w @ [NUL]) = Some (length w)" using strlen_append [OF assms(3), of "[]"] by simp
  with assms show ?thesis
    by (auto simp: params_ok_def param_write_def string_view_ops_def param_set_string_def StringView_cstr_def
        sv_shows_def Let_def)
qed

lemma param_writes_ok:
  assumes "params_ok X V s" "\<forall>w\<in>set ws. fst w \<in> X \<and> NUL \<notin> set (snd w)"
  shows "\<exists>s'. param_writes ws s = Some s' \<and> params_ok X (\<lambda>y. the_default (V y) (map_of (rev ws) y)) s'"
  using assms
proof (induction ws arbitrary: V s)
  case Nil
  then show ?case by (simp add: the_default_def)
next
  case (Cons w ws)
  obtain x v where w: "w = (x, v)" by (cases w)
  from param_write_ok [OF Cons.prems(1), of x v] Cons.prems(2) w obtain s1 where
    s1: "param_write x (Some (v @ [NUL])) s = Some (0, s1)" "params_ok X (V(x := v)) s1" by auto
  have "(\<lambda>y. the_default ((V(x := v)) y) (map_of (rev ws) y)) = (\<lambda>y. the_default (V y) (map_of (rev (w # ws)) y))"
    by (auto simp: w the_default_def map_add_def split: option.splits)
  with Cons.IH [OF s1(2)] Cons.prems(2) s1(1) w show ?case by auto
qed

lemma params_ctor_ok_aux:
  "params_ctor ps s tr = (s', tr') \<Longrightarrow> params_ok X (\<lambda>_. []) s \<Longrightarrow> params_ok (X \<union> set (map fst ps)) (\<lambda>_. []) s'"
proof (induction ps arbitrary: s tr X)
  case (Cons q ps)
  obtain x name perm where q: "q = (x, name, perm)" by (cases q)
  let ?p = "fst (StringParam_ctor x name perm tr)"
  have "params_ok (insert x X) (\<lambda>_. []) (s(x := ?p))"
    using Cons.prems(2) by (auto simp: params_ok_def StringParam_ctor_def sv_shows_def)
  moreover have "params_ctor ps (s(x := ?p)) (snd (StringParam_ctor x name perm tr)) = (s', tr')"
    using Cons.prems(1) q by (simp add: case_prod_beta)
  ultimately have "params_ok (insert x X \<union> set (map fst ps)) (\<lambda>_. []) s'" by (rule Cons.IH [rotated])
  with q show ?case by simp
qed simp

lemma params_ctor_ok: "params_ctor ps s tr = (s', tr') \<Longrightarrow> params_ok (set (map fst ps)) (\<lambda>_. []) s'"
  using params_ctor_ok_aux [of ps s tr s' tr' "{}"] by (simp add: params_ok_def)

section \<open>Properties\<close>

text \<open>
  Equality of two well-formed views without embedded NUL characters is equality of the
  strings they show, and the comparison never reads out of range.
\<close>

theorem StringView_eq_is_string_equality:
  assumes "sv_wf l" "sv_wf r" "NUL \<notin> set (sv_chars l)" "NUL \<notin> set (sv_chars r)"
  shows "StringView_eq l r = Some (sv_chars l = sv_chars r) \<and>
         StringView_neq l r = Some (sv_chars l \<noteq> sv_chars r)"
proof -
  have "sv_chars l = sv_chars r \<Longrightarrow> sv_size l = sv_size r"
    using assms sv_chars_length by metis
  then show ?thesis
    using assms by (auto simp: StringView_eq_total StringView_neq_def takeWhile_no_NUL)
qed

theorem StringView_eq_is_string_equality_witness:
  "StringView_eq (StringView_count (Some ''abc'') 2) (StringView_count (Some ''abd'') 2) = Some True"
  using StringView_eq_is_string_equality
    [of "StringView_count (Some ''abc'') 2" "StringView_count (Some ''abd'') 2"]
  by (simp add: StringView_count_def sv_wf_def sv_chars_def)

text \<open>
  The general law: two views compare equal exactly when their sizes agree and they agree up
  to the first NUL.  What a view holds behind an embedded NUL is ignored.
\<close>

theorem StringView_eq_up_to_NUL:
  assumes "sv_wf l" "sv_wf r"
  shows "StringView_eq l r = Some (sv_size l = sv_size r \<and>
    takeWhile (\<lambda>c. c \<noteq> NUL) (sv_chars l) = takeWhile (\<lambda>c. c \<noteq> NUL) (sv_chars r))"
  using assms by (rule StringView_eq_total)

theorem StringView_eq_up_to_NUL_witness:
  "StringView_eq (StringView_count (Some [CHR ''a'', NUL, CHR ''b'']) 3)
                 (StringView_count (Some [CHR ''a'', NUL, CHR ''c'']) 3) = Some True"
  using StringView_eq_up_to_NUL [of "StringView_count (Some [CHR ''a'', NUL, CHR ''b'']) 3"
      "StringView_count (Some [CHR ''a'', NUL, CHR ''c'']) 3"]
  by (simp add: StringView_count_def sv_wf_def sv_chars_def)

text \<open>
  Parameters of a module whose strings all stay where they were (as those of the boot command line
  do).  Then after any sequence of writes, reading a parameter gives the last string written to it (the
  empty view before the first write), NUL-terminated, with its length as the result and the rest of
  the buffer untouched, if the string is shorter than the buffer, which the callback does not check;
  and writes to one parameter never show in another.
\<close>

theorem StringParam_keeps_last_write:
  assumes "\<forall>w\<in>set ws. fst w \<in> set (map fst ps) \<and> NUL \<notin> set (snd w)"
    and "params_ctor ps s0 tr = (s, tr')" "x \<in> set (map fst ps)"
  shows "\<exists>s'. param_writes ws s = Some s' \<and>
    (let v = the_default [] (map_of (rev ws) x)
     in param_read x buf s' = (if length v < length buf
          then Some (int (length v), v @ NUL # drop (Suc (length v)) buf) else None) \<and>
        sv_chars (StringParam_value (s' x)) = v)"
proof -
  from params_ctor_ok [OF assms(2)] have ok: "params_ok (set (map fst ps)) (\<lambda>_. []) s" by simp
  from param_writes_ok [OF this, of ws] assms(1) obtain s' where
    s': "param_writes ws s = Some s'" "params_ok (set (map fst ps)) (\<lambda>y. the_default [] (map_of (rev ws) y)) s'"
    by auto
  with params_ok_read [OF s'(2) assms(3), of buf] show ?thesis by (auto simp: Let_def)
qed

theorem StringParam_keeps_last_write_witness:
  "\<exists>s'. param_writes [(0, ''eth0''), (64, ''x''), (0, ''lo'')]
       (fst (params_ctor [(0, Some ''dev'', 420), (64, None, 0)] (\<lambda>_. fst (StringParam_ctor 9 None 0 [])) [])) = Some s' \<and>
     param_read 0 ''......'' s' = Some (2, ''lo'' @ NUL # ''...'')"
proof -
  let ?ps = "[(0 :: oid, Some ''dev'', 420), (64, None, 0)]"
  let ?ws = "[(0 :: oid, ''eth0''), (64, ''x''), (0, ''lo'')]"
  obtain s tr where c: "params_ctor ?ps (\<lambda>_. fst (StringParam_ctor 9 None 0 [])) [] = (s, tr)" by (cases "params_ctor ?ps (\<lambda>_. fst (StringParam_ctor 9 None 0 [])) []")
  have "\<forall>w\<in>set ?ws. fst w \<in> set (map fst ?ps) \<and> NUL \<notin> set (snd w)"
    "0 \<in> set (map fst ?ps)" by simp_all
  from StringParam_keeps_last_write [OF this(1) c this(2), of "''......''"] c show ?thesis
    by (auto simp: the_default_def)
qed

end
