(* ===== verification/Kpp_Devmodel.thy ===== *)
theory Kpp_Devmodel
  imports Kpp_Handle Kpp_StringView
begin

text \<open>
  The driver model and debugfs: \<^verbatim>\<open>core/Kset.hpp\<close>, \<^verbatim>\<open>core/KObject.hpp\<close>, \<^verbatim>\<open>vfs/DeviceClass.hpp\<close>,
  \<^verbatim>\<open>debug/DebugFS.hpp\<close>, \<^verbatim>\<open>vfs/Device.hpp\<close> and \<^verbatim>\<open>vfs/CharDevice.hpp\<close>.

  \<open>KSet\<close>, \<open>DeviceClass\<close> and \<open>Dentry\<close> are owning handles: they interpret the locale
  \<open>owning_handle\<close>.  \<open>Device\<close> and \<open>CharDevice\<close> can be neither copied nor moved; a client constructs
  them, uses them and destroys them.
\<close>

section \<open>KSet\<close>

text \<open>\<^verbatim>\<open>core/Kset.hpp\<close>: a kset, unregistered on destruction.\<close>

record KSet = KSet_kset :: ptr

text \<open>\<open>create\<close> is \<open>kset_create_and_add\<close>.\<close>

definition KSet_ctor :: "(trace \<Rightarrow> cstr \<Rightarrow> ptr \<Rightarrow> ptr) \<Rightarrow> cstr \<Rightarrow> ptr \<Rightarrow> trace \<Rightarrow> KSet \<times> trace" where
  "KSet_ctor create name parent_kobj tr =
     (\<lparr>KSet_kset = create tr name parent_kobj\<rparr>, tr @ [Dev (Kset_create_and_add name parent_kobj)])"

definition KSet_dtor :: "KSet \<Rightarrow> trace \<Rightarrow> trace" where
  "KSet_dtor self tr =
     (if KSet_kset self \<noteq> NULL then tr @ [Dev (Kset_unregister (KSet_kset self))] else tr)"

definition KSet_move_ctor :: "oid \<Rightarrow> oid \<Rightarrow> (oid \<Rightarrow> KSet) \<Rightarrow> (oid \<Rightarrow> KSet)" where
  "KSet_move_ctor this other s =
     (let s1 = s(this := \<lparr>KSet_kset = KSet_kset (s other)\<rparr>)
      in s1(other := (s1 other)\<lparr>KSet_kset := NULL\<rparr>))"

definition KSet_move_assign :: "oid \<Rightarrow> oid \<Rightarrow> (oid \<Rightarrow> KSet) \<times> trace \<Rightarrow> (oid \<Rightarrow> KSet) \<times> trace" where
  "KSet_move_assign this other st =
     (let (s, tr) = st in
      if this \<noteq> other then
        let tr1 = (if KSet_kset (s this) \<noteq> NULL then tr @ [Dev (Kset_unregister (KSet_kset (s this)))] else tr);
            s1 = s(this := (s this)\<lparr>KSet_kset := KSet_kset (s other)\<rparr>);
            s2 = s1(other := (s1 other)\<lparr>KSet_kset := NULL\<rparr>)
        in (s2, tr1)
      else (s, tr))"

definition KSet_native_handle :: "KSet \<Rightarrow> ptr" where
  "KSet_native_handle self = KSet_kset self"

definition KSet_bool :: "KSet \<Rightarrow> bool" where
  "KSet_bool self \<longleftrightarrow> KSet_kset self \<noteq> NULL"

text \<open>\<open>kobj_of p\<close> is the address of the \<open>kobj\<close> member of the kset at \<open>p\<close>.\<close>

definition KSet_kobj :: "(ptr \<Rightarrow> ptr) \<Rightarrow> KSet \<Rightarrow> ptr" where
  "KSet_kobj kobj_of self = (if KSet_kset self \<noteq> NULL then kobj_of (KSet_kset self) else NULL)"

section \<open>DeviceClass\<close>

text \<open>\<^verbatim>\<open>vfs/DeviceClass.hpp\<close>: a device class.\<close>

record DeviceClass = DeviceClass_class :: ptr

definition DeviceClass_ctor :: "(trace \<Rightarrow> cstr \<Rightarrow> ptr) \<Rightarrow> StringView \<Rightarrow> trace \<Rightarrow> DeviceClass \<times> trace" where
  "DeviceClass_ctor class_create name tr =
     (\<lparr>DeviceClass_class = class_create tr (sv_data name)\<rparr>, tr @ [Dev (Class_create (sv_data name))])"

definition DeviceClass_dtor :: "DeviceClass \<Rightarrow> trace \<Rightarrow> trace" where
  "DeviceClass_dtor self tr =
     (if DeviceClass_class self \<noteq> NULL then tr @ [Dev (Class_destroy (DeviceClass_class self))] else tr)"

definition DeviceClass_move_ctor :: "oid \<Rightarrow> oid \<Rightarrow> (oid \<Rightarrow> DeviceClass) \<Rightarrow> (oid \<Rightarrow> DeviceClass)" where
  "DeviceClass_move_ctor this other s =
     (let s1 = s(this := \<lparr>DeviceClass_class = DeviceClass_class (s other)\<rparr>)
      in s1(other := (s1 other)\<lparr>DeviceClass_class := NULL\<rparr>))"

definition DeviceClass_move_assign :: "oid \<Rightarrow> oid \<Rightarrow> (oid \<Rightarrow> DeviceClass) \<times> trace \<Rightarrow> (oid \<Rightarrow> DeviceClass) \<times> trace" where
  "DeviceClass_move_assign this other st =
     (let (s, tr) = st in
      if this \<noteq> other then
        let tr1 = (if DeviceClass_class (s this) \<noteq> NULL then tr @ [Dev (Class_destroy (DeviceClass_class (s this)))] else tr);
            s1 = s(this := (s this)\<lparr>DeviceClass_class := DeviceClass_class (s other)\<rparr>);
            s2 = s1(other := (s1 other)\<lparr>DeviceClass_class := NULL\<rparr>)
        in (s2, tr1)
      else (s, tr))"

definition DeviceClass_native_handle :: "DeviceClass \<Rightarrow> ptr" where
  "DeviceClass_native_handle self = DeviceClass_class self"

definition DeviceClass_bool :: "DeviceClass \<Rightarrow> bool" where
  "DeviceClass_bool self \<longleftrightarrow> DeviceClass_class self \<noteq> NULL \<and> \<not> IS_ERR (DeviceClass_class self)"

section \<open>debugfs entries\<close>

text \<open>\<^verbatim>\<open>debug/DebugFS.hpp\<close>: a debugfs entry, removed with everything below it.\<close>

record Dentry = Dentry_dentry :: ptr

definition Dentry_ctor :: "ptr \<Rightarrow> Dentry" where
  "Dentry_ctor p = \<lparr>Dentry_dentry = p\<rparr>"

definition Dentry_dtor :: "Dentry \<Rightarrow> trace \<Rightarrow> trace" where
  "Dentry_dtor self tr =
     (if Dentry_dentry self \<noteq> NULL then tr @ [Dev (Debugfs_remove_recursive (Dentry_dentry self))] else tr)"

definition Dentry_move_ctor :: "oid \<Rightarrow> oid \<Rightarrow> (oid \<Rightarrow> Dentry) \<Rightarrow> (oid \<Rightarrow> Dentry)" where
  "Dentry_move_ctor this other s =
     (let s1 = s(this := \<lparr>Dentry_dentry = Dentry_dentry (s other)\<rparr>)
      in s1(other := (s1 other)\<lparr>Dentry_dentry := NULL\<rparr>))"

definition Dentry_move_assign :: "oid \<Rightarrow> oid \<Rightarrow> (oid \<Rightarrow> Dentry) \<times> trace \<Rightarrow> (oid \<Rightarrow> Dentry) \<times> trace" where
  "Dentry_move_assign this other st =
     (let (s, tr) = st in
      if this \<noteq> other then
        let tr1 = (if Dentry_dentry (s this) \<noteq> NULL then tr @ [Dev (Debugfs_remove_recursive (Dentry_dentry (s this)))] else tr);
            s1 = s(this := (s this)\<lparr>Dentry_dentry := Dentry_dentry (s other)\<rparr>);
            s2 = s1(other := (s1 other)\<lparr>Dentry_dentry := NULL\<rparr>)
        in (s2, tr1)
      else (s, tr))"

definition Dentry_native_handle :: "Dentry \<Rightarrow> ptr" where
  "Dentry_native_handle self = Dentry_dentry self"

definition Dentry_bool :: "Dentry \<Rightarrow> bool" where
  "Dentry_bool self \<longleftrightarrow> Dentry_dentry self \<noteq> NULL"

definition create_dir ::
  "(trace \<Rightarrow> cstr \<Rightarrow> ptr \<Rightarrow> ptr) \<Rightarrow> StringView \<Rightarrow> Dentry \<Rightarrow> trace \<Rightarrow> Dentry \<times> trace" where
  "create_dir debugfs_create_dir name parent tr =
     (Dentry_ctor (debugfs_create_dir tr (sv_data name) (Dentry_native_handle parent)),
      tr @ [Dev (Debugfs_create_dir (sv_data name) (Dentry_native_handle parent))])"

definition create_file ::
  "(trace \<Rightarrow> cstr \<Rightarrow> nat \<Rightarrow> ptr \<Rightarrow> ptr \<Rightarrow> ptr \<Rightarrow> ptr) \<Rightarrow> StringView \<Rightarrow> nat \<Rightarrow> Dentry \<Rightarrow> ptr \<Rightarrow> ptr \<Rightarrow>
   trace \<Rightarrow> Dentry \<times> trace" where
  "create_file debugfs_create_file name mode parent data fops tr =
     (Dentry_ctor (debugfs_create_file tr (sv_data name) mode (Dentry_native_handle parent) data fops),
      tr @ [Dev (Debugfs_create_file (sv_data name) mode (Dentry_native_handle parent) data fops)])"

section \<open>KObject\<close>

text \<open>
  The object embeds its \<open>struct kobject\<close>: members are named by the address of the C++ object.
  Constructor and destructor are defaulted and do nothing.
\<close>

definition KObject_init_and_add ::
  "(trace \<Rightarrow> oid \<Rightarrow> ptr \<Rightarrow> cstr \<Rightarrow> int) \<Rightarrow> oid \<Rightarrow> cstr \<Rightarrow> ptr \<Rightarrow> trace \<Rightarrow> int \<times> trace" where
  "KObject_init_and_add kobject_add this name parent tr =
     (let tr1 = tr @ [Dev (Kobject_init this)]
      in (kobject_add tr1 this parent name, tr1 @ [Dev (Kobject_add this parent name)]))"

definition KObject_del :: "oid \<Rightarrow> trace \<Rightarrow> trace" where
  "KObject_del this tr = tr @ [Dev (Kobject_del this)]"

definition KObject_get :: "oid \<Rightarrow> trace \<Rightarrow> trace" where
  "KObject_get this tr = tr @ [Dev (Kobject_get this)]"

definition KObject_put :: "oid \<Rightarrow> trace \<Rightarrow> trace" where
  "KObject_put this tr = tr @ [Dev (Kobject_put this)]"

text \<open>\<open>&kobj_\<close>: the embedded kobject has the address of the object.\<close>

definition KObject_native_handle :: "oid \<Rightarrow> oid" where
  "KObject_native_handle this = this"

section \<open>Device\<close>

text \<open>
  \<open>dv_class\<close> is the address of the \<open>DeviceClass\<close> object the reference member is bound to.  The
  destructor reads \<open>device_->devt\<close>: through an error pointer that read faults (\<open>None\<close>);
  \<open>devt_of n\<close> is the member of the \<open>struct device\<close> at \<open>n\<close>.
\<close>

record Device =
  dv_device :: ptr
  dv_class :: oid

definition Device_ctor ::
  "(trace \<Rightarrow> ptr \<Rightarrow> nat \<Rightarrow> cstr \<Rightarrow> ptr) \<Rightarrow> (oid \<Rightarrow> DeviceClass) \<Rightarrow> oid \<Rightarrow> nat \<Rightarrow> StringView \<Rightarrow> trace \<Rightarrow>
   Device \<times> trace" where
  "Device_ctor device_create classes dev_class dev_num name tr =
     (let cls = DeviceClass_native_handle (classes dev_class)
      in (\<lparr>dv_device = device_create tr cls dev_num (sv_data name), dv_class = dev_class\<rparr>,
          tr @ [Dev (Device_create cls dev_num (sv_data name))]))"

definition Device_dtor ::
  "(nat \<Rightarrow> nat) \<Rightarrow> (oid \<Rightarrow> DeviceClass) \<Rightarrow> Device \<Rightarrow> trace \<Rightarrow> trace option" where
  "Device_dtor devt_of classes self tr =
     (case dv_device self of
        NULL \<Rightarrow> Some tr
      | ERR_PTR e \<Rightarrow> None
      | Ptr n \<Rightarrow> Some (tr @ [Dev (Device_destroy (DeviceClass_native_handle (classes (dv_class self)))
                                (devt_of n))]))"

definition Device_native_handle :: "Device \<Rightarrow> ptr" where
  "Device_native_handle self = dv_device self"

definition Device_bool :: "Device \<Rightarrow> bool" where
  "Device_bool self \<longleftrightarrow> dv_device self \<noteq> NULL \<and> \<not> IS_ERR (dv_device self)"

section \<open>CharDevice\<close>

record CharDevice =
  cd_dev_num :: nat
  cd_is_added :: bool

definition CharDevice_ctor :: "oid \<Rightarrow> ptr \<Rightarrow> nat \<Rightarrow> trace \<Rightarrow> CharDevice \<times> trace" where
  "CharDevice_ctor this fops dev_num tr =
     (\<lparr>cd_dev_num = dev_num, cd_is_added = False\<rparr>, tr @ [Dev (Cdev_init this fops)])"

definition CharDevice_dtor :: "oid \<Rightarrow> CharDevice \<Rightarrow> trace \<Rightarrow> trace" where
  "CharDevice_dtor this self tr = (if cd_is_added self then tr @ [Dev (Cdev_del this)] else tr)"

definition CharDevice_native_handle :: "oid \<Rightarrow> oid" where
  "CharDevice_native_handle this = this"

definition CharDevice_add ::
  "(trace \<Rightarrow> oid \<Rightarrow> nat \<Rightarrow> nat \<Rightarrow> int) \<Rightarrow> oid \<Rightarrow> CharDevice \<Rightarrow> trace \<Rightarrow> int \<times> CharDevice \<times> trace" where
  "CharDevice_add cdev_add this self tr =
     (let ret = cdev_add tr this (cd_dev_num self) 1;
          self' = (if ret = 0 then self\<lparr>cd_is_added := True\<rparr> else self)
      in (ret, self', tr @ [Dev (Cdev_add this (cd_dev_num self) 1)]))"

text \<open>A client that calls \<open>add\<close> until it succeeds, at most \<open>n\<close> times.\<close>

fun add_retrying ::
  "(trace \<Rightarrow> oid \<Rightarrow> nat \<Rightarrow> nat \<Rightarrow> int) \<Rightarrow> nat \<Rightarrow> oid \<Rightarrow> CharDevice \<times> trace \<Rightarrow> CharDevice \<times> trace" where
  "add_retrying cdev_add 0 this st = st"
| "add_retrying cdev_add (Suc n) this st =
     (let (ret, self, tr) = CharDevice_add cdev_add this (fst st) (snd st)
      in if ret = 0 then (self, tr) else add_retrying cdev_add n this (self, tr))"

section \<open>The handle classes satisfy the interface\<close>

definition KSet_ops :: "KSet handle_ops" where
  "KSet_ops = \<lparr>op_ptr = KSet_kset, op_dtor = KSet_dtor, op_move_ctor = KSet_move_ctor,
     op_move_assign = KSet_move_assign\<rparr>"

definition DeviceClass_ops :: "DeviceClass handle_ops" where
  "DeviceClass_ops = \<lparr>op_ptr = DeviceClass_class, op_dtor = DeviceClass_dtor,
     op_move_ctor = DeviceClass_move_ctor, op_move_assign = DeviceClass_move_assign\<rparr>"

definition Dentry_ops :: "Dentry handle_ops" where
  "Dentry_ops = \<lparr>op_ptr = Dentry_dentry, op_dtor = Dentry_dtor, op_move_ctor = Dentry_move_ctor,
     op_move_assign = Dentry_move_assign\<rparr>"

lemmas [handle_defs] =
  KSet_ops_def KSet_dtor_def KSet_move_ctor_def KSet_move_assign_def
  DeviceClass_ops_def DeviceClass_dtor_def DeviceClass_move_ctor_def DeviceClass_move_assign_def
  Dentry_ops_def Dentry_dtor_def Dentry_move_ctor_def Dentry_move_assign_def

interpretation kset: owning_handle KSet_ops "\<lambda>p. [Dev (Kset_unregister p)]" "\<lambda>p. Dev (Kset_unregister p)"
  by unfold_locales (auto simp: handle_defs Let_def)

interpretation devclass: owning_handle DeviceClass_ops "\<lambda>p. [Dev (Class_destroy p)]" "\<lambda>p. Dev (Class_destroy p)"
  by unfold_locales (auto simp: handle_defs Let_def)

interpretation dentry: owning_handle Dentry_ops "\<lambda>p. [Dev (Debugfs_remove_recursive p)]"
  "\<lambda>p. Dev (Debugfs_remove_recursive p)"
  by unfold_locales (auto simp: handle_defs Let_def)

section \<open>Lemmas\<close>

lemma add_retrying_trace:
  assumes "\<not> cd_is_added d"
  shows "\<exists>k ok. k \<le> n \<and> (if ok then 0 < k else k = n) \<and>
    add_retrying cdev_add n this (d, t) =
      (d\<lparr>cd_is_added := ok\<rparr>, t @ replicate k (Dev (Cdev_add this (cd_dev_num d) 1)))"
proof (induction n arbitrary: t)
  case 0
  with assms show ?case by (intro exI [of _ 0] exI [of _ False]) simp
next
  case (Suc n)
  let ?t = "t @ [Dev (Cdev_add this (cd_dev_num d) 1)]"
  show ?case
  proof (cases "cdev_add t this (cd_dev_num d) 1 = 0")
    case True
    then show ?thesis
      by (intro exI [of _ 1] exI [of _ True]) (auto simp: CharDevice_add_def)
  next
    case False
    from Suc.IH [of ?t] obtain k ok where
      "k \<le> n" "if ok then 0 < k else k = n" "add_retrying cdev_add n this (d, ?t) =
         (d\<lparr>cd_is_added := ok\<rparr>, ?t @ replicate k (Dev (Cdev_add this (cd_dev_num d) 1)))"
      by blast
    with False show ?thesis
      by (intro exI [of _ "Suc k"] exI [of _ ok]) (auto simp: CharDevice_add_def)
  qed
qed

section \<open>Properties\<close>

text \<open>
  A kset created by the constructor is unregistered exactly once, however the wrapper was
  moved around since, when the wrapper and its copies are gone; nothing is unregistered when the
  creation failed.
\<close>

theorem KSet_unregistered_once:
  assumes "KSet_ctor create name parent tr0 = (v, tr1)"
    and "hrun KSet_ops (New x v # cs) (hinit s) = Some \<sigma>" "\<forall>c\<in>set cs. \<not> is_New c" "h_alive \<sigma> = {}"
  shows "count_list (h_trace \<sigma>) (Dev (Kset_unregister p)) =
    of_bool (p \<noteq> NULL \<and> p = create tr0 name parent)"
proof (cases "p = NULL")
  case False
  from hrun_adopted [OF _ assms(3)] assms(1,2) have "h_adopted \<sigma> = [create tr0 name parent]"
    by (auto simp: hinit_def KSet_ops_def KSet_ctor_def)
  with kset.run_no_leak [OF assms(2,4) False] False show ?thesis by simp
next
  case True
  with kset.run_releases_no_NULL [OF assms(2)] show ?thesis by (simp add: hinit_def)
qed

theorem KSet_unregistered_once_witness:
  "\<exists>\<sigma>. hrun KSet_ops [New 0 (fst (KSet_ctor (\<lambda>_ _ _. Ptr 6) (Some ''kpp'') NULL [])), MoveNew 1 0, Destroy 1, Destroy 0]
         (hinit (\<lambda>_. \<lparr>KSet_kset = NULL\<rparr>)) = Some \<sigma> \<and>
     count_list (h_trace \<sigma>) (Dev (Kset_unregister (Ptr 6))) = 1"
proof -
  let ?c = "KSet_ctor (\<lambda>_ _ _. Ptr 6) (Some ''kpp'') NULL []"
  obtain \<sigma> where r: "hrun KSet_ops [New 0 (fst ?c), MoveNew 1 0, Destroy 1, Destroy 0]
      (hinit (\<lambda>_. \<lparr>KSet_kset = NULL\<rparr>)) = Some \<sigma>" and e: "h_alive \<sigma> = {}"
    by (auto simp: hinit_def)
  have "\<forall>c\<in>set [MoveNew 1 0, Destroy 1, Destroy 0]. \<not> is_New (c :: KSet hcmd)" by simp
  from KSet_unregistered_once [OF prod.collapse [symmetric] r this e, of "Ptr 6"] r show ?thesis by auto
qed

text \<open>
  For every program over \<open>DeviceClass\<close> objects, what \<open>class_create\<close> returned has been
  destroyed or is held by a living object, once per object it was handed to.
\<close>

theorem DeviceClass_conserves:
  assumes "hrun DeviceClass_ops cs (hinit s) = Some \<sigma>" "p \<noteq> NULL"
  shows "count_list (h_adopted \<sigma>) p = count_list (h_trace \<sigma>) (Dev (Class_destroy p)) +
    card {x \<in> h_alive \<sigma>. DeviceClass_class (h_objs \<sigma> x) = p}"
  using devclass.run_conserves [OF assms] by (simp add: holders_def DeviceClass_ops_def)

theorem DeviceClass_conserves_witness:
  "\<exists>\<sigma>. hrun DeviceClass_ops [New 0 \<lparr>DeviceClass_class = Ptr 2\<rparr>, MoveNew 1 0, Destroy 0]
         (hinit (\<lambda>_. \<lparr>DeviceClass_class = NULL\<rparr>)) = Some \<sigma> \<and>
     1 = count_list (h_trace \<sigma>) (Dev (Class_destroy (Ptr 2))) +
         card {x \<in> h_alive \<sigma>. DeviceClass_class (h_objs \<sigma> x) = Ptr 2}"
proof -
  obtain \<sigma> where r: "hrun DeviceClass_ops [New 0 \<lparr>DeviceClass_class = Ptr 2\<rparr>, MoveNew 1 0, Destroy 0]
      (hinit (\<lambda>_. \<lparr>DeviceClass_class = NULL\<rparr>)) = Some \<sigma>" and ad: "h_adopted \<sigma> = [Ptr 2]"
    by (auto simp: hinit_def DeviceClass_ops_def)
  from DeviceClass_conserves [OF r, of "Ptr 2"] ad r show ?thesis by auto
qed

text \<open>
  A device that was created is destroyed with the class and the number it was created with,
  provided the class object still holds that class: \<open>device_create\<close> stores the number in \<open>devt\<close>,
  which the destructor reads back.  A device whose creation failed with an error pointer converts
  to false, and its destructor faults.
\<close>

theorem Device_lifetime:
  assumes "\<And>n. device_create tr (DeviceClass_class (classes c)) num (sv_data name) = Ptr n \<Longrightarrow> devt_of n = num"
    and "Device_ctor device_create classes c num name tr = (d, tr1)"
    and "DeviceClass_class (classes' c) = DeviceClass_class (classes c)"
  shows "tr1 = tr @ [Dev (Device_create (DeviceClass_class (classes c)) num (sv_data name))] \<and>
    (Device_bool d \<longrightarrow> Device_dtor devt_of classes' d t =
       Some (t @ [Dev (Device_destroy (DeviceClass_class (classes c)) num)])) \<and>
    (IS_ERR (Device_native_handle d) \<longrightarrow> \<not> Device_bool d \<and> Device_dtor devt_of classes' d t = None)"
  using assms
  by (cases "device_create tr (DeviceClass_class (classes c)) num (sv_data name)")
    (auto simp: Device_ctor_def Device_dtor_def Device_bool_def Device_native_handle_def
      DeviceClass_native_handle_def Let_def)

theorem Device_lifetime_witness:
  "Device_dtor (\<lambda>_. 240) (\<lambda>_. \<lparr>DeviceClass_class = Ptr 1\<rparr>)
     (fst (Device_ctor (\<lambda>_ _ _ _. Ptr 9) (\<lambda>_. \<lparr>DeviceClass_class = Ptr 1\<rparr>) 4 240 StringView_default [])) [] =
   Some [Dev (Device_destroy (Ptr 1) 240)] \<and>
   Device_dtor (\<lambda>_. 240) (\<lambda>_. \<lparr>DeviceClass_class = Ptr 1\<rparr>)
     (fst (Device_ctor (\<lambda>_ _ _ _. ERR_PTR 12) (\<lambda>_. \<lparr>DeviceClass_class = Ptr 1\<rparr>) 4 240 StringView_default [])) [] =
   None"
proof -
  let ?cl = "\<lambda>_. \<lparr>DeviceClass_class = Ptr 1\<rparr>"
  have 1: "Device_ctor (\<lambda>_ _ _ _. p) ?cl 4 240 StringView_default [] =
      (\<lparr>dv_device = p, dv_class = 4\<rparr>, [Dev (Device_create (Ptr 1) 240 None)])" for p
    by (simp add: Device_ctor_def DeviceClass_native_handle_def StringView_default_def Let_def)
  show ?thesis
    using Device_lifetime [OF _ 1 [of "Ptr 9"], where devt_of = "\<lambda>_. 240" and classes' = ?cl and t = "[]"]
      Device_lifetime [OF _ 1 [of "ERR_PTR 12"], where devt_of = "\<lambda>_. 240" and classes' = ?cl and t = "[]"]
    by (simp add: 1 [simplified] Device_bool_def Device_native_handle_def)
qed

text \<open>
  A character device leaves the kernel exactly when it had entered it: over a whole lifetime
  with up to \<open>n\<close> attempts to add it, the last call is \<open>cdev_del\<close> if one attempt succeeded, and
  otherwise there is no \<open>cdev_del\<close> at all; attempts stop at the first success.
\<close>

theorem CharDevice_deleted_iff_added:
  "\<exists>k ok. k \<le> n \<and> (if ok then 0 < k else k = n) \<and>
     (let (d, tr1) = CharDevice_ctor this fops num tr;
          (d', tr2) = add_retrying cdev_add n this (d, tr1)
      in cd_is_added d' = ok \<and>
         CharDevice_dtor this d' tr2 = tr @ Dev (Cdev_init this fops) #
           replicate k (Dev (Cdev_add this num 1)) @ (if ok then [Dev (Cdev_del this)] else []))"
proof -
  from add_retrying_trace [of "\<lparr>cd_dev_num = num, cd_is_added = False\<rparr>" n cdev_add this
      "tr @ [Dev (Cdev_init this fops)]"]
  obtain k ok where "k \<le> n" "if ok then 0 < k else k = n"
    "add_retrying cdev_add n this (\<lparr>cd_dev_num = num, cd_is_added = False\<rparr>, tr @ [Dev (Cdev_init this fops)]) =
       (\<lparr>cd_dev_num = num, cd_is_added = ok\<rparr>,
        tr @ Dev (Cdev_init this fops) # replicate k (Dev (Cdev_add this num 1)))"
    by auto
  then show ?thesis
    by (intro exI [of _ k] exI [of _ ok]) (auto simp: CharDevice_ctor_def CharDevice_dtor_def)
qed

end
