(* ===== verification/Kpp_Echo.thy ===== *)
theory Kpp_Echo
  imports Kpp_Vfs Kpp_Sync Kpp_Devmodel Kpp_Memory
begin

text \<open>
  \<^verbatim>\<open>driver/driver.cpp\<close>: the echo character device and its module initialisation and exit.

  \<open>size_t\<close> and \<open>loff_t\<close> are 64 bits; \<open>*offset\<close> is compared with the unsigned \<open>buffer_len_\<close> and so
  read as unsigned.  Every access to \<open>buffer_\<close> is checked against the array: an access outside it
  is \<open>None\<close>, so that its absence is a theorem.  Log output is not modelled.
\<close>

section \<open>EchoDriver\<close>

abbreviation BUFFER_SIZE :: nat where "BUFFER_SIZE \<equiv> 256"

record EchoDriver =
  ed_buffer :: "byte list"
  ed_len :: c_ulong
  ed_mutex :: oid

text \<open>The constructor initialises the members; the \<open>Mutex\<close> member calls the kernel.\<close>

definition EchoDriver_ctor :: "oid \<Rightarrow> trace \<Rightarrow> EchoDriver \<times> trace" where
  "EchoDriver_ctor m tr =
     (\<lparr>ed_buffer = replicate BUFFER_SIZE 0, ed_len = 0, ed_mutex = m\<rparr>, Mutex_ctor m tr)"

text \<open>\<open>n\<close> bytes of an array from index \<open>i\<close> on, if they are inside it.\<close>

definition slice :: "nat \<Rightarrow> nat \<Rightarrow> byte list \<Rightarrow> byte list option" where
  "slice i n bs = (if i + n \<le> length bs then Some (take n (drop i bs)) else None)"

type_synonym echo_result = "(int \<times> c_ulong \<times> EchoDriver \<times> umem) option"

definition EchoDriver_open :: "nat \<Rightarrow> nat \<Rightarrow> int" where
  "EchoDriver_open inode fl = 0"

definition EchoDriver_release :: "nat \<Rightarrow> nat \<Rightarrow> int" where
  "EchoDriver_release inode fl = 0"

text \<open>What the functions do while they hold the mutex.\<close>

definition read_locked :: "uaccess \<Rightarrow> EchoDriver \<Rightarrow> nat \<Rightarrow> c_ulong \<Rightarrow> c_ulong \<Rightarrow> umem \<Rightarrow> echo_result" where
  "read_locked U dev user_buf sz offset u =
     (if offset \<ge> ed_len dev then Some (0, offset, dev, u)
      else
        let count = min sz (ed_len dev - offset)
        in case slice (unat offset) (unat count) (ed_buffer dev) of
             None \<Rightarrow> None
           | Some bytes \<Rightarrow>
               let (e, u') = kpp_copy_to_user U user_buf bytes u
               in if Error_is_error e then Some (- EFAULT, offset, dev, u')
                  else Some (sint count, offset + count, dev, u'))"

definition write_locked :: "uaccess \<Rightarrow> EchoDriver \<Rightarrow> nat \<Rightarrow> c_ulong \<Rightarrow> c_ulong \<Rightarrow> umem \<Rightarrow> echo_result" where
  "write_locked U dev user_buf sz offset u =
     (let count = min sz (of_nat BUFFER_SIZE - 1)
      in case slice 0 (unat count) (ed_buffer dev) of
           None \<Rightarrow> None
         | Some old \<Rightarrow>
             let (e, new) = kpp_copy_from_user U old user_buf u;
                 dev1 = dev\<lparr>ed_buffer := new @ drop (unat count) (ed_buffer dev)\<rparr>
             in if Error_is_error e then Some (- EFAULT, offset, dev1, u)
                else
                  let dev2 = dev1\<lparr>ed_len := count\<rparr>
                  in if unat (ed_len dev2) < length (ed_buffer dev2)
                     then Some (sint count, 0, dev2\<lparr>ed_buffer := (ed_buffer dev2)[unat (ed_len dev2) := 0]\<rparr>, u)
                     else None)"

definition EchoDriver_read ::
  "uaccess \<Rightarrow> EchoDriver \<Rightarrow> nat \<Rightarrow> c_ulong \<Rightarrow> c_ulong \<Rightarrow> umem \<Rightarrow> trace \<Rightarrow> echo_result \<times> trace" where
  "EchoDriver_read U dev user_buf sz offset u tr =
     scoped Mutex_class (ed_mutex dev) (\<lambda>t. (read_locked U dev user_buf sz offset u, t)) tr"

definition EchoDriver_write ::
  "uaccess \<Rightarrow> EchoDriver \<Rightarrow> nat \<Rightarrow> c_ulong \<Rightarrow> c_ulong \<Rightarrow> umem \<Rightarrow> trace \<Rightarrow> echo_result \<times> trace" where
  "EchoDriver_write U dev user_buf sz offset u tr =
     scoped Mutex_class (ed_mutex dev) (\<lambda>t. (write_locked U dev user_buf sz offset u, t)) tr"

text \<open>
  The calls user space makes on the device, in the order the mutex gives them: by any process,
  with any buffer address, size and offset.
\<close>

datatype echo_cmd = ERead nat c_ulong c_ulong | EWrite nat c_ulong c_ulong

record echo_state =
  es_dev :: EchoDriver
  es_user :: umem
  es_trace :: trace

fun echo_step :: "uaccess \<Rightarrow> echo_cmd \<Rightarrow> echo_state \<Rightarrow> echo_state option" where
  "echo_step U (ERead buf sz off) s =
     (let (r, tr) = EchoDriver_read U (es_dev s) buf sz off (es_user s) (es_trace s)
      in case r of None \<Rightarrow> None
         | Some (ret, off', dev, u) \<Rightarrow> Some \<lparr>es_dev = dev, es_user = u, es_trace = tr\<rparr>)"
| "echo_step U (EWrite buf sz off) s =
     (let (r, tr) = EchoDriver_write U (es_dev s) buf sz off (es_user s) (es_trace s)
      in case r of None \<Rightarrow> None
         | Some (ret, off', dev, u) \<Rightarrow> Some \<lparr>es_dev = dev, es_user = u, es_trace = tr\<rparr>)"

fun echo_run :: "uaccess \<Rightarrow> echo_cmd list \<Rightarrow> echo_state \<Rightarrow> echo_state option" where
  "echo_run U [] s = Some s"
| "echo_run U (c # cs) s = (case echo_step U c s of None \<Rightarrow> None | Some s' \<Rightarrow> echo_run U cs s')"

text \<open>
  A reader such as \<^verbatim>\<open>cat\<close>: read into a buffer of \<open>chunk\<close> bytes until \<open>read\<close> returns 0, and collect
  what arrived.  At most \<open>fuel\<close> calls; \<open>None\<close> when they do not suffice or a call fails.
\<close>

fun cat :: "uaccess \<Rightarrow> nat \<Rightarrow> EchoDriver \<Rightarrow> nat \<Rightarrow> c_ulong \<Rightarrow> c_ulong \<Rightarrow> umem \<Rightarrow> trace \<Rightarrow> byte list option" where
  "cat U 0 dev buf chunk off u tr = None"
| "cat U (Suc fuel) dev buf chunk off u tr =
     (let (r, tr') = EchoDriver_read U dev buf chunk off u tr
      in case r of None \<Rightarrow> None
         | Some (ret, off', dev', u') \<Rightarrow>
             if ret = 0 then Some []
             else if ret < 0 then None
             else map_option (\<lambda>bs. uload buf (nat ret) u' @ bs) (cat U fuel dev' buf chunk off' u' tr'))"

definition echo_ok :: "EchoDriver \<Rightarrow> bool" where
  "echo_ok dev \<longleftrightarrow> length (ed_buffer dev) = BUFFER_SIZE \<and> unat (ed_len dev) < BUFFER_SIZE"

text \<open>The message a device holds.\<close>

definition echo_message :: "EchoDriver \<Rightarrow> byte list" where
  "echo_message dev = take (unat (ed_len dev)) (ed_buffer dev)"

text \<open>
  The overrides of the class, as the table of its final type.  The world is the state of the
  device, \<open>None\<close> after an access outside the buffer.
\<close>

fun echo_callback ::
  "(EchoDriver \<Rightarrow> umem \<Rightarrow> trace \<Rightarrow> echo_result \<times> trace) \<Rightarrow> c_ulong \<Rightarrow> echo_state option \<Rightarrow>
   int \<times> c_ulong \<times> echo_state option" where
  "echo_callback f off None = (0, off, None)"
| "echo_callback f off (Some s) =
     (case f (es_dev s) (es_user s) (es_trace s) of
        (None, tr) \<Rightarrow> (0, off, None)
      | (Some (ret, off', dev, u), tr) \<Rightarrow> (ret, off', Some \<lparr>es_dev = dev, es_user = u, es_trace = tr\<rparr>))"

definition EchoDriver_vtable :: "uaccess \<Rightarrow> echo_state option vtable" where
  "EchoDriver_vtable U = FileOperations_vtable
     \<lparr>vt_open := Some (\<lambda>i f w. (EchoDriver_open i f, w)),
      vt_release := Some (\<lambda>i f w. (EchoDriver_release i f, w)),
      vt_read := Some (\<lambda>f buf n off. echo_callback (\<lambda>dev. EchoDriver_read U dev buf n off) off),
      vt_write := Some (\<lambda>f buf n off. echo_callback (\<lambda>dev. EchoDriver_write U dev buf n off) off)\<rparr>"

section \<open>Module initialisation and exit\<close>

text \<open>The kernel functions the module calls, and the sizes of the classes it allocates.\<close>

record echo_kernel =
  ek_alloc :: allocator
  ek_uaccess :: uaccess
  ek_alloc_chrdev_region :: "trace \<Rightarrow> int \<times> nat"
  ek_class_create :: "trace \<Rightarrow> cstr \<Rightarrow> ptr"
  ek_cdev_add :: "trace \<Rightarrow> oid \<Rightarrow> nat \<Rightarrow> nat \<Rightarrow> int"
  ek_device_create :: "trace \<Rightarrow> ptr \<Rightarrow> nat \<Rightarrow> cstr \<Rightarrow> ptr"
  ek_sizeof_driver :: nat
  ek_sizeof_class :: nat
  ek_sizeof_cdev :: nat
  ek_sizeof_device :: nat

text \<open>
  The static variables (the four pointers by address, and \<open>g_dev_num\<close>), and the objects on the
  heap they point to.
\<close>

record echo_module =
  em_ptrs :: "oid \<Rightarrow> UniquePtr"
  em_dev_num :: nat
  em_driver :: EchoDriver
  em_fops :: FileOperations
  em_class :: DeviceClass
  em_cdev :: CharDevice
  em_device :: Device
  em_trace :: trace

abbreviation (input) g_driver :: oid where "g_driver \<equiv> 0"

abbreviation (input) g_dev_class :: oid where "g_dev_class \<equiv> 1"

abbreviation (input) g_char_dev :: oid where "g_char_dev \<equiv> 2"

abbreviation (input) g_device :: oid where "g_device \<equiv> 3"

abbreviation (input) temporary :: oid where "temporary \<equiv> 4"

text \<open>\<open>g = make_unique\<dots>\<close>: move assignment from a temporary, which is then destroyed.\<close>

definition assign_temporary :: "oid \<Rightarrow> UniquePtr \<Rightarrow> echo_module \<Rightarrow> echo_module" where
  "assign_temporary g tmp s =
     (let (ps, tr) = UniquePtr_move_assign DefaultDeleter g temporary ((em_ptrs s)(temporary := tmp), em_trace s)
      in s\<lparr>em_ptrs := ps, em_trace := UniquePtr_dtor DefaultDeleter (ps temporary) tr\<rparr>)"

definition new_driver :: "echo_kernel \<Rightarrow> echo_module \<Rightarrow> echo_module" where
  "new_driver K s =
     (let (u, tr) = make_unique (ek_alloc K) (ek_sizeof_driver K) GFP_KERNEL (em_trace s);
          s1 = (if UniquePtr_bool u then
                  let (d, tr1) = EchoDriver_ctor (ptr_oid (UniquePtr_get u)) tr
                  in s\<lparr>em_driver := d,
                       em_fops := FileOperations_ctor (EchoDriver_vtable (ek_uaccess K)) (UniquePtr_get u),
                       em_trace := tr1\<rparr>
                else s\<lparr>em_trace := tr\<rparr>)
      in assign_temporary g_driver u s1)"

definition new_class :: "echo_kernel \<Rightarrow> echo_module \<Rightarrow> echo_module" where
  "new_class K s =
     (let (u, tr) = make_unique (ek_alloc K) (ek_sizeof_class K) GFP_KERNEL (em_trace s);
          s1 = (if UniquePtr_bool u then
                  let (c, tr1) = DeviceClass_ctor (ek_class_create K)
                                   (StringView_count (Some (''kpp_echo_class'' @ [NUL])) 14) tr
                  in s\<lparr>em_class := c, em_trace := tr1\<rparr>
                else s\<lparr>em_trace := tr\<rparr>)
      in assign_temporary g_dev_class u s1)"

definition new_char_dev :: "echo_kernel \<Rightarrow> echo_module \<Rightarrow> echo_module" where
  "new_char_dev K s =
     (let (u, tr) = make_unique (ek_alloc K) (ek_sizeof_cdev K) GFP_KERNEL (em_trace s);
          s1 = (if UniquePtr_bool u then
                  let (c, tr1) = CharDevice_ctor (ptr_oid (UniquePtr_get u)) (UniquePtr_get (em_ptrs s g_driver))
                                   (em_dev_num s) tr
                  in s\<lparr>em_cdev := c, em_trace := tr1\<rparr>
                else s\<lparr>em_trace := tr\<rparr>)
      in assign_temporary g_char_dev u s1)"

definition new_device :: "echo_kernel \<Rightarrow> echo_module \<Rightarrow> echo_module" where
  "new_device K s =
     (let (u, tr) = make_unique (ek_alloc K) (ek_sizeof_device K) GFP_KERNEL (em_trace s);
          s1 = (if UniquePtr_bool u then
                  let (d, tr1) = Device_ctor (ek_device_create K) (\<lambda>_. em_class s)
                                   (ptr_oid (UniquePtr_get (em_ptrs s g_dev_class))) (em_dev_num s)
                                   (StringView_count (Some (''kpp_echo'' @ [NUL])) 8) tr
                  in s\<lparr>em_device := d, em_trace := tr1\<rparr>
                else s\<lparr>em_trace := tr\<rparr>)
      in assign_temporary g_device u s1)"

text \<open>\<open>None\<close> is the dereference of the null \<open>g_char_dev\<close> in \<open>g_char_dev->add()\<close>.\<close>

definition echo_driver_init :: "echo_kernel \<Rightarrow> echo_module \<Rightarrow> (int \<times> echo_module) option" where
  "echo_driver_init K s0 =
     (let s1 = new_driver K s0
      in if \<not> UniquePtr_bool (em_ptrs s1 g_driver) then Some (- ENOMEM, s1)
         else
           let (ret, num) = ek_alloc_chrdev_region K (em_trace s1);
               s2 = s1\<lparr>em_dev_num := num,
                       em_trace := em_trace s1 @ [Dev (Alloc_chrdev_region 0 1 (Some (''kpp_echo'' @ [NUL])))]\<rparr>
           in if ret < 0 then Some (- EFAULT, s2)
              else
                let s3 = new_class K s2
                in if \<not> UniquePtr_bool (em_ptrs s3 g_dev_class) \<or> \<not> DeviceClass_bool (em_class s3)
                   then Some (- ENOMEM, s3)
                   else
                     let s4 = new_char_dev K s3
                     in if \<not> UniquePtr_bool (em_ptrs s4 g_char_dev) then None
                        else
                          let (ret, cdev, tr) = CharDevice_add (ek_cdev_add K)
                                (ptr_oid (UniquePtr_get (em_ptrs s4 g_char_dev))) (em_cdev s4) (em_trace s4);
                              s5 = s4\<lparr>em_cdev := cdev, em_trace := tr\<rparr>
                          in if ret < 0 then Some (- EFAULT, s5)
                             else
                               let s6 = new_device K s5
                               in if \<not> UniquePtr_bool (em_ptrs s6 g_device) \<or> \<not> Device_bool (em_device s6)
                                  then Some (- ENOMEM, s6)
                                  else Some (0, s6))"

definition release_global :: "oid \<Rightarrow> echo_module \<Rightarrow> echo_module" where
  "release_global g s = s\<lparr>em_ptrs := (em_ptrs s)(g := snd (UniquePtr_release (em_ptrs s g)))\<rparr>"

definition echo_driver_exit :: "echo_module \<Rightarrow> echo_module" where
  "echo_driver_exit s =
     (let s1 = release_global g_dev_class (release_global g_char_dev (release_global g_device s));
          s2 = s1\<lparr>em_trace := em_trace s1 @ [Dev (Unregister_chrdev_region (em_dev_num s1) 1)]\<rparr>
      in release_global g_driver s2)"

text \<open>The static variables before \<open>echo_driver_init\<close>: null pointers and zeros.\<close>

definition echo_statics :: "echo_module" where
  "echo_statics = \<lparr>em_ptrs = (\<lambda>_. UniquePtr_ctor NULL), em_dev_num = 0,
     em_driver = \<lparr>ed_buffer = [], ed_len = 0, ed_mutex = 0\<rparr>,
     em_fops = \<lparr>fo_fops = \<lparr>fop_owner = False, fop_open = False, fop_release = False, fop_read = False, fop_write = False,
        fop_unlocked_ioctl = False, fop_poll = False\<rparr>, fo_owner = NULL\<rparr>,
     em_class = \<lparr>DeviceClass_class = NULL\<rparr>,
     em_cdev = \<lparr>cd_dev_num = 0, cd_is_added = False\<rparr>, em_device = \<lparr>dv_device = NULL, dv_class = 0\<rparr>,
     em_trace = []\<rparr>"

text \<open>A concrete kernel in which everything succeeds.\<close>

definition working_kernel :: echo_kernel where
  "working_kernel = \<lparr>ek_alloc = bump_alloc, ek_uaccess = bounded_uaccess 0,
     ek_alloc_chrdev_region = (\<lambda>_. (0, 240)), ek_class_create = (\<lambda>_ _. Ptr 50),
     ek_cdev_add = (\<lambda>_ _ _ _. 0), ek_device_create = (\<lambda>_ _ _ _. Ptr 60),
     ek_sizeof_driver = 1, ek_sizeof_class = 2, ek_sizeof_cdev = 3, ek_sizeof_device = 4\<rparr>"

text \<open>The calls that undo what initialisation did.\<close>

fun cleanup_call :: "kcall \<Rightarrow> bool" where
  "cleanup_call (Mem (Kfree p)) = True"
| "cleanup_call (Mem (Destruct p)) = True"
| "cleanup_call (Dev (Class_destroy p)) = True"
| "cleanup_call (Dev (Cdev_del a)) = True"
| "cleanup_call (Dev (Device_destroy p n)) = True"
| "cleanup_call (Dev (Unregister_chrdev_region a n)) = True"
| "cleanup_call c = False"

section \<open>Lemmas\<close>

lemma min_word_bound: "unat (min (a :: c_ulong) b) \<le> unat a" "unat (min a b) \<le> unat b"
  by (simp_all add: min_def word_le_nat_alt)

lemma write_count: "unat (min sz (of_nat BUFFER_SIZE - 1 :: c_ulong)) = min (unat sz) 255"
  by (simp add: min_def word_le_nat_alt)

lemma of_unat: "unat (a :: c_ulong) = n \<Longrightarrow> a = of_nat n"
  by (metis of_nat_unat ucast_id)

text \<open>
  The bodies in terms of natural numbers: inside the invariant neither the subtraction nor the
  addition wraps, and no access leaves the array.
\<close>

lemma read_locked_eof: "ed_len dev \<le> off \<Longrightarrow> read_locked U dev buf sz off u = Some (0, off, dev, u)"
  by (simp add: read_locked_def)

lemma read_locked_data:
  assumes "echo_ok dev" "unat off < unat (ed_len dev)" "n = min (unat sz) (unat (ed_len dev) - unat off)"
    and "bytes = take n (drop (unat off) (ed_buffer dev))"
  shows "read_locked U dev buf sz off u =
    (if fst (ua_to U buf bytes u) \<noteq> 0 then Some (- EFAULT, off, dev, snd (ua_to U buf bytes u))
     else Some (int n, off + of_nat n, dev, snd (ua_to U buf bytes u)))"
proof -
  let ?c = "min sz (ed_len dev - off)"
  from assms(2) have "unat (ed_len dev - off) = unat (ed_len dev) - unat off"
    by (simp add: unat_sub word_le_nat_alt)
  with assms(3) have c: "unat ?c = n" by (simp add: min_def word_le_nat_alt)
  from assms(1-3) have b: "unat off + n \<le> length (ed_buffer dev)" "n < 2 ^ 63"
    by (auto simp: echo_ok_def)
  from b c have "sint ?c = int n" by (simp add: sint_small)
  moreover from c have "?c = of_nat n" by (rule of_unat)
  moreover have "\<not> ed_len dev \<le> off" using assms(2) by (simp add: word_le_nat_alt)
  ultimately show ?thesis
    using b c assms(4)
    by (simp add: read_locked_def slice_def kpp_copy_to_user_def Let_def case_prod_beta)
qed

lemma write_locked_data:
  assumes "uaccess_ok U" "echo_ok dev" "n = min (unat sz) 255" "r = ua_from U buf (take n (ed_buffer dev)) u"
  shows "length (snd r) = n"
    and "write_locked U dev buf sz off u =
      (let b = snd r @ drop n (ed_buffer dev)
       in if fst r \<noteq> 0 then Some (- EFAULT, off, dev\<lparr>ed_buffer := b\<rparr>, u)
          else Some (int n, 0, dev\<lparr>ed_buffer := b[n := 0], ed_len := of_nat n\<rparr>, u))"
proof -
  let ?c = "min sz (of_nat BUFFER_SIZE - 1)"
  from assms(2,3) have n: "n < length (ed_buffer dev)" "n < 2 ^ 63" by (auto simp: echo_ok_def)
  with assms(1,4) show l: "length (snd r) = n" by (simp add: uaccess_ok_def)
  have c: "unat ?c = n" using write_count assms(3) by simp
  with n have "sint ?c = int n" by (simp add: sint_small)
  moreover from c have "?c = of_nat n" by (rule of_unat)
  ultimately show "write_locked U dev buf sz off u =
      (let b = snd r @ drop n (ed_buffer dev)
       in if fst r \<noteq> 0 then Some (- EFAULT, off, dev\<lparr>ed_buffer := b\<rparr>, u)
          else Some (int n, 0, dev\<lparr>ed_buffer := b[n := 0], ed_len := of_nat n\<rparr>, u))"
    using n c l assms(4)
    by (simp add: write_locked_def slice_def kpp_copy_from_user_def Let_def case_prod_beta del: of_nat_numeral)
qed

lemma unat_add_small: "unat (a :: c_ulong) + n < 2 ^ 64 \<Longrightarrow> unat (a + of_nat n) = unat a + n"
  by (simp add: unat_word_ariths unat_of_nat mod_add_right_eq)

lemma scoped_mutex: "scoped Mutex_class m (\<lambda>t. (f, t)) tr = (f, tr @ [Sync (Lock_mutex m), Sync (Unlock_mutex m)])"
  by (simp add: scoped_def Mutex_class_def ScopedLock_ctor_def ScopedLock_dtor_def Mutex_lock_def
      Mutex_unlock_def)

lemmas echo_defs = EchoDriver_read_def EchoDriver_write_def scoped_mutex

lemma read_locked_ok:
  assumes "echo_ok dev"
  shows "\<exists>ret off' u'. read_locked U dev buf sz off u = Some (ret, off', dev, u')"
proof (cases "ed_len dev \<le> off")
  case False
  then have "unat off < unat (ed_len dev)" by (simp add: word_le_nat_alt)
  from read_locked_data [OF assms this refl refl] show ?thesis by (auto split: if_splits)
qed (simp add: read_locked_eof)

lemma write_locked_ok:
  assumes "uaccess_ok U" "echo_ok dev"
  shows "\<exists>ret off' dev'. write_locked U dev buf sz off u = Some (ret, off', dev', u) \<and> echo_ok dev' \<and>
    ed_mutex dev' = ed_mutex dev"
  using write_locked_data(1) [OF assms refl refl, where sz = sz and buf = buf and u = u]
    write_locked_data(2) [OF assms refl refl, where sz = sz and buf = buf and u = u and off = off] assms(2)
  by (auto simp: echo_ok_def Let_def unat_of_nat)

lemma echo_step_ok:
  assumes "uaccess_ok U" "echo_ok (es_dev s)"
  shows "\<exists>s'. echo_step U c s = Some s' \<and> echo_ok (es_dev s') \<and> ed_mutex (es_dev s') = ed_mutex (es_dev s) \<and>
    es_trace s' = es_trace s @ [Sync (Lock_mutex (ed_mutex (es_dev s))), Sync (Unlock_mutex (ed_mutex (es_dev s)))]"
proof (cases c)
  case (ERead buf sz off)
  then show ?thesis
    using read_locked_ok [OF assms(2), of U buf sz off "es_user s"] assms(2) by (auto simp: echo_defs)
next
  case (EWrite buf sz off)
  then show ?thesis
    using write_locked_ok [OF assms, of buf sz off "es_user s"] by (auto simp: echo_defs)
qed

lemma echo_run_ok:
  assumes "uaccess_ok U" "echo_ok (es_dev s)"
  shows "\<exists>s'. echo_run U cs s = Some s' \<and> echo_ok (es_dev s') \<and>
    es_trace s' = es_trace s @ concat (replicate (length cs)
      [Sync (Lock_mutex (ed_mutex (es_dev s))), Sync (Unlock_mutex (ed_mutex (es_dev s)))])"
  using assms(2)
proof (induction cs arbitrary: s)
  case (Cons c cs)
  from echo_step_ok [OF assms(1) Cons.prems, of c] obtain s1 where
    "echo_step U c s = Some s1" "echo_ok (es_dev s1)" "ed_mutex (es_dev s1) = ed_mutex (es_dev s)"
    "es_trace s1 = es_trace s @ [Sync (Lock_mutex (ed_mutex (es_dev s))), Sync (Unlock_mutex (ed_mutex (es_dev s)))]"
    by blast
  with Cons.IH [of s1] show ?case by auto
qed simp

lemma cat_collects:
  assumes "uaccess_ok U" "echo_ok dev" "0 < unat chunk"
    and "\<And>bs u. length bs \<le> unat chunk \<Longrightarrow> fst (ua_to U buf bs u) = 0"
    and "unat off \<le> unat (ed_len dev)" "unat (ed_len dev) < fuel + unat off"
  shows "cat U fuel dev buf chunk off u tr = Some (drop (unat off) (echo_message dev))"
  using assms(5,6)
proof (induction fuel arbitrary: off u tr)
  case 0
  then show ?case by simp
next
  case (Suc fuel)
  show ?case
  proof (cases "unat off < unat (ed_len dev)")
    case False
    then show ?thesis
      by (simp add: echo_defs read_locked_eof word_le_nat_alt echo_message_def)
  next
    case True
    let ?n = "min (unat chunk) (unat (ed_len dev) - unat off)"
    let ?bs = "take ?n (drop (unat off) (ed_buffer dev))"
    have len: "length ?bs = ?n" using assms(2) True by (auto simp: echo_ok_def)
    then have copied: "fst (ua_to U buf ?bs u) = 0" using assms(4) by simp
    then have u': "snd (ua_to U buf ?bs u) = ustore buf ?bs u" using assms(1) by (simp add: uaccess_ok_def)
    have off': "unat (off + of_nat ?n) = unat off + ?n"
      using assms(2) True by (intro unat_add_small) (auto simp: echo_ok_def)
    have "cat U fuel dev buf chunk (off + of_nat ?n) (ustore buf ?bs u)
        (tr @ [Sync (Lock_mutex (ed_mutex dev)), Sync (Unlock_mutex (ed_mutex dev))]) =
        Some (drop (unat (off + of_nat ?n)) (echo_message dev))"
      using Suc.prems assms(3) True by (intro Suc.IH) (auto simp: off')
    moreover have "?bs @ drop (unat off + ?n) (echo_message dev) = drop (unat off) (echo_message dev)"
    proof -
      have "drop (unat off) (echo_message dev) =
          take (unat (ed_len dev) - unat off) (drop (unat off) (ed_buffer dev))"
        by (simp add: echo_message_def drop_take)
      moreover have "drop (unat off + ?n) (echo_message dev) = drop ?n (drop (unat off) (echo_message dev))"
        by (simp add: add.commute)
      moreover have "take ?n (take m xs) = take ?n xs" if "?n \<le> m" for m and xs :: "byte list"
        using that by (simp add: min_def)
      ultimately show ?thesis
        by (metis append_take_drop_id min.cobounded2)
    qed
    moreover have "uload buf ?n (ustore buf ?bs u) = ?bs" using uload_ustore [of buf ?bs u] len by simp
    ultimately show ?thesis
      using read_locked_data [OF assms(2) True refl refl, of U buf chunk u] copied u' assms(3) True off'
      by (simp add: echo_defs)
  qed
qed

text \<open>
  Module initialisation.  Each stage fills one global that is still null: it asks for a block,
  runs a constructor that neither allocates nor cleans up, and stores the pointer.
\<close>

definition neutral :: "kcall \<Rightarrow> bool" where
  "neutral c \<longleftrightarrow> \<not> cleanup_call c \<and> (\<forall>n f p. c \<noteq> Mem (Kmalloc n f p))"

definition fills :: "allocator \<Rightarrow> oid \<Rightarrow> echo_module \<Rightarrow> echo_module \<Rightarrow> bool" where
  "fills alloc g s s' \<longleftrightarrow>
     (\<exists>n p ext. p = alloc (em_trace s) n GFP_KERNEL \<and> (\<forall>c\<in>set ext. neutral c) \<and>
        em_trace s' = em_trace s @ Mem (Kmalloc n GFP_KERNEL p) # ext \<and>
        (\<forall>h. h \<noteq> temporary \<longrightarrow> up_ptr (em_ptrs s' h) = (if h = g then p else up_ptr (em_ptrs s h))))"

lemma assign_temporary_null:
  "up_ptr (em_ptrs s g) = NULL \<Longrightarrow> g \<noteq> temporary \<Longrightarrow>
   em_trace (assign_temporary g tmp s) = em_trace s \<and>
   (\<forall>h. h \<noteq> temporary \<longrightarrow> up_ptr (em_ptrs (assign_temporary g tmp s) h) =
      (if h = g then up_ptr tmp else up_ptr (em_ptrs s h)))"
  by (auto simp: assign_temporary_def handle_defs Let_def)

lemmas fill_defs = neutral_def Let_def case_prod_beta make_unique_def UniquePtr_bool_def
  EchoDriver_ctor_def Mutex_ctor_def DeviceClass_ctor_def CharDevice_ctor_def Device_ctor_def

lemma fillsI:
  assumes "up_ptr (em_ptrs s1 g) = NULL" "g \<noteq> temporary" "em_ptrs s1 = em_ptrs s"
    and "p = alloc (em_trace s) n GFP_KERNEL" "up_ptr u = p"
    and "\<exists>ext. em_trace s1 = em_trace s @ Mem (Kmalloc n GFP_KERNEL p) # ext \<and> (\<forall>c\<in>set ext. neutral c)"
  shows "fills alloc g s (assign_temporary g u s1)"
  unfolding fills_def using assms assign_temporary_null [OF assms(1,2), of u] by auto

lemma new_driver_fills:
  "up_ptr (em_ptrs s g_driver) = NULL \<Longrightarrow> fills (ek_alloc K) g_driver s (new_driver K s)"
  unfolding new_driver_def Let_def case_prod_beta
  by (rule fillsI [where n = "ek_sizeof_driver K"]) (auto simp: fill_defs)

lemma new_class_fills:
  "up_ptr (em_ptrs s g_dev_class) = NULL \<Longrightarrow> fills (ek_alloc K) g_dev_class s (new_class K s)"
  unfolding new_class_def Let_def case_prod_beta
  by (rule fillsI [where n = "ek_sizeof_class K"]) (auto simp: fill_defs)

lemma new_char_dev_fills:
  "up_ptr (em_ptrs s g_char_dev) = NULL \<Longrightarrow> fills (ek_alloc K) g_char_dev s (new_char_dev K s)"
  unfolding new_char_dev_def Let_def case_prod_beta
  by (rule fillsI [where n = "ek_sizeof_cdev K"]) (auto simp: fill_defs)

lemma new_device_fills:
  "up_ptr (em_ptrs s g_device) = NULL \<Longrightarrow> fills (ek_alloc K) g_device s (new_device K s)"
  unfolding new_device_def Let_def case_prod_beta
  by (rule fillsI [where n = "ek_sizeof_device K"]) (auto simp: fill_defs)

text \<open>
  What holds after every stage: nothing was cleaned up, and the allocated blocks are those of the
  globals \<open>G\<close> filled so far, all different.
\<close>

definition slots :: "echo_module \<Rightarrow> oid set \<Rightarrow> ptr set" where
  "slots s G = (\<lambda>g. up_ptr (em_ptrs s g)) ` G - {NULL}"

lemma slots_superset:
  "A \<subseteq> B \<Longrightarrow> (\<And>g. g \<in> B \<Longrightarrow> g \<notin> A \<Longrightarrow> up_ptr (em_ptrs s g) = NULL) \<Longrightarrow> slots s A = slots s B"
  unfolding slots_def by (auto simp: image_iff)

definition minv :: "oid list \<Rightarrow> echo_module \<Rightarrow> bool" where
  "minv G s \<longleftrightarrow> filter cleanup_call (em_trace s) = [] \<and> heap_run (em_trace s) = Some (slots s (set G)) \<and>
     distinct (filter (\<lambda>p. p \<noteq> NULL) (map (\<lambda>g. up_ptr (em_ptrs s g)) G)) \<and>
     (\<forall>g. g \<noteq> temporary \<longrightarrow> g \<notin> set G \<longrightarrow> up_ptr (em_ptrs s g) = NULL)"

lemma heap_from_neutral: "\<forall>c\<in>set ext. neutral c \<Longrightarrow> heap_from L ext = Some L"
proof (induction ext)
  case (Cons c ext)
  then have "heap_step c L = Some L"
    by (cases "(c, L)" rule: heap_step.cases) (auto simp: neutral_def)
  with Cons show ?case by simp
qed simp

lemma filter_neutral: "\<forall>c\<in>set ext. neutral c \<Longrightarrow> filter cleanup_call ext = []"
  by (auto simp: neutral_def filter_empty_conv)

lemma minv_call:
  assumes "minv G s" "em_ptrs s' = em_ptrs s" "em_trace s' = em_trace s @ ext" "\<forall>c\<in>set ext. neutral c"
  shows "minv G s'"
  using assms by (simp add: minv_def slots_def filter_neutral heap_from_neutral)

lemma minv_fills:
  assumes "kmalloc_fresh alloc" "minv G s" "fills alloc g s s'" "g \<notin> set G" "temporary \<notin> set (g # G)"
  shows "minv (g # G) s'"
proof -
  from assms(3) obtain n p ext where p: "p = alloc (em_trace s) n GFP_KERNEL" "\<forall>c\<in>set ext. neutral c"
      "em_trace s' = em_trace s @ Mem (Kmalloc n GFP_KERNEL p) # ext"
      "\<And>h. h \<noteq> temporary \<Longrightarrow> up_ptr (em_ptrs s' h) = (if h = g then p else up_ptr (em_ptrs s h))"
    unfolding fills_def by blast
  have "x \<noteq> temporary \<and> x \<noteq> g" if "x \<in> set G" for x using that assms(4,5) by auto
  with p(4) assms(5) have G: "map (\<lambda>g. up_ptr (em_ptrs s' g)) G = map (\<lambda>g. up_ptr (em_ptrs s g)) G"
    and g: "up_ptr (em_ptrs s' g) = p"
    by auto
  have sl: "slots s' (set (g # G)) = slots s (set G) \<union> ({p} - {NULL})"
    using G g unfolding slots_def by (auto simp: map_eq_conv)
  from assms(1,2) p(1) have "p \<notin> slots s (set G)" by (auto simp: kmalloc_fresh_def minv_def)
  then have "p \<noteq> NULL \<Longrightarrow> p \<notin> (\<lambda>g. up_ptr (em_ptrs s g)) ` set G" by (simp add: slots_def)
  then show ?thesis
    using assms(2) p sl \<open>p \<notin> slots s (set G)\<close>
    by (auto simp: minv_def G g filter_neutral heap_from_neutral)
qed

lemma minv_statics: "minv [] echo_statics"
  by (simp add: minv_def slots_def echo_statics_def)

lemma minv_null: "minv G s \<Longrightarrow> g \<noteq> temporary \<Longrightarrow> g \<notin> set G \<Longrightarrow> up_ptr (em_ptrs s g) = NULL"
  by (simp add: minv_def)

lemma fills_other:
  "fills alloc g s s' \<Longrightarrow> h \<noteq> g \<Longrightarrow> h \<noteq> temporary \<Longrightarrow> up_ptr (em_ptrs s' h) = up_ptr (em_ptrs s h)"
  by (auto simp: fills_def)

text \<open>The states of the module between the stages, when no stage returns early.\<close>

definition st1 :: "echo_kernel \<Rightarrow> echo_module" where
  "st1 K = new_driver K echo_statics"

definition st2 :: "echo_kernel \<Rightarrow> echo_module" where
  "st2 K = (st1 K)\<lparr>em_dev_num := snd (ek_alloc_chrdev_region K (em_trace (st1 K))),
     em_trace := em_trace (st1 K) @ [Dev (Alloc_chrdev_region 0 1 (Some (''kpp_echo'' @ [NUL])))]\<rparr>"

definition st3 :: "echo_kernel \<Rightarrow> echo_module" where
  "st3 K = new_class K (st2 K)"

definition st4 :: "echo_kernel \<Rightarrow> echo_module" where
  "st4 K = new_char_dev K (st3 K)"

definition added :: "echo_kernel \<Rightarrow> int \<times> CharDevice \<times> trace" where
  "added K = CharDevice_add (ek_cdev_add K) (ptr_oid (UniquePtr_get (em_ptrs (st4 K) g_char_dev)))
     (em_cdev (st4 K)) (em_trace (st4 K))"

definition st5 :: "echo_kernel \<Rightarrow> echo_module" where
  "st5 K = (st4 K)\<lparr>em_cdev := fst (snd (added K)), em_trace := snd (snd (added K))\<rparr>"

definition st6 :: "echo_kernel \<Rightarrow> echo_module" where
  "st6 K = new_device K (st5 K)"

lemma echo_init_stages:
  "echo_driver_init K echo_statics =
     (if up_ptr (em_ptrs (st1 K) g_driver) = NULL then Some (- ENOMEM, st1 K)
      else if fst (ek_alloc_chrdev_region K (em_trace (st1 K))) < 0 then Some (- EFAULT, st2 K)
      else if up_ptr (em_ptrs (st3 K) g_dev_class) = NULL \<or> \<not> DeviceClass_bool (em_class (st3 K))
        then Some (- ENOMEM, st3 K)
      else if up_ptr (em_ptrs (st4 K) g_char_dev) = NULL then None
      else if fst (added K) < 0 then Some (- EFAULT, st5 K)
      else if up_ptr (em_ptrs (st6 K) g_device) = NULL \<or> \<not> Device_bool (em_device (st6 K))
        then Some (- ENOMEM, st6 K)
      else Some (0, st6 K))"
  unfolding st6_def st5_def added_def st4_def st3_def st2_def st1_def echo_driver_init_def Let_def
    case_prod_beta UniquePtr_bool_def
  by (simp only: not_not)

lemma stages_minv:
  assumes "kmalloc_fresh (ek_alloc K)"
  shows "minv [g_driver] (st1 K)" "minv [g_driver] (st2 K)" "minv [g_dev_class, g_driver] (st3 K)"
    "minv [g_char_dev, g_dev_class, g_driver] (st5 K)"
    "minv [g_device, g_char_dev, g_dev_class, g_driver] (st6 K)"
    "up_ptr (em_ptrs (st6 K) g_driver) = up_ptr (em_ptrs (st1 K) g_driver)"
    "up_ptr (em_ptrs (st6 K) g_dev_class) = up_ptr (em_ptrs (st3 K) g_dev_class)"
    "up_ptr (em_ptrs (st6 K) g_char_dev) = up_ptr (em_ptrs (st4 K) g_char_dev)"
proof -
  have f1: "fills (ek_alloc K) g_driver echo_statics (st1 K)"
    unfolding st1_def by (rule new_driver_fills) (simp add: echo_statics_def)
  show 1: "minv [g_driver] (st1 K)" by (rule minv_fills [OF assms minv_statics f1]) simp_all
  show 2: "minv [g_driver] (st2 K)" by (rule minv_call [OF 1]) (auto simp: st2_def neutral_def)
  have f3: "fills (ek_alloc K) g_dev_class (st2 K) (st3 K)"
    unfolding st3_def using minv_null [OF 2] by (intro new_class_fills) simp
  show 3: "minv [g_dev_class, g_driver] (st3 K)" by (rule minv_fills [OF assms 2 f3]) simp_all
  have f4: "fills (ek_alloc K) g_char_dev (st3 K) (st4 K)"
    unfolding st4_def using minv_null [OF 3] by (intro new_char_dev_fills) simp
  have 4: "minv [g_char_dev, g_dev_class, g_driver] (st4 K)" by (rule minv_fills [OF assms 3 f4]) simp_all
  show 5: "minv [g_char_dev, g_dev_class, g_driver] (st5 K)"
    by (rule minv_call [OF 4]) (auto simp: st5_def added_def CharDevice_add_def Let_def neutral_def)
  have f6: "fills (ek_alloc K) g_device (st5 K) (st6 K)"
    unfolding st6_def using minv_null [OF 5] by (intro new_device_fills) simp
  show "minv [g_device, g_char_dev, g_dev_class, g_driver] (st6 K)"
    by (rule minv_fills [OF assms 5 f6]) simp_all
  show "up_ptr (em_ptrs (st6 K) g_driver) = up_ptr (em_ptrs (st1 K) g_driver)"
      "up_ptr (em_ptrs (st6 K) g_dev_class) = up_ptr (em_ptrs (st3 K) g_dev_class)"
      "up_ptr (em_ptrs (st6 K) g_char_dev) = up_ptr (em_ptrs (st4 K) g_char_dev)"
    using fills_other [OF f3] fills_other [OF f4] fills_other [OF f6] by (auto simp: st2_def st5_def)
qed

lemma echo_init_minv:
  assumes "kmalloc_fresh (ek_alloc K)" "echo_driver_init K echo_statics = Some (ret, s)"
  shows "\<exists>G. set G \<subseteq> {g_driver, g_dev_class, g_char_dev, g_device} \<and> minv G s"
  using assms(2) stages_minv(1-5) [OF assms(1)] unfolding echo_init_stages
  by (force split: if_splits)

lemma echo_init_success:
  assumes "kmalloc_fresh (ek_alloc K)" "echo_driver_init K echo_statics = Some (0, s)"
  shows "minv [g_device, g_char_dev, g_dev_class, g_driver] s"
    and "card (slots s {g_driver, g_dev_class, g_char_dev, g_device}) = 4"
proof -
  from assms(2) have s: "s = st6 K" "up_ptr (em_ptrs (st1 K) g_driver) \<noteq> NULL"
      "up_ptr (em_ptrs (st3 K) g_dev_class) \<noteq> NULL" "up_ptr (em_ptrs (st4 K) g_char_dev) \<noteq> NULL"
      "up_ptr (em_ptrs (st6 K) g_device) \<noteq> NULL"
    unfolding echo_init_stages by (auto split: if_splits)
  show m: "minv [g_device, g_char_dev, g_dev_class, g_driver] s"
    using stages_minv(5) [OF assms(1)] s(1) by simp
  let ?ps = "map (\<lambda>g. up_ptr (em_ptrs s g)) [g_device, g_char_dev, g_dev_class, g_driver]"
  have nn: "\<forall>p\<in>set ?ps. p \<noteq> NULL" using s stages_minv(6-8) [OF assms(1)] by simp
  then have sl: "slots s {g_driver, g_dev_class, g_char_dev, g_device} = set ?ps"
    by (auto simp: slots_def)
  from nn have "filter (\<lambda>p. p \<noteq> NULL) ?ps = ?ps" by (rule filter_True)
  with m have "distinct ?ps" unfolding minv_def by (elim conjE) (simp only:)
  then have "card (set ?ps) = length ?ps" by (rule distinct_card)
  then show "card (slots s {g_driver, g_dev_class, g_char_dev, g_device}) = 4"
    unfolding sl by simp
qed

lemmas echo_eval = working_kernel_def echo_driver_init_def new_driver_def new_class_def new_char_dev_def
  new_device_def assign_temporary_def echo_statics_def handle_defs fill_defs bump_alloc_def
  DeviceClass_bool_def Device_bool_def CharDevice_add_def UniquePtr_ctor_def

lemma echo_exit_effect:
  "em_trace (echo_driver_exit s) = em_trace s @ [Dev (Unregister_chrdev_region (em_dev_num s) 1)]"
  "slots (echo_driver_exit s) {g_driver, g_dev_class, g_char_dev, g_device} = {}"
  by (auto simp: echo_driver_exit_def release_global_def UniquePtr_release_def slots_def Let_def)

section \<open>Properties\<close>

text \<open>
  C12.  Safety of the echo device: for any sequence of reads and writes, with any addresses, sizes
  and offsets (negative offsets included), and whatever faults user memory produces, no access
  leaves the 256-byte buffer, the stored length stays below 256, and every call takes the mutex and
  gives it back, on its error returns too.
\<close>

theorem EchoDriver_safe:
  assumes "uaccess_ok U" "EchoDriver_ctor m [] = (dev, tr)"
  shows "\<exists>s. echo_run U cs \<lparr>es_dev = dev, es_user = u, es_trace = tr\<rparr> = Some s \<and>
    length (ed_buffer (es_dev s)) = BUFFER_SIZE \<and> unat (ed_len (es_dev s)) < BUFFER_SIZE \<and>
    es_trace s = Sync (Mutex_init m) #
      concat (replicate (length cs) [Sync (Lock_mutex m), Sync (Unlock_mutex m)])"
proof -
  from assms(2) have d: "echo_ok dev" "ed_mutex dev = m" "tr = [Sync (Mutex_init m)]"
    by (auto simp: EchoDriver_ctor_def echo_ok_def Mutex_ctor_def)
  with echo_run_ok [OF assms(1), of "\<lparr>es_dev = dev, es_user = u, es_trace = tr\<rparr>" cs] show ?thesis
    by (auto simp: echo_ok_def)
qed

theorem EchoDriver_safe_witness:
  "\<exists>s. echo_run (bounded_uaccess 1000) [EWrite 900 (-1) 5, ERead 990 (-1) 7, ERead 100 300 (-2)]
     \<lparr>es_dev = fst (EchoDriver_ctor 1 []), es_user = (\<lambda>_. 65), es_trace = snd (EchoDriver_ctor 1 [])\<rparr> = Some s \<and>
     unat (ed_len (es_dev s)) < BUFFER_SIZE"
  using EchoDriver_safe [OF uaccess_ok_bounded [of 1000] prod.collapse [symmetric], where m = 1
      and cs = "[EWrite 900 (-1) 5, ERead 990 (-1) 7, ERead 100 300 (-2)]" and u = "\<lambda>_. 65"]
  by blast

text \<open>
  C13.  Round trip: after a successful write, a reader that reads in chunks of any positive size until
  end of file gets the first 255 bytes of what was written, and 256 reads are enough.
\<close>

theorem EchoDriver_write_read_roundtrip:
  assumes "uaccess_ok U" "echo_ok dev"
    and "EchoDriver_write U dev wbuf sz off u tr = (Some (ret, off', dev', u'), tr')" "0 \<le> ret"
    and "0 < unat chunk" "\<And>bs u. length bs \<le> unat chunk \<Longrightarrow> fst (ua_to U rbuf bs u) = 0"
  shows "ret = int (min (unat sz) 255) \<and> off' = 0 \<and> u' = u \<and>
    cat U 256 dev' rbuf chunk 0 u' tr' = Some (uload wbuf (min (unat sz) 255) u)"
proof -
  let ?n = "min (unat sz) 255"
  let ?r = "ua_from U wbuf (take ?n (ed_buffer dev)) u"
  from assms(3,4) write_locked_data(2) [OF assms(1,2) refl refl, where sz = sz and buf = wbuf and u = u and off = off]
  have w: "fst ?r = 0" "ret = int ?n" "off' = 0" "u' = u"
      "dev' = dev\<lparr>ed_buffer := (snd ?r @ drop ?n (ed_buffer dev))[?n := 0], ed_len := of_nat ?n\<rparr>"
    by (auto simp: echo_defs Let_def split: if_splits)
  have l: "length (snd ?r) = ?n" by (rule write_locked_data(1) [OF assms(1,2) refl refl])
  have "length (take ?n (ed_buffer dev)) = ?n" using assms(2) by (auto simp: echo_ok_def)
  with assms(1) w(1) have data: "snd ?r = uload wbuf ?n u" by (metis uaccess_ok_def)
  have len: "unat (ed_len dev') = ?n" using w(5) by (simp add: unat_of_nat)
  have "echo_ok dev'" using assms(2) l len w(5) by (auto simp: echo_ok_def)
  moreover have "echo_message dev' = uload wbuf ?n u"
    unfolding echo_message_def len using w(5) l data by simp
  ultimately show ?thesis
    using cat_collects [OF assms(1) _ assms(5,6), where dev = dev' and off = 0 and fuel = 256] w len by auto
qed

theorem EchoDriver_write_read_roundtrip_witness:
  "cat (bounded_uaccess 1000) 256
     \<lparr>ed_buffer = uload 40 3 (\<lambda>x. of_nat x) @ replicate 253 0, ed_len = 3, ed_mutex = 1\<rparr> 500 2 0 (\<lambda>x. of_nat x)
     [Sync (Lock_mutex 1), Sync (Unlock_mutex 1)] = Some (uload 40 3 (\<lambda>x. of_nat x))"
proof -
  let ?d = "\<lparr>ed_buffer = replicate 256 0, ed_len = 0, ed_mutex = 1\<rparr>"
  let ?u = "\<lambda>x. of_nat x :: byte"
  let ?d' = "\<lparr>ed_buffer = uload 40 3 ?u @ replicate 253 0, ed_len = 3, ed_mutex = 1\<rparr>"
  have ok: "echo_ok ?d" by (simp add: echo_ok_def)
  have rep: "(replicate 253 (0 :: byte))[0 := 0] = replicate 253 0" by (simp add: list_update_same_conv)
  have "fst (ua_from (bounded_uaccess 1000) 40 (take 3 (ed_buffer ?d)) ?u) = 0"
      "snd (ua_from (bounded_uaccess 1000) 40 (take 3 (ed_buffer ?d)) ?u) = uload 40 3 ?u"
    using uaccess_ok_bounded [of 1000] by (simp_all add: uaccess_ok_def bounded_uaccess_def uload_take)
  then have "EchoDriver_write (bounded_uaccess 1000) ?d 40 3 0 ?u [] =
      (Some (3, 0, ?d', ?u), [Sync (Lock_mutex 1), Sync (Unlock_mutex 1)])"
    using write_locked_data(2) [OF uaccess_ok_bounded ok refl refl, where sz = 3 and buf = 40 and u = ?u and off = 0] rep
    by (simp add: echo_defs list_update_append)
  from EchoDriver_write_read_roundtrip [OF uaccess_ok_bounded ok this, of 2 500] show ?thesis
    by (simp add: bounded_uaccess_def)
qed

text \<open>
  A write that faults is not harmless: it returns \<open>-EFAULT\<close> and leaves the length alone, but
  the bytes copied before the fault are already in the buffer, so the message that readers get
  afterwards is a mixture of the new data and the old message.
\<close>

theorem EchoDriver_failed_write_changes_message:
  assumes "uaccess_ok U" "echo_ok dev" "n = min (unat sz) 255"
    and "ua_from U buf (take n (ed_buffer dev)) u = (left, partial)" "left \<noteq> 0"
  shows "\<exists>dev'. EchoDriver_write U dev buf sz off u tr =
      (Some (- EFAULT, off, dev', u), tr @ [Sync (Lock_mutex (ed_mutex dev)), Sync (Unlock_mutex (ed_mutex dev))]) \<and>
    ed_len dev' = ed_len dev \<and> echo_message dev' =
      take (unat (ed_len dev)) partial @ drop n (echo_message dev)"
proof -
  from write_locked_data(1) [OF assms(1-3) refl, where buf = buf and u = u] assms(4) have "length partial = n" by simp
  with write_locked_data(2) [OF assms(1-3) refl, where buf = buf and u = u and off = off] assms(4,5) show ?thesis
    by (simp add: echo_defs echo_message_def drop_take)
qed

theorem EchoDriver_failed_write_changes_message_witness:
  "\<exists>dev'. EchoDriver_write (bounded_uaccess 100)
       \<lparr>ed_buffer = 104 # 105 # replicate 254 0, ed_len = 2, ed_mutex = 1\<rparr> 99 2 0 (\<lambda>_. 120) [] =
     (Some (- EFAULT, 0, dev', \<lambda>_. 120), [Sync (Lock_mutex 1), Sync (Unlock_mutex 1)]) \<and>
     echo_message dev' = [120, 0]"
proof -
  let ?d = "\<lparr>ed_buffer = 104 # 105 # replicate 254 (0 :: byte), ed_len = 2, ed_mutex = 1\<rparr>"
  have ok: "echo_ok ?d" by (simp add: echo_ok_def)
  have p: "ua_from (bounded_uaccess 100) 99 (take 2 (ed_buffer ?d)) (\<lambda>_. 120) = (1, [120, 0])"
    by (simp add: bounded_uaccess_def uload_def numeral_2_eq_2)
  have "2 = min (unat (2 :: c_ulong)) 255" by simp
  from EchoDriver_failed_write_changes_message [OF uaccess_ok_bounded ok this p, of 0 "[]"] show ?thesis
    by (auto simp: echo_message_def)
qed

text \<open>
  C35.  Unloading the module leaks everything.  After a successful \<open>echo_driver_init\<close>,
  \<open>echo_driver_exit\<close> empties the four globals, and of all the calls that would undo the
  initialisation it makes only \<open>unregister_chrdev_region\<close>: the four blocks stay allocated, and
  the class, the character device and the device stay registered.
\<close>

theorem echo_load_unload_leaks:
  assumes "kmalloc_fresh (ek_alloc K)" "echo_driver_init K echo_statics = Some (0, s)"
  shows "(\<exists>blocks. heap_run (em_trace (echo_driver_exit s)) = Some blocks \<and> card blocks = 4) \<and>
    filter cleanup_call (em_trace (echo_driver_exit s)) = [Dev (Unregister_chrdev_region (em_dev_num s) 1)] \<and>
    slots (echo_driver_exit s) {g_driver, g_dev_class, g_char_dev, g_device} = {}"
proof -
  from echo_init_success [OF assms] have "heap_run (em_trace s) = Some (slots s {g_driver, g_dev_class, g_char_dev, g_device})"
      "filter cleanup_call (em_trace s) = []"
    by (auto simp: minv_def insert_commute)
  with echo_init_success(2) [OF assms] show ?thesis
    by (simp add: echo_exit_effect [simplified])
qed

theorem echo_load_unload_leaks_witness:
  "\<exists>s. echo_driver_init working_kernel echo_statics = Some (0, s) \<and>
     filter cleanup_call (em_trace (echo_driver_exit s)) = [Dev (Unregister_chrdev_region (em_dev_num s) 1)]"
proof -
  obtain s where r: "echo_driver_init working_kernel echo_statics = Some (0, s)"
    by (simp add: echo_eval)
  have "kmalloc_fresh (ek_alloc working_kernel)"
    using kmalloc_fresh_bump by (simp add: working_kernel_def)
  from echo_load_unload_leaks [OF this r] r show ?thesis by blast
qed

text \<open>
  A failing \<open>echo_driver_init\<close> undoes nothing: on every error return the blocks allocated so
  far are still allocated, and no class, device, region or block has been given back.
\<close>

theorem echo_init_never_undoes:
  assumes "kmalloc_fresh (ek_alloc K)" "echo_driver_init K echo_statics = Some (ret, s)"
  shows "filter cleanup_call (em_trace s) = [] \<and>
    heap_run (em_trace s) = Some (slots s {g_driver, g_dev_class, g_char_dev, g_device})"
proof -
  from echo_init_minv [OF assms] obtain G where
    G: "set G \<subseteq> {g_driver, g_dev_class, g_char_dev, g_device}" "minv G s" by blast
  have "slots s (set G) = slots s {g_driver, g_dev_class, g_char_dev, g_device}"
    by (rule slots_superset [OF G(1)]) (auto intro: minv_null [OF G(2)])
  with G(2) show ?thesis by (simp add: minv_def)
qed

theorem echo_init_never_undoes_witness:
  "\<exists>s. echo_driver_init (working_kernel\<lparr>ek_cdev_add := \<lambda>_ _ _ _. - 16\<rparr>) echo_statics = Some (- EFAULT, s) \<and>
     heap_run (em_trace s) = Some (slots s {g_driver, g_dev_class, g_char_dev, g_device})"
proof -
  let ?K = "working_kernel\<lparr>ek_cdev_add := \<lambda>_ _ _ _. - 16\<rparr>"
  obtain s where r: "echo_driver_init ?K echo_statics = Some (- EFAULT, s)"
    by (simp add: echo_eval)
  have "kmalloc_fresh (ek_alloc ?K)"
    using kmalloc_fresh_bump by (simp add: working_kernel_def)
  from echo_init_never_undoes [OF this r] r show ?thesis by blast
qed

text \<open>
  \<open>echo_driver_init\<close> can dereference a null pointer: the result of the third \<open>make_unique\<close> is
  used without a test, so when that allocation fails, all else being well, the call
  \<open>g_char_dev->add()\<close> faults.
\<close>

theorem echo_init_null_dereference:
  "\<exists>K. kmalloc_fresh (ek_alloc K) \<and> echo_driver_init K echo_statics = None"
proof -
  let ?a = "\<lambda>tr n f. if n = 3 then NULL else bump_alloc tr n f"
  let ?K = "working_kernel\<lparr>ek_alloc := ?a\<rparr>"
  have "kmalloc_fresh (ek_alloc ?K)"
    using kmalloc_fresh_bump heap_run_no_NULL by (simp add: kmalloc_fresh_def)
  moreover have "echo_driver_init ?K echo_statics = None"
    by (simp add: echo_eval)
  ultimately show ?thesis by blast
qed

end
