(* ===== verification/Kpp_EchoThreads.thy ===== *)
theory Kpp_EchoThreads
  imports Kpp_Echo
begin

text \<open>
  The echo device of \<^verbatim>\<open>driver/driver.cpp\<close> used by several threads at once.

  Between two statements of a thread, any other thread may run.  \<open>echo_pc\<close> is where a thread is in
  \<open>read\<close> or \<open>write\<close>, \<open>pc_step\<close> executes the next statement, and \<open>finish\<close> the rest of the call; run without
  interruption from the start they are \<open>read_locked\<close> and \<open>write_locked\<close>.  The mutex of the kernel is
  its owner: locking it waits until it has none.
\<close>

section \<open>Statement by statement\<close>

text \<open>
  \<open>Leave ret off\<close>: about to return \<open>ret\<close> with the file offset \<open>off\<close>, which runs the destructor of the guard.
\<close>

datatype echo_pc =
    Ready
  | Waiting
  | R_check nat c_ulong c_ulong
  | R_copy nat c_ulong c_ulong
  | W_copy nat c_ulong c_ulong
  | W_len c_ulong
  | W_nul c_ulong
  | Leave int c_ulong

fun entry :: "echo_cmd \<Rightarrow> echo_pc" where
  "entry (ERead buf sz off) = R_check buf sz off"
| "entry (EWrite buf sz off) = W_copy buf sz off"

fun pc_step :: "uaccess \<Rightarrow> echo_pc \<Rightarrow> EchoDriver \<Rightarrow> umem \<Rightarrow> (echo_pc \<times> EchoDriver \<times> umem) option" where
  "pc_step U (R_check buf sz off) dev u =
     (if off \<ge> ed_len dev then Some (Leave 0 off, dev, u)
      else Some (R_copy buf (min sz (ed_len dev - off)) off, dev, u))"
| "pc_step U (R_copy buf cnt off) dev u =
     (case slice (unat off) (unat cnt) (ed_buffer dev) of
        None \<Rightarrow> None
      | Some bytes \<Rightarrow>
          let (e, u') = kpp_copy_to_user U buf bytes u
          in if Error_is_error e then Some (Leave (- EFAULT) off, dev, u')
             else Some (Leave (sint cnt) (off + cnt), dev, u'))"
| "pc_step U (W_copy buf sz off) dev u =
     (let cnt = min sz (of_nat BUFFER_SIZE - 1)
      in case slice 0 (unat cnt) (ed_buffer dev) of
           None \<Rightarrow> None
         | Some old \<Rightarrow>
             let (e, new) = kpp_copy_from_user U old buf u;
                 dev1 = dev\<lparr>ed_buffer := new @ drop (unat cnt) (ed_buffer dev)\<rparr>
             in if Error_is_error e then Some (Leave (- EFAULT) off, dev1, u)
                else Some (W_len cnt, dev1, u))"
| "pc_step U (W_len cnt) dev u = Some (W_nul cnt, dev\<lparr>ed_len := cnt\<rparr>, u)"
| "pc_step U (W_nul cnt) dev u =
     (if unat (ed_len dev) < length (ed_buffer dev)
      then Some (Leave (sint cnt) 0, dev\<lparr>ed_buffer := (ed_buffer dev)[unat (ed_len dev) := 0]\<rparr>, u)
      else None)"
| "pc_step U pc dev u = None"

text \<open>The number of statements left before the guard is destroyed.\<close>

fun pc_left :: "echo_pc \<Rightarrow> nat" where
  "pc_left (R_check _ _ _) = 2"
| "pc_left (R_copy _ _ _) = 1"
| "pc_left (W_copy _ _ _) = 3"
| "pc_left (W_len _) = 2"
| "pc_left (W_nul _) = 1"
| "pc_left _ = 0"

lemma pc_step_left: "pc_step U pc dev u = Some (pc', dev', u') \<Longrightarrow> pc_left pc' < pc_left pc"
  by (cases "(U, pc, dev, u)" rule: pc_step.cases) (auto simp: Let_def split: if_splits option.splits prod.splits)

function finish :: "uaccess \<Rightarrow> echo_pc \<Rightarrow> EchoDriver \<Rightarrow> umem \<Rightarrow> echo_result" where
  "finish U pc dev u =
     (case pc of
        Leave ret off \<Rightarrow> Some (ret, off, dev, u)
      | _ \<Rightarrow> (case pc_step U pc dev u of None \<Rightarrow> None | Some (pc', dev', u') \<Rightarrow> finish U pc' dev' u'))"
  by pat_completeness auto

termination
  by (relation "measure (\<lambda>(U, pc, dev, u). pc_left pc)") (auto simp del: pc_step.simps pc_left.simps dest: pc_step_left)

declare finish.simps [simp del]

lemma finish_Leave [simp]: "finish U (Leave ret off) dev u = Some (ret, off, dev, u)"
  by (simp add: finish.simps)

lemma finish_step:
  "pc_step U pc dev u = Some (pc', dev', u') \<Longrightarrow> finish U pc dev u = finish U pc' dev' u'"
  by (subst finish.simps) (cases pc; simp)

lemma finish_None:
  "(\<nexists>ret off. pc = Leave ret off) \<Longrightarrow> pc_step U pc dev u = None \<Longrightarrow> finish U pc dev u = None"
  by (subst finish.simps) (cases pc; simp)

text \<open>A call as a whole, through the member functions.\<close>

fun echo_call :: "uaccess \<Rightarrow> echo_cmd \<Rightarrow> EchoDriver \<Rightarrow> umem \<Rightarrow> echo_result" where
  "echo_call U (ERead buf sz off) dev u = fst (EchoDriver_read U dev buf sz off u [])"
| "echo_call U (EWrite buf sz off) dev u = fst (EchoDriver_write U dev buf sz off u [])"

lemma finish_R_check: "finish U (R_check buf sz off) dev u = read_locked U dev buf sz off u"
proof (cases "ed_len dev \<le> off")
  case True
  then show ?thesis by (simp add: finish_step read_locked_def)
next
  case False
  let ?c = "min sz (ed_len dev - off)"
  from False have "finish U (R_check buf sz off) dev u = finish U (R_copy buf ?c off) dev u"
    by (simp add: finish_step)
  also have "\<dots> = read_locked U dev buf sz off u"
  proof (cases "slice (unat off) (unat ?c) (ed_buffer dev)")
    case None
    with False show ?thesis by (simp add: finish_None read_locked_def Let_def)
  next
    case (Some bytes)
    with False show ?thesis
      by (cases "kpp_copy_to_user U buf bytes u") (simp add: finish_step read_locked_def Let_def)
  qed
  finally show ?thesis .
qed

lemma finish_W_len:
  "finish U (W_len cnt) dev u =
     (if unat cnt < length (ed_buffer dev)
      then Some (sint cnt, 0, dev\<lparr>ed_len := cnt, ed_buffer := (ed_buffer dev)[unat cnt := 0]\<rparr>, u) else None)"
proof -
  have "finish U (W_len cnt) dev u = finish U (W_nul cnt) (dev\<lparr>ed_len := cnt\<rparr>) u"
    by (simp add: finish_step)
  then show ?thesis by (simp add: finish_step finish_None)
qed

lemma finish_W_copy: "finish U (W_copy buf sz off) dev u = write_locked U dev buf sz off u"
proof (cases "slice 0 (unat (min sz (of_nat BUFFER_SIZE - 1))) (ed_buffer dev)")
  case None
  then show ?thesis by (simp add: finish_None write_locked_def Let_def)
next
  case (Some old)
  obtain e new where c: "kpp_copy_from_user U old buf u = (e, new)" by (cases "kpp_copy_from_user U old buf u")
  let ?n = "min sz (of_nat BUFFER_SIZE - 1)"
  let ?d = "dev\<lparr>ed_buffer := new @ drop (unat ?n) (ed_buffer dev)\<rparr>"
  show ?thesis
  proof (cases "Error_is_error e")
    case True
    with Some c have "pc_step U (W_copy buf sz off) dev u = Some (Leave (- EFAULT) off, ?d, u)"
      by (simp add: Let_def)
    from finish_step [OF this] True Some c show ?thesis by (simp add: write_locked_def Let_def)
  next
    case False
    with Some c have "pc_step U (W_copy buf sz off) dev u = Some (W_len ?n, ?d, u)" by (simp add: Let_def)
    from finish_step [OF this] False Some c show ?thesis by (simp add: write_locked_def Let_def finish_W_len)
  qed
qed

lemma finish_entry: "finish U (entry c) dev u = echo_call U c dev u"
  by (cases c) (simp_all add: finish_R_check finish_W_copy echo_defs)

section \<open>Threads\<close>

text \<open>
  \<open>et_owner\<close> is the owner of the mutex, \<open>et_done\<close> the calls that have returned with what they returned,
  in the order of their unlocking (history).  \<open>VLock\<close> is possible only while the mutex is free; nothing
  else looks at the owner.
\<close>

record echo_threads =
  et_dev :: EchoDriver
  et_user :: umem
  et_owner :: "nat option"
  et_pc :: "nat \<Rightarrow> echo_pc"
  et_cmd :: "nat \<Rightarrow> echo_cmd"
  et_done :: "(echo_cmd \<times> int \<times> c_ulong) list"

datatype echo_event = VCall nat echo_cmd | VLock nat | VStep nat | VUnlock nat

fun inside :: "echo_pc \<Rightarrow> bool" where
  "inside Ready = False"
| "inside Waiting = False"
| "inside _ = True"

fun vstep :: "uaccess \<Rightarrow> echo_event \<Rightarrow> echo_threads \<Rightarrow> echo_threads outcome" where
  "vstep U (VCall t c) s =
     (if et_pc s t = Ready
      then Ok (s\<lparr>et_pc := (et_pc s)(t := Waiting), et_cmd := (et_cmd s)(t := c)\<rparr>) else Ill_formed)"
| "vstep U (VLock t) s =
     (if et_pc s t = Waiting \<and> et_owner s = None
      then Ok (s\<lparr>et_pc := (et_pc s)(t := entry (et_cmd s t)), et_owner := Some t\<rparr>) else Ill_formed)"
| "vstep U (VStep t) s =
     (if \<not> inside (et_pc s t) \<or> pc_left (et_pc s t) = 0 then Ill_formed
      else case pc_step U (et_pc s t) (et_dev s) (et_user s) of
        None \<Rightarrow> Fault
      | Some (pc, dev, u) \<Rightarrow> Ok (s\<lparr>et_pc := (et_pc s)(t := pc), et_dev := dev, et_user := u\<rparr>))"
| "vstep U (VUnlock t) s =
     (case et_pc s t of
        Leave ret off \<Rightarrow> Ok (s\<lparr>et_pc := (et_pc s)(t := Ready), et_owner := None,
                              et_done := et_done s @ [(et_cmd s t, ret, off)]\<rparr>)
      | _ \<Rightarrow> Ill_formed)"

fun vrun :: "uaccess \<Rightarrow> echo_event list \<Rightarrow> echo_threads \<Rightarrow> echo_threads outcome" where
  "vrun U [] s = Ok s"
| "vrun U (e # es) s =
     (case vstep U e s of Ok s' \<Rightarrow> vrun U es s' | Ill_formed \<Rightarrow> Ill_formed | Fault \<Rightarrow> Fault)"

definition vstart :: "EchoDriver \<Rightarrow> umem \<Rightarrow> echo_threads" where
  "vstart dev u = \<lparr>et_dev = dev, et_user = u, et_owner = None, et_pc = (\<lambda>_. Ready),
     et_cmd = (\<lambda>_. ERead 0 0 0), et_done = []\<rparr>"

text \<open>
  The reference: the calls one after the other, each returning what the list says; \<open>None\<close> if one
  returns something else.
\<close>

fun serial :: "uaccess \<Rightarrow> (echo_cmd \<times> int \<times> c_ulong) list \<Rightarrow> EchoDriver \<times> umem \<Rightarrow> (EchoDriver \<times> umem) option" where
  "serial U [] du = Some du"
| "serial U ((c, ret, off) # cs) (dev, u) =
     (case echo_call U c dev u of
        None \<Rightarrow> None
      | Some (ret', off', dev', u') \<Rightarrow> if ret' = ret \<and> off' = off then serial U cs (dev', u') else None)"

section \<open>The invariant\<close>

text \<open>
  \<open>dev\<close> and \<open>u\<close> are the device and the user memory after the finished calls.  If the mutex is free they
  are the present ones and no thread is inside; if a thread owns it, only this thread is inside, and
  the rest of its call leads to what the whole call would have led to.
\<close>

definition vinv :: "uaccess \<Rightarrow> EchoDriver \<times> umem \<Rightarrow> echo_threads \<Rightarrow> bool" where
  "vinv U du s \<longleftrightarrow> (\<exists>dev u. serial U (et_done s) du = Some (dev, u) \<and> echo_ok dev \<and>
     (case et_owner s of
        None \<Rightarrow> et_dev s = dev \<and> et_user s = u \<and> (\<forall>t. \<not> inside (et_pc s t))
      | Some t \<Rightarrow> inside (et_pc s t) \<and> (\<forall>t'. t' \<noteq> t \<longrightarrow> \<not> inside (et_pc s t')) \<and>
          finish U (et_pc s t) (et_dev s) (et_user s) = echo_call U (et_cmd s t) dev u))"

lemma vinvE:
  assumes "vinv U du s"
  obtains (free) "serial U (et_done s) du = Some (et_dev s, et_user s)" "echo_ok (et_dev s)" "et_owner s = None"
      "\<forall>t. \<not> inside (et_pc s t)"
    | (held) t dev u where "serial U (et_done s) du = Some (dev, u)" "echo_ok dev" "et_owner s = Some t"
      "inside (et_pc s t)" "\<forall>t'. t' \<noteq> t \<longrightarrow> \<not> inside (et_pc s t')"
      "finish U (et_pc s t) (et_dev s) (et_user s) = echo_call U (et_cmd s t) dev u"
  using assms by (auto simp: vinv_def split: option.splits)

lemma inside_entry [simp]: "inside (entry c)"
  by (cases c) simp_all

lemma inside_pc_step: "pc_step U pc dev u = Some (pc', dev', u') \<Longrightarrow> inside pc'"
  by (cases "(U, pc, dev, u)" rule: pc_step.cases) (auto simp: Let_def split: if_splits option.splits prod.splits)

lemma inside_cases: "inside pc \<Longrightarrow> pc_left pc = 0 \<Longrightarrow> \<exists>ret off. pc = Leave ret off"
  by (cases pc) auto

lemma echo_call_ok:
  assumes "uaccess_ok U" "echo_ok dev"
  shows "\<exists>ret off' dev' u'. echo_call U c dev u = Some (ret, off', dev', u') \<and> echo_ok dev'"
proof (cases c)
  case (ERead buf sz off)
  with read_locked_ok [OF assms(2), of U buf sz off u] assms(2) show ?thesis by (auto simp: echo_defs)
next
  case (EWrite buf sz off)
  with write_locked_ok [OF assms, of buf sz off u] show ?thesis by (auto simp: echo_defs)
qed

lemma serial_append:
  "serial U (cs @ ds) du = (case serial U cs du of None \<Rightarrow> None | Some du' \<Rightarrow> serial U ds du')"
  by (induction U cs du rule: serial.induct) (auto split: option.splits)

definition vsafe :: "uaccess \<Rightarrow> EchoDriver \<times> umem \<Rightarrow> echo_threads outcome \<Rightarrow> bool" where
  "vsafe U du r = (case r of Ok s \<Rightarrow> vinv U du s | Ill_formed \<Rightarrow> True | Fault \<Rightarrow> False)"

lemma vsafe_simps [simp]: "vsafe U du (Ok s) = vinv U du s" "vsafe U du Ill_formed" "\<not> vsafe U du Fault"
  by (simp_all add: vsafe_def)

lemma vsafe_VCall: "vinv U du s \<Longrightarrow> vsafe U du (vstep U (VCall t c) s)"
  by (erule vinvE) (auto simp: vinv_def)

lemma vsafe_VLock: "vinv U du s \<Longrightarrow> vsafe U du (vstep U (VLock t) s)"
  by (erule vinvE) (auto simp: vinv_def finish_entry)

lemma vsafe_VStep:
  assumes "uaccess_ok U" "vinv U du s"
  shows "vsafe U du (vstep U (VStep t) s)"
proof (cases "inside (et_pc s t) \<and> pc_left (et_pc s t) \<noteq> 0")
  case True
  then have in_t: "inside (et_pc s t)" and nl: "\<nexists>ret off. et_pc s t = Leave ret off" by auto
  from assms(2) show ?thesis
  proof (cases rule: vinvE)
    case free
    with in_t show ?thesis by blast
  next
    case (held t' dev u)
    with in_t have t: "t' = t" by metis
    from echo_call_ok [OF assms(1) held(2), of "et_cmd s t" u] held(6) t
    have "finish U (et_pc s t) (et_dev s) (et_user s) \<noteq> None" by auto
    then obtain pc d w where step: "pc_step U (et_pc s t) (et_dev s) (et_user s) = Some (pc, d, w)"
      using finish_None [OF nl, of U "et_dev s" "et_user s"]
      by (cases "pc_step U (et_pc s t) (et_dev s) (et_user s)") auto
    from finish_step [OF step] inside_pc_step [OF step] held t True step show ?thesis by (auto simp: vinv_def)
  qed
qed auto

lemma vsafe_VUnlock:
  assumes "uaccess_ok U" "vinv U du s"
  shows "vsafe U du (vstep U (VUnlock t) s)"
proof (cases "\<exists>ret off. et_pc s t = Leave ret off")
  case True
  then obtain ret off where pc: "et_pc s t = Leave ret off" by blast
  then have in_t: "inside (et_pc s t)" by simp
  from assms(2) show ?thesis
  proof (cases rule: vinvE)
    case free
    with in_t show ?thesis by blast
  next
    case (held t' dev u)
    with in_t have t: "t' = t" by metis
    with held(6) pc have call: "echo_call U (et_cmd s t) dev u = Some (ret, off, et_dev s, et_user s)" by simp
    with echo_call_ok [OF assms(1) held(2), of "et_cmd s t" u] have "echo_ok (et_dev s)" by auto
    with call held t pc show ?thesis by (auto simp: vinv_def serial_append)
  qed
qed (auto split: echo_pc.splits)

lemma vstep_safe: "uaccess_ok U \<Longrightarrow> vinv U du s \<Longrightarrow> vsafe U du (vstep U e s)"
  by (cases e) (simp_all only: vsafe_VCall vsafe_VLock vsafe_VStep vsafe_VUnlock)

lemma vrun_safe: "uaccess_ok U \<Longrightarrow> vinv U du s \<Longrightarrow> vsafe U du (vrun U es s)"
proof (induction es arbitrary: s)
  case (Cons e es)
  from vstep_safe [OF Cons.prems, of e] Cons.IH [OF Cons.prems(1)] show ?case
    by (cases "vstep U e s") auto
qed simp

lemma vinv_start: "echo_ok dev \<Longrightarrow> vinv U (dev, u) (vstart dev u)"
  by (simp add: vinv_def vstart_def)

text \<open>A thread inside its call needs at most \<open>pc_left\<close> more steps to the unlocking.\<close>

lemma vrun_append:
  "vrun U (es @ fs) s = (case vrun U es s of Ok s' \<Rightarrow> vrun U fs s' | Ill_formed \<Rightarrow> Ill_formed | Fault \<Rightarrow> Fault)"
  by (induction es arbitrary: s) (auto split: outcome.splits)

lemma leaves:
  assumes "uaccess_ok U"
  shows "vinv U du s \<Longrightarrow> inside (et_pc s t) \<Longrightarrow> pc_left (et_pc s t) \<le> n \<Longrightarrow>
    \<exists>k s'. k \<le> n \<and> vrun U (replicate k (VStep t) @ [VUnlock t]) s = Ok s' \<and> et_owner s' = None \<and>
      et_pc s' t = Ready \<and> length (et_done s') = Suc (length (et_done s))"
proof (induction n arbitrary: s)
  case 0
  then obtain ret off where "et_pc s t = Leave ret off" using inside_cases by blast
  then show ?case by (intro exI [of _ 0]) simp
next
  case (Suc n)
  show ?case
  proof (cases "pc_left (et_pc s t) = 0")
    case True
    with Suc.prems obtain ret off where "et_pc s t = Leave ret off" using inside_cases by blast
    then show ?thesis by (intro exI [of _ 0]) simp
  next
    case False
    with vstep_safe [OF assms Suc.prems(1), of "VStep t"] Suc.prems(2) obtain pc d w where
      step: "pc_step U (et_pc s t) (et_dev s) (et_user s) = Some (pc, d, w)"
      by (cases "pc_step U (et_pc s t) (et_dev s) (et_user s)") auto
    let ?s = "s\<lparr>et_pc := (et_pc s)(t := pc), et_dev := d, et_user := w\<rparr>"
    have ok: "vstep U (VStep t) s = Ok ?s" using False Suc.prems(2) step by simp
    with vstep_safe [OF assms Suc.prems(1), of "VStep t"] have "vinv U du ?s" by simp
    moreover have "pc_left (et_pc ?s t) \<le> n" using pc_step_left [OF step] Suc.prems(3) by simp
    moreover have "inside (et_pc ?s t)" using inside_pc_step [OF step] by simp
    ultimately obtain k s' where "k \<le> n" "vrun U (replicate k (VStep t) @ [VUnlock t]) ?s = Ok s'"
      "et_owner s' = None" "et_pc s' t = Ready" "length (et_done s') = Suc (length (et_done s))"
      using Suc.IH [of ?s] by auto
    with ok show ?thesis by (intro exI [of _ "Suc k"] exI [of _ s']) (auto simp del: vstep.simps)
  qed
qed

section \<open>Results\<close>

text \<open>
  What the virtual file system may expect of a result: a negative error number and an unchanged
  offset, or a count that is not larger than was asked for; \<open>read\<close> advances the offset by the count,
  while \<open>write\<close> sets it back to the start.
\<close>

fun echo_contract :: "echo_cmd \<times> int \<times> c_ulong \<Rightarrow> bool" where
  "echo_contract (ERead buf sz off, ret, off') \<longleftrightarrow>
     ret = - EFAULT \<and> off' = off \<or>
     0 \<le> ret \<and> ret \<le> int (min (unat sz) 255) \<and> unat off' = unat off + nat ret"
| "echo_contract (EWrite buf sz off, ret, off') \<longleftrightarrow>
     ret = - EFAULT \<and> off' = off \<or> ret = int (min (unat sz) 255) \<and> off' = 0"

lemma read_locked_contract:
  assumes "echo_ok dev" "read_locked U dev buf sz off u = Some (ret, off', dev', u')"
  shows "echo_contract (ERead buf sz off, ret, off')"
proof (cases "ed_len dev \<le> off")
  case True
  with assms(2) show ?thesis by (simp add: read_locked_eof)
next
  case False
  then have l: "unat off < unat (ed_len dev)" by (simp add: word_le_nat_alt)
  let ?n = "min (unat sz) (unat (ed_len dev) - unat off)"
  have "unat off + ?n < 256" using assms(1) l by (auto simp: echo_ok_def)
  then have "unat (off + of_nat ?n) = unat off + ?n" by (intro unat_add_small) simp
  with read_locked_data [OF assms(1) l refl refl, of U buf sz u] assms(1,2) l show ?thesis
    by (auto simp: echo_ok_def split: if_splits)
qed

lemma echo_call_contract:
  assumes "uaccess_ok U" "echo_ok dev" "echo_call U c dev u = Some (ret, off', dev', u')"
  shows "echo_contract (c, ret, off')"
proof (cases c)
  case (ERead buf sz off)
  with assms(2,3) read_locked_contract show ?thesis by (simp add: echo_defs)
next
  case (EWrite buf sz off)
  with assms(3) write_locked_data(2) [OF assms(1,2) refl refl, where sz = sz and buf = buf and u = u and off = off] show ?thesis
    by (auto simp: echo_defs Let_def split: if_splits)
qed

lemma serial_contract:
  assumes "uaccess_ok U"
  shows "serial U cs (dev, u) = Some du \<Longrightarrow> echo_ok dev \<Longrightarrow> \<forall>c\<in>set cs. echo_contract c"
proof (induction cs arbitrary: dev u)
  case (Cons x cs)
  obtain c ret off where x: "x = (c, ret, off)" by (cases x)
  with Cons.prems(1) obtain dev' u' where
    1: "echo_call U c dev u = Some (ret, off, dev', u')" "serial U cs (dev', u') = Some du"
    by (auto split: option.splits if_splits)
  from echo_call_ok [OF assms Cons.prems(2), of c u] 1(1) have "echo_ok dev'" by auto
  with Cons.IH [OF 1(2)] echo_call_contract [OF assms Cons.prems(2) 1(1)] x show ?case by simp
qed simp

section \<open>Properties\<close>

text \<open>
  C5.  The echo device is linearizable: in every interleaving of the statements of any number of
  threads that read and write, no access leaves the buffer, at most one thread is inside its call,
  and whenever the mutex is free, the calls that have returned can be put in one order, that of
  their unlocking, in which \<open>read\<close> and \<open>write\<close> executed as a whole one after the other return the
  same results and file offsets and leave the same device and the same user memory.
\<close>

theorem EchoDriver_linearizable:
  assumes "uaccess_ok U" "EchoDriver_ctor m tr = (dev, tr')"
  shows "vrun U es (vstart dev u) \<noteq> Fault \<and>
    (\<forall>s. vrun U es (vstart dev u) = Ok s \<longrightarrow>
       (\<forall>t t'. inside (et_pc s t) \<and> inside (et_pc s t') \<longrightarrow> t = t') \<and>
       (et_owner s = None \<longrightarrow> serial U (et_done s) (dev, u) = Some (et_dev s, et_user s)))"
proof -
  from assms(2) have "echo_ok dev" by (auto simp: EchoDriver_ctor_def echo_ok_def)
  from vrun_safe [OF assms(1) vinv_start [OF this], of u es]
  have safe: "vsafe U (dev, u) (vrun U es (vstart dev u))" .
  have "(\<forall>t t'. inside (et_pc s t) \<and> inside (et_pc s t') \<longrightarrow> t = t') \<and>
      (et_owner s = None \<longrightarrow> serial U (et_done s) (dev, u) = Some (et_dev s, et_user s))"
    if "vinv U (dev, u) s" for s
    using that by (cases rule: vinvE) (auto, metis)
  with safe show ?thesis by (cases "vrun U es (vstart dev u)") auto
qed

theorem EchoDriver_linearizable_witness:
  "\<exists>s. vrun (bounded_uaccess 1000)
     [VCall 1 (EWrite 40 3 0), VCall 2 (ERead 500 8 0), VLock 2, VStep 2, VUnlock 2, VLock 1, VStep 1, VStep 1,
      VStep 1, VUnlock 1] (vstart (fst (EchoDriver_ctor 7 [])) (\<lambda>_. 65)) = Ok s \<and>
     serial (bounded_uaccess 1000) (et_done s) (fst (EchoDriver_ctor 7 []), \<lambda>_. 65) = Some (et_dev s, et_user s)"
proof -
  let ?U = "bounded_uaccess 1000"
  let ?es = "[VCall 1 (EWrite 40 3 0), VCall 2 (ERead 500 8 0), VLock 2, VStep 2, VUnlock 2, VLock 1, VStep 1, VStep 1,
      VStep 1, VUnlock 1]"
  let ?d = "fst (EchoDriver_ctor 7 [])"
  have "\<exists>s. vrun ?U ?es (vstart ?d (\<lambda>_. 65)) = Ok s \<and> et_owner s = None"
    by (simp add: vstart_def EchoDriver_ctor_def slice_def kpp_copy_from_user_def bounded_uaccess_def Let_def)
  then obtain s where s: "vrun ?U ?es (vstart ?d (\<lambda>_. 65)) = Ok s" "et_owner s = None" by blast
  from EchoDriver_linearizable [OF uaccess_ok_bounded [of 1000] prod.collapse [symmetric], where m = 7 and tr = "[]"
      and es = ?es and u = "\<lambda>_. 65"] s
  show ?thesis by blast
qed

text \<open>
  C6.  A call always ends and gives back the mutex: in every state that the threads can reach, a
  thread inside \<open>read\<close> or \<open>write\<close> needs at most three more steps of its own, whatever the others have
  done, to the return, which frees the mutex and completes the call.
\<close>

theorem EchoDriver_calls_end:
  assumes "uaccess_ok U" "EchoDriver_ctor m tr = (dev, tr')" "vrun U es (vstart dev u) = Ok s"
    and "et_owner s = Some t"
  shows "\<exists>k s'. k \<le> 3 \<and> vrun U (replicate k (VStep t) @ [VUnlock t]) s = Ok s' \<and> et_owner s' = None \<and>
    et_pc s' t = Ready \<and> length (et_done s') = Suc (length (et_done s))"
proof -
  from assms(2) have "echo_ok dev" by (auto simp: EchoDriver_ctor_def echo_ok_def)
  from vrun_safe [OF assms(1) vinv_start [OF this], of u es] assms(3) have inv: "vinv U (dev, u) s" by simp
  then have "inside (et_pc s t)" using assms(4) by (cases rule: vinvE) auto
  moreover have "pc_left (et_pc s t) \<le> 3" by (cases "et_pc s t") simp_all
  ultimately show ?thesis using leaves [OF assms(1) inv] by blast
qed

theorem EchoDriver_calls_end_witness:
  "\<exists>s k s'. vrun (bounded_uaccess 1000) [VCall 1 (EWrite 40 3 0), VLock 1]
       (vstart (fst (EchoDriver_ctor 7 [])) (\<lambda>_. 65)) = Ok s \<and>
     k \<le> 3 \<and> vrun (bounded_uaccess 1000) (replicate k (VStep 1) @ [VUnlock 1]) s = Ok s' \<and> et_owner s' = None"
proof -
  let ?U = "bounded_uaccess 1000"
  obtain s where s: "vrun ?U [VCall 1 (EWrite 40 3 0), VLock 1] (vstart (fst (EchoDriver_ctor 7 [])) (\<lambda>_. 65)) = Ok s"
    "et_owner s = Some 1"
    by (simp add: vstart_def)
  from EchoDriver_calls_end [OF uaccess_ok_bounded [of 1000] prod.collapse [symmetric] s] s(1) show ?thesis by blast
qed

text \<open>
  C8.  The results are well-formed: in every interleaving, every call that has returned gave \<open>-EFAULT\<close>
  with the offset unchanged, or a count between 0 and the smaller of the requested size and 255;
  a read then moved the offset by exactly the count, without wrap-around, and a write set it to 0.
\<close>

theorem EchoDriver_results_wellformed:
  assumes "uaccess_ok U" "EchoDriver_ctor m tr = (dev, tr')" "vrun U es (vstart dev u) = Ok s"
  shows "\<forall>c\<in>set (et_done s). echo_contract c"
proof -
  from assms(2) have ok: "echo_ok dev" by (auto simp: EchoDriver_ctor_def echo_ok_def)
  from vrun_safe [OF assms(1) vinv_start [OF ok], of u es] assms(3) have "vinv U (dev, u) s" by simp
  then obtain du where "serial U (et_done s) (dev, u) = Some du" by (cases rule: vinvE) auto
  from serial_contract [OF assms(1) this ok] show ?thesis .
qed

theorem EchoDriver_results_wellformed_witness:
  "\<exists>s. vrun (bounded_uaccess 1000)
       [VCall 1 (EWrite 40 3 9), VLock 1, VStep 1, VStep 1, VStep 1, VUnlock 1]
       (vstart (fst (EchoDriver_ctor 7 [])) (\<lambda>_. 65)) = Ok s \<and>
     et_done s = [(EWrite 40 3 9, 3, 0)] \<and> echo_contract (EWrite 40 3 9, 3, 0)"
proof -
  let ?U = "bounded_uaccess 1000"
  let ?es = "[VCall 1 (EWrite 40 3 9), VLock 1, VStep 1, VStep 1, VStep 1, VUnlock 1]"
  obtain s where s: "vrun ?U ?es (vstart (fst (EchoDriver_ctor 7 [])) (\<lambda>_. 65)) = Ok s"
    "et_done s = [(EWrite 40 3 9, 3, 0)]"
    by (simp add: vstart_def EchoDriver_ctor_def slice_def kpp_copy_from_user_def bounded_uaccess_def Let_def)
  from EchoDriver_results_wellformed [OF uaccess_ok_bounded [of 1000] prod.collapse [symmetric] s(1)] s
  show ?thesis by simp
qed

end
