(* ===== verification/Kpp_Net.thy ===== *)
theory Kpp_Net
  imports Kpp_Handle Kpp_StringView
begin

text \<open>
  The network wrappers: \<^verbatim>\<open>net/SKB.hpp\<close>, \<^verbatim>\<open>net/NetDevice.hpp\<close>, \<^verbatim>\<open>net/DstEntry.hpp\<close>,
  \<^verbatim>\<open>net/KernelSocket.hpp\<close>, \<^verbatim>\<open>net/NetlinkSocket.hpp\<close>, \<^verbatim>\<open>net/XDP.hpp\<close> and \<^verbatim>\<open>bpf/BPFProgram.hpp\<close>.

  Each class is a record of its data members.  A member function takes the object (or the store
  of objects and the addresses of the objects involved) and the trace, and returns what it
  changes.  The kernel functions that return something are parameters; those that may depend on
  what happened before take the trace.
\<close>
section \<open>SKB\<close>

text \<open>\<^verbatim>\<open>net/SKB.hpp\<close>: an owned socket buffer, given back with \<open>consume_skb\<close>.\<close>

record SKB = SKB_skb :: ptr

definition SKB_ctor :: "ptr \<Rightarrow> SKB" where
  "SKB_ctor p = \<lparr>SKB_skb = p\<rparr>"

definition SKB_dtor :: "SKB \<Rightarrow> trace \<Rightarrow> trace" where
  "SKB_dtor self tr =
     (if SKB_skb self \<noteq> NULL then tr @ [Net (Consume_skb (SKB_skb self))] else tr)"

definition SKB_move_ctor :: "oid \<Rightarrow> oid \<Rightarrow> (oid \<Rightarrow> SKB) \<Rightarrow> (oid \<Rightarrow> SKB)" where
  "SKB_move_ctor this other s =
     (let s1 = s(this := \<lparr>SKB_skb = SKB_skb (s other)\<rparr>)
      in s1(other := (s1 other)\<lparr>SKB_skb := NULL\<rparr>))"

definition SKB_move_assign :: "oid \<Rightarrow> oid \<Rightarrow> (oid \<Rightarrow> SKB) \<times> trace \<Rightarrow> (oid \<Rightarrow> SKB) \<times> trace" where
  "SKB_move_assign this other st =
     (let (s, tr) = st in
      if this \<noteq> other then
        let tr1 = (if SKB_skb (s this) \<noteq> NULL then tr @ [Net (Consume_skb (SKB_skb (s this)))] else tr);
            s1 = s(this := (s this)\<lparr>SKB_skb := SKB_skb (s other)\<rparr>);
            s2 = s1(other := (s1 other)\<lparr>SKB_skb := NULL\<rparr>)
        in (s2, tr1)
      else (s, tr))"

definition SKB_native_handle :: "SKB \<Rightarrow> ptr" where
  "SKB_native_handle self = SKB_skb self"

definition SKB_bool :: "SKB \<Rightarrow> bool" where
  "SKB_bool self \<longleftrightarrow> SKB_skb self \<noteq> NULL"

text \<open>
  The buffer operations hand the pointer on unchecked; the header accessors test it first.  The
  kernel functions are the first argument.
\<close>

definition SKB_push :: "(trace \<Rightarrow> ptr \<Rightarrow> nat \<Rightarrow> ptr) \<Rightarrow> SKB \<Rightarrow> nat \<Rightarrow> trace \<Rightarrow> ptr \<times> trace" where
  "SKB_push skb_push self len tr = (skb_push tr (SKB_skb self) len, tr @ [Net (Skb_push (SKB_skb self) len)])"

definition SKB_pull :: "(trace \<Rightarrow> ptr \<Rightarrow> nat \<Rightarrow> ptr) \<Rightarrow> SKB \<Rightarrow> nat \<Rightarrow> trace \<Rightarrow> ptr \<times> trace" where
  "SKB_pull skb_pull self len tr = (skb_pull tr (SKB_skb self) len, tr @ [Net (Skb_pull (SKB_skb self) len)])"

definition SKB_trim :: "SKB \<Rightarrow> nat \<Rightarrow> trace \<Rightarrow> trace" where
  "SKB_trim self len tr = tr @ [Net (Skb_trim (SKB_skb self) len)]"

definition SKB_reserve :: "SKB \<Rightarrow> nat \<Rightarrow> trace \<Rightarrow> trace" where
  "SKB_reserve self len tr = tr @ [Net (Skb_reserve (SKB_skb self) len)]"

definition SKB_ip_header :: "(ptr \<Rightarrow> 'iphdr) \<Rightarrow> SKB \<Rightarrow> 'iphdr option" where
  "SKB_ip_header ip_hdr self = (if SKB_skb self \<noteq> NULL then Some (ip_hdr (SKB_skb self)) else None)"

definition SKB_tcp_header :: "(ptr \<Rightarrow> 'tcphdr) \<Rightarrow> SKB \<Rightarrow> 'tcphdr option" where
  "SKB_tcp_header tcp_hdr self = (if SKB_skb self \<noteq> NULL then Some (tcp_hdr (SKB_skb self)) else None)"

definition SKB_udp_header :: "(ptr \<Rightarrow> 'udphdr) \<Rightarrow> SKB \<Rightarrow> 'udphdr option" where
  "SKB_udp_header udp_hdr self = (if SKB_skb self \<noteq> NULL then Some (udp_hdr (SKB_skb self)) else None)"

section \<open>NetDevice\<close>

text \<open>\<^verbatim>\<open>net/NetDevice.hpp\<close>: a counted reference to a network device, dropped with \<open>dev_put\<close>.\<close>

record NetDevice = NetDevice_dev :: ptr

definition NetDevice_ctor :: "ptr \<Rightarrow> NetDevice" where
  "NetDevice_ctor p = \<lparr>NetDevice_dev = p\<rparr>"

definition NetDevice_dtor :: "NetDevice \<Rightarrow> trace \<Rightarrow> trace" where
  "NetDevice_dtor self tr =
     (if NetDevice_dev self \<noteq> NULL then tr @ [Net (Dev_put (NetDevice_dev self))] else tr)"

definition NetDevice_move_ctor :: "oid \<Rightarrow> oid \<Rightarrow> (oid \<Rightarrow> NetDevice) \<Rightarrow> (oid \<Rightarrow> NetDevice)" where
  "NetDevice_move_ctor this other s =
     (let s1 = s(this := \<lparr>NetDevice_dev = NetDevice_dev (s other)\<rparr>)
      in s1(other := (s1 other)\<lparr>NetDevice_dev := NULL\<rparr>))"

definition NetDevice_move_assign :: "oid \<Rightarrow> oid \<Rightarrow> (oid \<Rightarrow> NetDevice) \<times> trace \<Rightarrow> (oid \<Rightarrow> NetDevice) \<times> trace" where
  "NetDevice_move_assign this other st =
     (let (s, tr) = st in
      if this \<noteq> other then
        let tr1 = (if NetDevice_dev (s this) \<noteq> NULL then tr @ [Net (Dev_put (NetDevice_dev (s this)))] else tr);
            s1 = s(this := (s this)\<lparr>NetDevice_dev := NetDevice_dev (s other)\<rparr>);
            s2 = s1(other := (s1 other)\<lparr>NetDevice_dev := NULL\<rparr>)
        in (s2, tr1)
      else (s, tr))"

definition NetDevice_native_handle :: "NetDevice \<Rightarrow> ptr" where
  "NetDevice_native_handle self = NetDevice_dev self"

definition NetDevice_bool :: "NetDevice \<Rightarrow> bool" where
  "NetDevice_bool self \<longleftrightarrow> NetDevice_dev self \<noteq> NULL"

definition NetDevice_name :: "(ptr \<Rightarrow> char list) \<Rightarrow> NetDevice \<Rightarrow> StringView option" where
  "NetDevice_name dev_name self =
     (if NetDevice_dev self \<noteq> NULL then StringView_cstr (Some (dev_name (NetDevice_dev self)))
      else Some StringView_default)"

definition NetDevice_mtu :: "(ptr \<Rightarrow> nat) \<Rightarrow> NetDevice \<Rightarrow> nat" where
  "NetDevice_mtu dev_mtu self = (if NetDevice_dev self \<noteq> NULL then dev_mtu (NetDevice_dev self) else 0)"

definition NetDevice_flags :: "(ptr \<Rightarrow> nat) \<Rightarrow> NetDevice \<Rightarrow> nat" where
  "NetDevice_flags dev_flags self =
     (if NetDevice_dev self \<noteq> NULL then dev_flags (NetDevice_dev self) else 0)"

definition find_device :: "(char list option \<Rightarrow> ptr) \<Rightarrow> StringView \<Rightarrow> NetDevice" where
  "find_device dev_get_by_name name = NetDevice_ctor (dev_get_by_name (sv_data name))"

section \<open>DstEntry\<close>

text \<open>\<^verbatim>\<open>net/DstEntry.hpp\<close>: a routing cache entry, dropped with \<open>dst_release\<close>.\<close>

record DstEntry = DstEntry_dst :: ptr

definition DstEntry_ctor :: "ptr \<Rightarrow> DstEntry" where
  "DstEntry_ctor p = \<lparr>DstEntry_dst = p\<rparr>"

definition DstEntry_dtor :: "DstEntry \<Rightarrow> trace \<Rightarrow> trace" where
  "DstEntry_dtor self tr =
     (if DstEntry_dst self \<noteq> NULL then tr @ [Net (Dst_release (DstEntry_dst self))] else tr)"

definition DstEntry_move_ctor :: "oid \<Rightarrow> oid \<Rightarrow> (oid \<Rightarrow> DstEntry) \<Rightarrow> (oid \<Rightarrow> DstEntry)" where
  "DstEntry_move_ctor this other s =
     (let s1 = s(this := \<lparr>DstEntry_dst = DstEntry_dst (s other)\<rparr>)
      in s1(other := (s1 other)\<lparr>DstEntry_dst := NULL\<rparr>))"

definition DstEntry_move_assign :: "oid \<Rightarrow> oid \<Rightarrow> (oid \<Rightarrow> DstEntry) \<times> trace \<Rightarrow> (oid \<Rightarrow> DstEntry) \<times> trace" where
  "DstEntry_move_assign this other st =
     (let (s, tr) = st in
      if this \<noteq> other then
        let tr1 = (if DstEntry_dst (s this) \<noteq> NULL then tr @ [Net (Dst_release (DstEntry_dst (s this)))] else tr);
            s1 = s(this := (s this)\<lparr>DstEntry_dst := DstEntry_dst (s other)\<rparr>);
            s2 = s1(other := (s1 other)\<lparr>DstEntry_dst := NULL\<rparr>)
        in (s2, tr1)
      else (s, tr))"

definition DstEntry_native_handle :: "DstEntry \<Rightarrow> ptr" where
  "DstEntry_native_handle self = DstEntry_dst self"

definition DstEntry_bool :: "DstEntry \<Rightarrow> bool" where
  "DstEntry_bool self \<longleftrightarrow> DstEntry_dst self \<noteq> NULL"

section \<open>KernelSocket\<close>

text \<open>\<^verbatim>\<open>net/KernelSocket.hpp\<close>: an in-kernel socket, closed with \<open>sock_release\<close>.\<close>

record KernelSocket = KernelSocket_sock :: ptr

definition KernelSocket_ctor :: "ptr \<Rightarrow> KernelSocket" where
  "KernelSocket_ctor p = \<lparr>KernelSocket_sock = p\<rparr>"

definition KernelSocket_dtor :: "KernelSocket \<Rightarrow> trace \<Rightarrow> trace" where
  "KernelSocket_dtor self tr =
     (if KernelSocket_sock self \<noteq> NULL then tr @ [Net (Sock_release (KernelSocket_sock self))] else tr)"

definition KernelSocket_move_ctor :: "oid \<Rightarrow> oid \<Rightarrow> (oid \<Rightarrow> KernelSocket) \<Rightarrow> (oid \<Rightarrow> KernelSocket)" where
  "KernelSocket_move_ctor this other s =
     (let s1 = s(this := \<lparr>KernelSocket_sock = KernelSocket_sock (s other)\<rparr>)
      in s1(other := (s1 other)\<lparr>KernelSocket_sock := NULL\<rparr>))"

definition KernelSocket_move_assign :: "oid \<Rightarrow> oid \<Rightarrow> (oid \<Rightarrow> KernelSocket) \<times> trace \<Rightarrow> (oid \<Rightarrow> KernelSocket) \<times> trace" where
  "KernelSocket_move_assign this other st =
     (let (s, tr) = st in
      if this \<noteq> other then
        let tr1 = (if KernelSocket_sock (s this) \<noteq> NULL then tr @ [Net (Sock_release (KernelSocket_sock (s this)))] else tr);
            s1 = s(this := (s this)\<lparr>KernelSocket_sock := KernelSocket_sock (s other)\<rparr>);
            s2 = s1(other := (s1 other)\<lparr>KernelSocket_sock := NULL\<rparr>)
        in (s2, tr1)
      else (s, tr))"

definition KernelSocket_native_handle :: "KernelSocket \<Rightarrow> ptr" where
  "KernelSocket_native_handle self = KernelSocket_sock self"

definition KernelSocket_bool :: "KernelSocket \<Rightarrow> bool" where
  "KernelSocket_bool self \<longleftrightarrow> KernelSocket_sock self \<noteq> NULL"

text \<open>
  What the socket layer returns.  \<open>sock_create_kern\<close> returns its code and the socket it stores;
  \<open>accept\<close> receives the caller's \<open>new_sock\<close> by value.
\<close>

record sock_kernel =
  k_sock_create_kern :: "int \<Rightarrow> int \<Rightarrow> int \<Rightarrow> int \<times> ptr"
  k_connect :: "trace \<Rightarrow> ptr \<Rightarrow> nat \<Rightarrow> int \<Rightarrow> int \<Rightarrow> int"
  k_bind :: "trace \<Rightarrow> ptr \<Rightarrow> nat \<Rightarrow> int \<Rightarrow> int"
  k_listen :: "trace \<Rightarrow> ptr \<Rightarrow> int \<Rightarrow> int"
  k_accept :: "trace \<Rightarrow> ptr \<Rightarrow> ptr \<Rightarrow> int \<Rightarrow> bool \<Rightarrow> int"
  k_sendmsg :: "trace \<Rightarrow> ptr \<Rightarrow> nat \<Rightarrow> nat \<Rightarrow> int \<Rightarrow> int"
  k_recvmsg :: "trace \<Rightarrow> ptr \<Rightarrow> nat \<Rightarrow> nat \<Rightarrow> int \<Rightarrow> int"

definition KernelSocket_create :: "sock_kernel \<Rightarrow> int \<Rightarrow> int \<Rightarrow> int \<Rightarrow> KernelSocket" where
  "KernelSocket_create K family type protocol =
     (let (ret, out) = k_sock_create_kern K family type protocol
      in \<lparr>KernelSocket_sock = (if ret < 0 then NULL else out)\<rparr>)"

definition KernelSocket_connect ::
  "sock_kernel \<Rightarrow> KernelSocket \<Rightarrow> nat \<Rightarrow> int \<Rightarrow> int \<Rightarrow> trace \<Rightarrow> int \<times> trace" where
  "KernelSocket_connect K self addr addr_len flags tr =
     (if KernelSocket_sock self \<noteq> NULL
      then (k_connect K tr (KernelSocket_sock self) addr addr_len flags,
            tr @ [Net (Sock_connect (KernelSocket_sock self) addr addr_len flags)])
      else (- EINVAL, tr))"

definition KernelSocket_bind ::
  "sock_kernel \<Rightarrow> KernelSocket \<Rightarrow> nat \<Rightarrow> int \<Rightarrow> trace \<Rightarrow> int \<times> trace" where
  "KernelSocket_bind K self addr addr_len tr =
     (if KernelSocket_sock self \<noteq> NULL
      then (k_bind K tr (KernelSocket_sock self) addr addr_len,
            tr @ [Net (Sock_bind (KernelSocket_sock self) addr addr_len)])
      else (- EINVAL, tr))"

definition KernelSocket_listen :: "sock_kernel \<Rightarrow> KernelSocket \<Rightarrow> int \<Rightarrow> trace \<Rightarrow> int \<times> trace" where
  "KernelSocket_listen K self backlog tr =
     (if KernelSocket_sock self \<noteq> NULL
      then (k_listen K tr (KernelSocket_sock self) backlog,
            tr @ [Net (Sock_listen (KernelSocket_sock self) backlog)])
      else (- EINVAL, tr))"

definition KernelSocket_accept :: "sock_kernel \<Rightarrow> KernelSocket \<Rightarrow> trace \<Rightarrow> KernelSocket \<times> trace" where
  "KernelSocket_accept K self tr =
     (let new_sock = NULL;
          (ret, tr1) =
            (if KernelSocket_sock self \<noteq> NULL
             then (k_accept K tr (KernelSocket_sock self) new_sock 0 False,
                   tr @ [Net (Sock_accept (KernelSocket_sock self) new_sock 0 False)])
             else (- EINVAL, tr))
      in if ret < 0 then (KernelSocket_ctor NULL, tr1) else (KernelSocket_ctor new_sock, tr1))"

definition KernelSocket_send ::
  "sock_kernel \<Rightarrow> KernelSocket \<Rightarrow> nat \<Rightarrow> nat \<Rightarrow> int \<Rightarrow> trace \<Rightarrow> int \<times> trace" where
  "KernelSocket_send K self buffer len flags tr =
     (if KernelSocket_sock self = NULL then (- EINVAL, tr)
      else (k_sendmsg K tr (KernelSocket_sock self) buffer len flags,
            tr @ [Net (Kernel_sendmsg (KernelSocket_sock self) buffer len flags)]))"

definition KernelSocket_receive ::
  "sock_kernel \<Rightarrow> KernelSocket \<Rightarrow> nat \<Rightarrow> nat \<Rightarrow> int \<Rightarrow> trace \<Rightarrow> int \<times> trace" where
  "KernelSocket_receive K self buffer len flags tr =
     (if KernelSocket_sock self = NULL then (- EINVAL, tr)
      else (k_recvmsg K tr (KernelSocket_sock self) buffer len flags,
            tr @ [Net (Kernel_recvmsg (KernelSocket_sock self) buffer len flags)]))"

definition KernelSocket_shutdown :: "KernelSocket \<Rightarrow> trace \<Rightarrow> trace" where
  "KernelSocket_shutdown self tr =
     (if KernelSocket_sock self \<noteq> NULL
      then tr @ [Net (Kernel_sock_shutdown (KernelSocket_sock self))] else tr)"

section \<open>NetlinkSocket\<close>

text \<open>
  \<^verbatim>\<open>net/NetlinkSocket.hpp\<close>: neither copied nor moved.  The results of the kernel functions are
  parameters.  \<open>MSG_DONTWAIT\<close> and \<open>&init_net\<close> are constants of every call and not recorded.
\<close>

record NetlinkSocket = NetlinkSocket_sock :: ptr

definition NetlinkSocket_ctor :: "(int \<Rightarrow> nat \<Rightarrow> ptr) \<Rightarrow> int \<Rightarrow> nat \<Rightarrow> NetlinkSocket" where
  "NetlinkSocket_ctor netlink_kernel_create protocol cfg =
     \<lparr>NetlinkSocket_sock = netlink_kernel_create protocol cfg\<rparr>"

definition NetlinkSocket_dtor :: "NetlinkSocket \<Rightarrow> trace \<Rightarrow> trace" where
  "NetlinkSocket_dtor self tr =
     (if NetlinkSocket_sock self \<noteq> NULL
      then tr @ [Net (Netlink_kernel_release (NetlinkSocket_sock self))] else tr)"

definition NetlinkSocket_unicast ::
  "(trace \<Rightarrow> ptr \<Rightarrow> ptr \<Rightarrow> nat \<Rightarrow> int) \<Rightarrow> NetlinkSocket \<Rightarrow> SKB \<Rightarrow> nat \<Rightarrow> trace \<Rightarrow> int \<times> trace" where
  "NetlinkSocket_unicast netlink_unicast self skb portid tr =
     (if NetlinkSocket_sock self \<noteq> NULL
      then (netlink_unicast tr (NetlinkSocket_sock self) (SKB_native_handle skb) portid,
            tr @ [Net (Netlink_unicast (NetlinkSocket_sock self) (SKB_native_handle skb) portid)])
      else (- EINVAL, tr))"

definition NetlinkSocket_broadcast ::
  "(trace \<Rightarrow> ptr \<Rightarrow> ptr \<Rightarrow> nat \<Rightarrow> nat \<Rightarrow> gfp \<Rightarrow> int) \<Rightarrow> NetlinkSocket \<Rightarrow> SKB \<Rightarrow> nat \<Rightarrow> nat \<Rightarrow> gfp \<Rightarrow>
   trace \<Rightarrow> int \<times> trace" where
  "NetlinkSocket_broadcast netlink_broadcast self skb portid grp alloc tr =
     (if NetlinkSocket_sock self \<noteq> NULL
      then (netlink_broadcast tr (NetlinkSocket_sock self) (SKB_native_handle skb) portid grp alloc,
            tr @ [Net (Netlink_broadcast (NetlinkSocket_sock self) (SKB_native_handle skb)
                         portid grp alloc)])
      else (- EINVAL, tr))"

definition NetlinkSocket_native_handle :: "NetlinkSocket \<Rightarrow> ptr" where
  "NetlinkSocket_native_handle self = NetlinkSocket_sock self"

definition NetlinkSocket_bool :: "NetlinkSocket \<Rightarrow> bool" where
  "NetlinkSocket_bool self \<longleftrightarrow> NetlinkSocket_sock self \<noteq> NULL"

section \<open>BPFProgram\<close>

text \<open>\<^verbatim>\<open>bpf/BPFProgram.hpp\<close>: a counted reference to a BPF program.\<close>

record BPFProgram = BPFProgram_prog :: ptr

definition BPFProgram_ctor :: "ptr \<Rightarrow> BPFProgram" where
  "BPFProgram_ctor p = \<lparr>BPFProgram_prog = p\<rparr>"

definition BPFProgram_dtor :: "BPFProgram \<Rightarrow> trace \<Rightarrow> trace" where
  "BPFProgram_dtor self tr =
     (if BPFProgram_prog self \<noteq> NULL then tr @ [Net (Bpf_prog_put (BPFProgram_prog self))] else tr)"

definition BPFProgram_move_ctor :: "oid \<Rightarrow> oid \<Rightarrow> (oid \<Rightarrow> BPFProgram) \<Rightarrow> (oid \<Rightarrow> BPFProgram)" where
  "BPFProgram_move_ctor this other s =
     (let s1 = s(this := \<lparr>BPFProgram_prog = BPFProgram_prog (s other)\<rparr>)
      in s1(other := (s1 other)\<lparr>BPFProgram_prog := NULL\<rparr>))"

definition BPFProgram_move_assign :: "oid \<Rightarrow> oid \<Rightarrow> (oid \<Rightarrow> BPFProgram) \<times> trace \<Rightarrow> (oid \<Rightarrow> BPFProgram) \<times> trace" where
  "BPFProgram_move_assign this other st =
     (let (s, tr) = st in
      if this \<noteq> other then
        let tr1 = (if BPFProgram_prog (s this) \<noteq> NULL then tr @ [Net (Bpf_prog_put (BPFProgram_prog (s this)))] else tr);
            s1 = s(this := (s this)\<lparr>BPFProgram_prog := BPFProgram_prog (s other)\<rparr>);
            s2 = s1(other := (s1 other)\<lparr>BPFProgram_prog := NULL\<rparr>)
        in (s2, tr1)
      else (s, tr))"

definition BPFProgram_native_handle :: "BPFProgram \<Rightarrow> ptr" where
  "BPFProgram_native_handle self = BPFProgram_prog self"

definition BPFProgram_bool :: "BPFProgram \<Rightarrow> bool" where
  "BPFProgram_bool self \<longleftrightarrow> BPFProgram_prog self \<noteq> NULL"

definition BPFProgram_run ::
  "(trace \<Rightarrow> ptr \<Rightarrow> nat \<Rightarrow> nat) \<Rightarrow> BPFProgram \<Rightarrow> nat \<Rightarrow> trace \<Rightarrow> nat \<times> trace" where
  "BPFProgram_run bpf_prog_run self ctx tr =
     (if BPFProgram_prog self = NULL then (0, tr)
      else (bpf_prog_run tr (BPFProgram_prog self) ctx,
            tr @ [Net (Bpf_prog_run (BPFProgram_prog self) ctx)]))"

definition program_from_fd :: "(int \<Rightarrow> ptr) \<Rightarrow> int \<Rightarrow> BPFProgram" where
  "program_from_fd bpf_prog_get fd =
     (let prog = bpf_prog_get fd
      in if IS_ERR prog then BPFProgram_ctor NULL else BPFProgram_ctor prog)"

section \<open>XDPAttachment\<close>

text \<open>
  \<^verbatim>\<open>net/XDP.hpp\<close>.  \<open>ifindex\<close> reads \<open>dev_->ifindex\<close>; the constructor reads it without a test,
  so an empty \<open>NetDevice\<close> gives \<open>None\<close>, a fault.
\<close>

record XDPAttachment =
  XDP_dev :: ptr
  XDP_is_attached :: bool

definition XDPAttachment_ctor ::
  "(trace \<Rightarrow> int \<Rightarrow> int \<Rightarrow> nat \<Rightarrow> int) \<Rightarrow> (ptr \<Rightarrow> int) \<Rightarrow> NetDevice \<Rightarrow> int \<Rightarrow> nat \<Rightarrow> trace \<Rightarrow>
   (XDPAttachment \<times> trace) option" where
  "XDPAttachment_ctor set_link ifindex dev prog_fd flags tr =
     (let d = NetDevice_native_handle dev in
      if d = NULL then None
      else
        let ret = set_link tr (ifindex d) prog_fd flags;
            tr1 = tr @ [Net (Bpf_set_link_xdp_fd (ifindex d) prog_fd flags)]
        in if ret = 0 then Some (\<lparr>XDP_dev = d, XDP_is_attached = True\<rparr>, tr1 @ [Net (Dev_get d)])
           else Some (\<lparr>XDP_dev = d, XDP_is_attached = False\<rparr>, tr1))"

definition XDPAttachment_dtor :: "(ptr \<Rightarrow> int) \<Rightarrow> XDPAttachment \<Rightarrow> trace \<Rightarrow> trace" where
  "XDPAttachment_dtor ifindex self tr =
     (if XDP_is_attached self \<and> XDP_dev self \<noteq> NULL
      then tr @ [Net (Bpf_set_link_xdp_fd (ifindex (XDP_dev self)) (-1) 0), Net (Dev_put (XDP_dev self))]
      else tr)"

definition XDPAttachment_move_ctor ::
  "oid \<Rightarrow> oid \<Rightarrow> (oid \<Rightarrow> XDPAttachment) \<Rightarrow> (oid \<Rightarrow> XDPAttachment)" where
  "XDPAttachment_move_ctor this other s =
     (let s1 = s(this := \<lparr>XDP_dev = XDP_dev (s other), XDP_is_attached = XDP_is_attached (s other)\<rparr>)
      in s1(other := (s1 other)\<lparr>XDP_dev := NULL, XDP_is_attached := False\<rparr>))"

definition XDPAttachment_move_assign ::
  "(ptr \<Rightarrow> int) \<Rightarrow> oid \<Rightarrow> oid \<Rightarrow> (oid \<Rightarrow> XDPAttachment) \<times> trace \<Rightarrow> (oid \<Rightarrow> XDPAttachment) \<times> trace" where
  "XDPAttachment_move_assign ifindex this other st =
     (let (s, tr) = st in
      if this \<noteq> other then
        let tr1 = (if XDP_is_attached (s this) \<and> XDP_dev (s this) \<noteq> NULL
                   then tr @ [Net (Bpf_set_link_xdp_fd (ifindex (XDP_dev (s this))) (-1) 0),
                              Net (Dev_put (XDP_dev (s this)))]
                   else tr);
            s1 = s(this := (s this)\<lparr>XDP_dev := XDP_dev (s other),
                                    XDP_is_attached := XDP_is_attached (s other)\<rparr>);
            s2 = s1(other := (s1 other)\<lparr>XDP_dev := NULL, XDP_is_attached := False\<rparr>)
        in (s2, tr1)
      else (s, tr))"

definition XDPAttachment_bool :: "XDPAttachment \<Rightarrow> bool" where
  "XDPAttachment_bool self \<longleftrightarrow> XDP_is_attached self"

text \<open>The device an attachment holds a reference on: none unless it is attached.\<close>

definition XDP_held :: "XDPAttachment \<Rightarrow> ptr" where
  "XDP_held self = (if XDP_is_attached self then XDP_dev self else NULL)"

text \<open>A socket layer that refuses every request: a concrete instance of the parameter.\<close>

definition refusing_sock_kernel :: sock_kernel where
  "refusing_sock_kernel =
     \<lparr>k_sock_create_kern = \<lambda>_ _ _. (- 97, Ptr 1), k_connect = \<lambda>_ _ _ _ _. - 111,
      k_bind = \<lambda>_ _ _ _. - 98, k_listen = \<lambda>_ _ _. - 95, k_accept = \<lambda>_ _ _ _ _. - 11,
      k_sendmsg = \<lambda>_ _ _ _ _. - 32, k_recvmsg = \<lambda>_ _ _ _ _. - 11\<rparr>"

section \<open>The classes as owning handles\<close>

definition SKB_ops :: "SKB handle_ops" where
  "SKB_ops = \<lparr>op_ptr = SKB_skb, op_dtor = SKB_dtor, op_move_ctor = SKB_move_ctor,
     op_move_assign = SKB_move_assign\<rparr>"

definition NetDevice_ops :: "NetDevice handle_ops" where
  "NetDevice_ops = \<lparr>op_ptr = NetDevice_dev, op_dtor = NetDevice_dtor, op_move_ctor = NetDevice_move_ctor,
     op_move_assign = NetDevice_move_assign\<rparr>"

definition DstEntry_ops :: "DstEntry handle_ops" where
  "DstEntry_ops = \<lparr>op_ptr = DstEntry_dst, op_dtor = DstEntry_dtor, op_move_ctor = DstEntry_move_ctor,
     op_move_assign = DstEntry_move_assign\<rparr>"

definition KernelSocket_ops :: "KernelSocket handle_ops" where
  "KernelSocket_ops = \<lparr>op_ptr = KernelSocket_sock, op_dtor = KernelSocket_dtor, op_move_ctor = KernelSocket_move_ctor,
     op_move_assign = KernelSocket_move_assign\<rparr>"

definition BPFProgram_ops :: "BPFProgram handle_ops" where
  "BPFProgram_ops = \<lparr>op_ptr = BPFProgram_prog, op_dtor = BPFProgram_dtor, op_move_ctor = BPFProgram_move_ctor,
     op_move_assign = BPFProgram_move_assign\<rparr>"

definition XDPAttachment_ops :: "(ptr \<Rightarrow> int) \<Rightarrow> XDPAttachment handle_ops" where
  "XDPAttachment_ops ifindex = \<lparr>op_ptr = XDP_held, op_dtor = XDPAttachment_dtor ifindex,
     op_move_ctor = XDPAttachment_move_ctor, op_move_assign = XDPAttachment_move_assign ifindex\<rparr>"

lemmas [handle_defs] =
  SKB_ops_def SKB_dtor_def SKB_move_ctor_def SKB_move_assign_def
  NetDevice_ops_def NetDevice_dtor_def NetDevice_move_ctor_def NetDevice_move_assign_def
  DstEntry_ops_def DstEntry_dtor_def DstEntry_move_ctor_def DstEntry_move_assign_def
  KernelSocket_ops_def KernelSocket_dtor_def KernelSocket_move_ctor_def KernelSocket_move_assign_def
  BPFProgram_ops_def BPFProgram_dtor_def BPFProgram_move_ctor_def BPFProgram_move_assign_def
  XDPAttachment_ops_def XDPAttachment_dtor_def XDPAttachment_move_ctor_def XDPAttachment_move_assign_def
  XDP_held_def

interpretation skb: owning_handle SKB_ops "\<lambda>p. [Net (Consume_skb p)]" "\<lambda>p. Net (Consume_skb p)"
  by unfold_locales (auto simp: handle_defs Let_def)

interpretation netdev: owning_handle NetDevice_ops "\<lambda>p. [Net (Dev_put p)]" "\<lambda>p. Net (Dev_put p)"
  by unfold_locales (auto simp: handle_defs Let_def)

interpretation dst: owning_handle DstEntry_ops "\<lambda>p. [Net (Dst_release p)]" "\<lambda>p. Net (Dst_release p)"
  by unfold_locales (auto simp: handle_defs Let_def)

interpretation ksock: owning_handle KernelSocket_ops "\<lambda>p. [Net (Sock_release p)]" "\<lambda>p. Net (Sock_release p)"
  by unfold_locales (auto simp: handle_defs Let_def)

interpretation bpf: owning_handle BPFProgram_ops "\<lambda>p. [Net (Bpf_prog_put p)]" "\<lambda>p. Net (Bpf_prog_put p)"
  by unfold_locales (auto simp: handle_defs Let_def)

interpretation xdp: owning_handle "XDPAttachment_ops ifindex"
  "\<lambda>p. [Net (Bpf_set_link_xdp_fd (ifindex p) (-1) 0), Net (Dev_put p)]" "\<lambda>p. Net (Dev_put p)" for ifindex
  by unfold_locales (auto simp: handle_defs Let_def)

section \<open>Guards of the socket classes\<close>

lemmas [guard_defs] =
  KernelSocket_connect_def KernelSocket_bind_def KernelSocket_listen_def KernelSocket_accept_def
  KernelSocket_send_def KernelSocket_receive_def KernelSocket_shutdown_def
  NetlinkSocket_unicast_def NetlinkSocket_broadcast_def BPFProgram_run_def

lemma count_Dev_get_dtor [simp]:
  "count_list (XDPAttachment_dtor ifindex a tr) (Net (Dev_get d)) = count_list tr (Net (Dev_get d))"
  by (simp add: XDPAttachment_dtor_def)

section \<open>Properties\<close>

text \<open>
  C28.  Whatever a program does with \<open>SKB\<close> objects (construction, destruction, move construction,
  move assignment, self-assignment included), every socket buffer is accounted for: the number
  of times it was handed to a constructor is the number of times it was consumed plus the number
  of living objects that hold it.
\<close>

theorem SKB_conserves_buffers:
  assumes "hrun SKB_ops cs (hinit s) = Some \<sigma>" "p \<noteq> NULL"
  shows "count_list (h_adopted \<sigma>) p =
    count_list (h_trace \<sigma>) (Net (Consume_skb p)) + card {x \<in> h_alive \<sigma>. SKB_skb (h_objs \<sigma> x) = p}"
  using skb.run_conserves [OF assms] by (simp add: holders_def SKB_ops_def)

theorem SKB_conserves_buffers_witness:
  "\<exists>\<sigma>. hrun SKB_ops [New 0 (SKB_ctor (Ptr 7)), New 1 (SKB_ctor (Ptr 8)), MoveAssign 0 1]
         (hinit (\<lambda>_. SKB_ctor NULL)) = Some \<sigma> \<and>
     1 = count_list (h_trace \<sigma>) (Net (Consume_skb (Ptr 7))) +
         card {x \<in> h_alive \<sigma>. SKB_skb (h_objs \<sigma> x) = Ptr 7}"
proof -
  let ?cs = "[New 0 (SKB_ctor (Ptr 7)), New 1 (SKB_ctor (Ptr 8)), MoveAssign 0 1]"
  obtain \<sigma> where run: "hrun SKB_ops ?cs (hinit (\<lambda>_. SKB_ctor NULL)) = Some \<sigma>"
    and ad: "h_adopted \<sigma> = [Ptr 7, Ptr 8]"
    by (simp add: hinit_def SKB_ctor_def SKB_ops_def case_prod_beta)
  from SKB_conserves_buffers [OF run, of "Ptr 7"] ad run show ?thesis by auto
qed

text \<open>
  When every \<open>KernelSocket\<close> object of a program has been destroyed, each socket was released
  exactly as often as it was handed over: no socket is leaked or released twice.
\<close>

theorem KernelSocket_no_leak:
  assumes "hrun KernelSocket_ops cs (hinit s) = Some \<sigma>" "h_alive \<sigma> = {}" "p \<noteq> NULL"
  shows "count_list (h_trace \<sigma>) (Net (Sock_release p)) = count_list (h_adopted \<sigma>) p"
  using assms by (rule ksock.run_no_leak)

theorem KernelSocket_no_leak_witness:
  "\<exists>\<sigma>. hrun KernelSocket_ops [New 0 (KernelSocket_ctor (Ptr 3)), MoveNew 1 0, Destroy 0, Destroy 1]
         (hinit (\<lambda>_. KernelSocket_ctor NULL)) = Some \<sigma> \<and>
     count_list (h_trace \<sigma>) (Net (Sock_release (Ptr 3))) = 1"
proof -
  let ?cs = "[New 0 (KernelSocket_ctor (Ptr 3)), MoveNew 1 0, Destroy 0, Destroy 1]"
  obtain \<sigma> where run: "hrun KernelSocket_ops ?cs (hinit (\<lambda>_. KernelSocket_ctor NULL)) = Some \<sigma>"
    and ad: "h_adopted \<sigma> = [Ptr 3]" and none: "h_alive \<sigma> = {}"
    by (auto simp: hinit_def KernelSocket_ctor_def KernelSocket_ops_def)
  from KernelSocket_no_leak [OF run none, of "Ptr 3"] ad run show ?thesis by auto
qed

text \<open>
  A device reference that was handed to one \<open>NetDevice\<close> has exactly one owner until it is
  dropped, and is dropped at most once, whatever moves happened.
\<close>

theorem NetDevice_single_owner:
  assumes "hrun NetDevice_ops cs (hinit s) = Some \<sigma>" "p \<noteq> NULL" "count_list (h_adopted \<sigma>) p = 1"
  shows "(count_list (h_trace \<sigma>) (Net (Dev_put p)) = 0 \<and>
            (\<exists>x. {y \<in> h_alive \<sigma>. NetDevice_dev (h_objs \<sigma> y) = p} = {x})) \<or>
         (count_list (h_trace \<sigma>) (Net (Dev_put p)) = 1 \<and>
            {y \<in> h_alive \<sigma>. NetDevice_dev (h_objs \<sigma> y) = p} = {})"
  using netdev.run_single_owner [OF assms] by (simp add: holders_def NetDevice_ops_def)

theorem NetDevice_single_owner_witness:
  "\<exists>\<sigma>. hrun NetDevice_ops [New 0 (NetDevice_ctor (Ptr 5)), MoveNew 1 0]
         (hinit (\<lambda>_. NetDevice_ctor NULL)) = Some \<sigma> \<and>
     ((count_list (h_trace \<sigma>) (Net (Dev_put (Ptr 5))) = 0 \<and>
        (\<exists>x. {y \<in> h_alive \<sigma>. NetDevice_dev (h_objs \<sigma> y) = Ptr 5} = {x})) \<or>
      (count_list (h_trace \<sigma>) (Net (Dev_put (Ptr 5))) = 1 \<and>
        {y \<in> h_alive \<sigma>. NetDevice_dev (h_objs \<sigma> y) = Ptr 5} = {}))"
proof -
  let ?cs = "[New 0 (NetDevice_ctor (Ptr 5)), MoveNew 1 0]"
  obtain \<sigma> where run: "hrun NetDevice_ops ?cs (hinit (\<lambda>_. NetDevice_ctor NULL)) = Some \<sigma>"
    and ad: "count_list (h_adopted \<sigma>) (Ptr 5) = 1"
    by (simp add: hinit_def NetDevice_ctor_def NetDevice_ops_def)
  from NetDevice_single_owner [OF run _ ad] run show ?thesis by simp
qed

text \<open>
  An XDP attachment drops what it took.  The constructor takes a device reference exactly
  when the program was attached, and for every program over attachments the references taken
  are the ones dropped (each after a detach call on the same interface) plus the ones still held.
\<close>

theorem XDPAttachment_balances:
  assumes "XDPAttachment_ctor set_link ifindex dev fd flags [] = Some (a, tr0)"
    and "hrun (XDPAttachment_ops ifindex) (New x a # cs) (hinit s) = Some \<sigma>"
    and "\<forall>c\<in>set cs. \<not> is_New c"
    and "d = NetDevice_native_handle dev"
  shows "d \<noteq> NULL \<and> (XDPAttachment_bool a \<longleftrightarrow> set_link [] (ifindex d) fd flags = 0) \<and>
    count_list tr0 (Net (Dev_get d)) = of_bool (XDPAttachment_bool a) \<and>
    count_list tr0 (Net (Dev_get d)) = count_list (h_trace \<sigma>) (Net (Dev_put d)) +
      card {y \<in> h_alive \<sigma>. XDP_held (h_objs \<sigma> y) = d}"
proof -
  from assms(1,4) have ctor: "d \<noteq> NULL" "XDP_dev a = d"
      "XDPAttachment_bool a \<longleftrightarrow> set_link [] (ifindex d) fd flags = 0"
      "count_list tr0 (Net (Dev_get d)) = of_bool (XDPAttachment_bool a)"
    by (auto simp: XDPAttachment_ctor_def XDPAttachment_bool_def Let_def split: if_splits)
  from hrun_adopted [OF _ assms(3)] assms(2) have "h_adopted \<sigma> = [XDP_held a]"
    by (auto simp: hinit_def XDPAttachment_ops_def)
  with ctor have "count_list (h_adopted \<sigma>) d = of_bool (XDPAttachment_bool a)"
    by (auto simp: XDP_held_def XDPAttachment_bool_def)
  with ctor xdp.run_conserves [OF assms(2) ctor(1)] show ?thesis
    by (simp add: holders_def XDPAttachment_ops_def)
qed

theorem XDPAttachment_balances_witness:
  "\<exists>a tr0 \<sigma>. XDPAttachment_ctor (\<lambda>_ _ _ _. 0) (\<lambda>_. 4) (NetDevice_ctor (Ptr 9)) 11 2 [] = Some (a, tr0) \<and>
     hrun (XDPAttachment_ops (\<lambda>_. 4)) [New 0 a, MoveNew 1 0, Destroy 1] (hinit (\<lambda>_. a)) = Some \<sigma> \<and>
     count_list tr0 (Net (Dev_get (Ptr 9))) = count_list (h_trace \<sigma>) (Net (Dev_put (Ptr 9))) +
       card {y \<in> h_alive \<sigma>. XDP_held (h_objs \<sigma> y) = Ptr 9}"
proof -
  obtain a tr0 where
    c: "XDPAttachment_ctor (\<lambda>_ _ _ _. 0) (\<lambda>_. 4) (NetDevice_ctor (Ptr 9)) 11 2 [] = Some (a, tr0)"
    by (simp add: XDPAttachment_ctor_def NetDevice_native_handle_def NetDevice_ctor_def Let_def)
  obtain \<sigma> where
    r: "hrun (XDPAttachment_ops (\<lambda>_. 4)) [New 0 a, MoveNew 1 0, Destroy 1] (hinit (\<lambda>_. a)) = Some \<sigma>"
    by (simp add: hinit_def)
  have "\<forall>c\<in>set [MoveNew 1 0, Destroy 1]. \<not> is_New (c :: XDPAttachment hcmd)" by simp
  from XDPAttachment_balances [OF c r this, of "Ptr 9"] c r show ?thesis
    by (auto simp: NetDevice_native_handle_def NetDevice_ctor_def)
qed

text \<open>
  A \<open>KernelSocket\<close> that failed to be created, or was moved from, is inert: every operation on
  it returns \<open>-EINVAL\<close> (an empty socket for \<open>accept\<close>) and makes no kernel call, its destructor
  included.
\<close>

theorem KernelSocket_empty_inert:
  assumes "\<not> KernelSocket_bool self"
  shows "KernelSocket_connect K self a n f tr = (- EINVAL, tr) \<and>
    KernelSocket_bind K self a n tr = (- EINVAL, tr) \<and>
    KernelSocket_listen K self b tr = (- EINVAL, tr) \<and>
    KernelSocket_accept K self tr = (KernelSocket_ctor NULL, tr) \<and>
    KernelSocket_send K self buf len f tr = (- EINVAL, tr) \<and>
    KernelSocket_receive K self buf len f tr = (- EINVAL, tr) \<and>
    KernelSocket_shutdown self tr = tr \<and> KernelSocket_dtor self tr = tr"
  using assms by (simp add: guard_defs handle_defs KernelSocket_bool_def)

theorem KernelSocket_empty_inert_witness:
  "KernelSocket_send refusing_sock_kernel (KernelSocket_create refusing_sock_kernel 2 1 6) 64 10 0 []
   = (- EINVAL, [])"
proof -
  let ?s = "KernelSocket_create refusing_sock_kernel 2 1 6"
  have "\<not> KernelSocket_bool ?s"
    by (simp add: KernelSocket_bool_def KernelSocket_create_def refusing_sock_kernel_def)
  from KernelSocket_empty_inert [OF this] show ?thesis by blast
qed

text \<open>
  \<open>accept\<close> never yields a connection: the local \<open>new_sock\<close> is passed to the protocol's
  \<open>accept\<close> by value and is still null when it is wrapped, whatever the kernel did.
\<close>

theorem KernelSocket_accept_always_empty: "\<not> KernelSocket_bool (fst (KernelSocket_accept K self tr))"
  by (auto simp: KernelSocket_accept_def KernelSocket_bool_def KernelSocket_ctor_def Let_def)

text \<open>
  \<open>unicast\<close> leaves the buffer with the caller's \<open>SKB\<close>: the kernel function that takes the
  buffer over is called with it, and the destructor of the \<open>SKB\<close> consumes it once more.
\<close>

theorem NetlinkSocket_unicast_buffer_consumed_again:
  assumes "NetlinkSocket_bool self" "SKB_bool skb"
  shows "SKB_dtor skb (snd (NetlinkSocket_unicast netlink_unicast self skb portid tr)) =
    tr @ [Net (Netlink_unicast (NetlinkSocket_sock self) (SKB_native_handle skb) portid),
          Net (Consume_skb (SKB_native_handle skb))]"
  using assms
  by (simp add: guard_defs SKB_dtor_def SKB_bool_def SKB_native_handle_def NetlinkSocket_bool_def)

theorem NetlinkSocket_unicast_buffer_consumed_again_witness:
  "SKB_dtor (SKB_ctor (Ptr 2))
     (snd (NetlinkSocket_unicast (\<lambda>_ _ _ _. 0) (NetlinkSocket_ctor (\<lambda>_ _. Ptr 1) 17 0) (SKB_ctor (Ptr 2)) 40 []))
   = [Net (Netlink_unicast (Ptr 1) (Ptr 2) 40), Net (Consume_skb (Ptr 2))]"
  using NetlinkSocket_unicast_buffer_consumed_again
    [of "NetlinkSocket_ctor (\<lambda>_ _. Ptr 1) 17 0" "SKB_ctor (Ptr 2)" "\<lambda>_ _ _ _. 0" 40 "[]"]
  by (simp add: NetlinkSocket_bool_def SKB_bool_def SKB_native_handle_def NetlinkSocket_ctor_def SKB_ctor_def)

text \<open>
  \<open>program_from_fd\<close> turns an error pointer into an empty program: the wrapper holds a program
  exactly when \<open>bpf_prog_get\<close> returned a real one, and running an empty wrapper returns 0 without
  a kernel call; otherwise the run passes through.
\<close>

theorem program_from_fd_run:
  "(BPFProgram_bool (program_from_fd get fd) \<longleftrightarrow> (\<exists>n. get fd = Ptr n)) \<and>
   BPFProgram_run run (program_from_fd get fd) ctx tr =
     (case get fd of Ptr n \<Rightarrow> (run tr (Ptr n) ctx, tr @ [Net (Bpf_prog_run (Ptr n) ctx)]) | _ \<Rightarrow> (0, tr))"
  by (cases "get fd") (simp_all add: program_from_fd_def BPFProgram_bool_def BPFProgram_ctor_def guard_defs)

end
