(* ===== verification/Kpp_Netfilter.thy ===== *)
theory Kpp_Netfilter
  imports Kpp_Net Kpp_Memory
begin

text \<open>
  \<^verbatim>\<open>net/NetfilterHook.hpp\<close> and \<^verbatim>\<open>driver/firewall_driver.cpp\<close>.

  The headers the firewall reads are those of the kernel's \<open>struct iphdr\<close> and \<open>struct tcphdr\<close>,
  found by the kernel's \<open>ip_hdr\<close> and \<open>tcp_hdr\<close>: parameters, like \<open>ntohs\<close>.  A hook callback takes the
  wrapper by reference and may change it; it may also call the kernel and change its owner.
\<close>

section \<open>NetfilterHook\<close>

datatype NetfilterVerdict = DROP | ACCEPT | STOLEN | QUEUE | REPEAT

text \<open>The values \<open>NF_DROP\<close>, \<open>NF_ACCEPT\<close>, \<dots> of \<^verbatim>\<open>uapi/linux/netfilter.h\<close>.\<close>

fun verdict_code :: "NetfilterVerdict \<Rightarrow> nat" where
  "verdict_code DROP = 0"
| "verdict_code ACCEPT = 1"
| "verdict_code STOLEN = 2"
| "verdict_code QUEUE = 3"
| "verdict_code REPEAT = 4"

abbreviation NF_ACCEPT :: nat where "NF_ACCEPT \<equiv> 1"

abbreviation NF_INET_PRE_ROUTING :: nat where "NF_INET_PRE_ROUTING \<equiv> 0"

abbreviation NF_IP_PRI_FIRST :: int where "NF_IP_PRI_FIRST \<equiv> - (2 ^ 31)"

abbreviation PF_INET :: nat where "PF_INET \<equiv> 2"

type_synonym 'w hook_func = "SKB \<Rightarrow> nat \<Rightarrow> 'w \<Rightarrow> trace \<Rightarrow> NetfilterVerdict \<times> SKB \<times> 'w \<times> trace"

text \<open>\<open>nh_priv\<close>, \<open>nh_pf\<close>, \<open>nh_hooknum\<close>, \<open>nh_priority\<close> are members of \<open>ops_\<close>.\<close>

record 'w NetfilterHook =
  nh_priv :: oid
  nh_pf :: nat
  nh_hooknum :: nat
  nh_priority :: int
  nh_owner :: ptr
  nh_callback :: "'w hook_func option"

definition hook_trampoline ::
  "'w NetfilterHook option \<Rightarrow> ptr \<Rightarrow> nat \<Rightarrow> 'w \<Rightarrow> trace \<Rightarrow> nat \<times> 'w \<times> trace" where
  "hook_trampoline self skb state w tr =
     (case self of
        None \<Rightarrow> (NF_ACCEPT, w, tr)
      | Some h \<Rightarrow>
          if nh_owner h \<noteq> NULL then
            case nh_callback h of
              None \<Rightarrow> (NF_ACCEPT, w, tr)
            | Some callback \<Rightarrow>
                let kskb = SKB_ctor skb;
                    (result, kskb', w', tr1) = callback kskb state w tr
                in (verdict_code result, w', SKB_dtor kskb' tr1)
          else (NF_ACCEPT, w, tr))"

text \<open>
  \<open>nf_register_net_hook tr a\<close> is what the kernel answers for the hook at \<open>a\<close> after the trace \<open>tr\<close>: 0, or
  an error, in which case the hook is not registered.  The constructor does not look at it.
\<close>

definition NetfilterHook_ctor ::
  "(trace \<Rightarrow> oid \<Rightarrow> int) \<Rightarrow> oid \<Rightarrow> ptr \<Rightarrow> 'w hook_func option \<Rightarrow> nat \<Rightarrow> int \<Rightarrow> trace \<Rightarrow>
   'w NetfilterHook \<times> trace" where
  "NetfilterHook_ctor nf_register_net_hook this owner callback hooknum priority tr =
     (let ignored = nf_register_net_hook tr this
      in (\<lparr>nh_priv = this, nh_pf = PF_INET, nh_hooknum = hooknum, nh_priority = priority,
           nh_owner = owner, nh_callback = callback\<rparr>, tr @ [Dev (Nf_register_net_hook this)]))"

definition NetfilterHook_dtor :: "oid \<Rightarrow> trace \<Rightarrow> trace" where
  "NetfilterHook_dtor this tr = tr @ [Dev (Nf_unregister_net_hook this)]"

section \<open>Firewall\<close>

abbreviation IPPROTO_TCP :: nat where "IPPROTO_TCP \<equiv> 6"

record iphdr = ip_protocol :: nat

record tcphdr = tcp_dest :: "16 word"

record packet_kernel =
  pk_ip_hdr :: "ptr \<Rightarrow> iphdr"
  pk_tcp_hdr :: "ptr \<Rightarrow> tcphdr"
  pk_ntohs :: "16 word \<Rightarrow> 16 word"
  pk_register :: "trace \<Rightarrow> oid \<Rightarrow> int"

record Firewall =
  fw_hook :: UniquePtr
  fw_port_to_block :: "16 word"

text \<open>The owner is not changed by the callback and no kernel function is called.\<close>

definition Firewall_hook_callback :: "packet_kernel \<Rightarrow> Firewall hook_func" where
  "Firewall_hook_callback P kskb state self tr =
     (let verdict =
        (case SKB_ip_header (pk_ip_hdr P) kskb of
           None \<Rightarrow> ACCEPT
         | Some iph \<Rightarrow>
             if ip_protocol iph \<noteq> IPPROTO_TCP then ACCEPT
             else case SKB_tcp_header (pk_tcp_hdr P) kskb of
               None \<Rightarrow> ACCEPT
             | Some tcph \<Rightarrow>
                 if pk_ntohs P (tcp_dest tcph) = fw_port_to_block self then DROP else ACCEPT)
      in (verdict, kskb, self, tr))"

text \<open>
  The constructor: \<open>hook_\<close> starts null, and takes over what \<open>make_unique\<close> returns.  The result
  contains the hook object when there is one.
\<close>

definition Firewall_ctor ::
  "allocator \<Rightarrow> nat \<Rightarrow> packet_kernel \<Rightarrow> ptr \<Rightarrow> trace \<Rightarrow> Firewall \<times> Firewall NetfilterHook option \<times> trace" where
  "Firewall_ctor alloc sizeof_hook P this tr =
     (let (u, tr1) = make_unique alloc sizeof_hook GFP_KERNEL tr;
          (hook, tr2) = (if UniquePtr_bool u then
             (let (h, t) = NetfilterHook_ctor (pk_register P) (ptr_oid (UniquePtr_get u)) this (Some (Firewall_hook_callback P))
                             NF_INET_PRE_ROUTING NF_IP_PRI_FIRST tr1
              in (Some h, t))
             else (None, tr1));
          (ps, tr3) = UniquePtr_move_assign DefaultDeleter 0 1
             ((\<lambda>_. UniquePtr_ctor NULL)(1 := u), tr2)
      in (\<lparr>fw_hook = ps 0, fw_port_to_block = 80\<rparr>, hook, UniquePtr_dtor DefaultDeleter (ps 1) tr3))"

record firewall_module =
  fm_g_firewall :: UniquePtr
  fm_firewall :: Firewall
  fm_hook :: "Firewall NetfilterHook option"
  fm_trace :: trace

definition firewall_statics :: firewall_module where
  "firewall_statics = \<lparr>fm_g_firewall = UniquePtr_ctor NULL,
     fm_firewall = \<lparr>fw_hook = UniquePtr_ctor NULL, fw_port_to_block = 0\<rparr>, fm_hook = None, fm_trace = []\<rparr>"

definition firewall_driver_init ::
  "allocator \<Rightarrow> nat \<Rightarrow> nat \<Rightarrow> packet_kernel \<Rightarrow> firewall_module \<Rightarrow> int \<times> firewall_module" where
  "firewall_driver_init alloc sizeof_firewall sizeof_hook P s =
     (let (u, tr1) = make_unique alloc sizeof_firewall GFP_KERNEL (fm_trace s);
          s1 = (if UniquePtr_bool u then
             (let (f, h, t) = Firewall_ctor alloc sizeof_hook P (UniquePtr_get u) tr1
              in s\<lparr>fm_firewall := f, fm_hook := h, fm_trace := t\<rparr>)
             else s\<lparr>fm_trace := tr1\<rparr>);
          (ps, tr3) = UniquePtr_move_assign DefaultDeleter 0 1
             ((\<lambda>_. fm_g_firewall s1)(1 := u), fm_trace s1);
          s2 = s1\<lparr>fm_g_firewall := ps 0, fm_trace := UniquePtr_dtor DefaultDeleter (ps 1) tr3\<rparr>
      in if \<not> UniquePtr_bool (fm_g_firewall s2) then (- ENOMEM, s2) else (0, s2))"


text \<open>The hooks the kernel knows after a trace.\<close>

fun hooks_step :: "kcall \<Rightarrow> oid set \<Rightarrow> oid set" where
  "hooks_step (Dev (Nf_register_net_hook a)) R = insert a R"
| "hooks_step (Dev (Nf_unregister_net_hook a)) R = R - {a}"
| "hooks_step c R = R"

definition hooks_registered :: "trace \<Rightarrow> oid set" where
  "hooks_registered tr = fold hooks_step tr {}"


text \<open>The policy of the firewall, stated on the headers of a packet.\<close>

definition blocked :: "packet_kernel \<Rightarrow> 16 word \<Rightarrow> ptr \<Rightarrow> bool" where
  "blocked P port p \<longleftrightarrow> ip_protocol (pk_ip_hdr P p) = IPPROTO_TCP \<and> pk_ntohs P (tcp_dest (pk_tcp_hdr P p)) = port"

text \<open>A concrete instance: byte swapping, and a packet pool with the port in the address.\<close>

definition swap16 :: "16 word \<Rightarrow> 16 word" where
  "swap16 w = w div 256 + w * 256"

definition sample_packets :: packet_kernel where
  "sample_packets = \<lparr>pk_ip_hdr = (\<lambda>p. \<lparr>ip_protocol = 6\<rparr>),
     pk_tcp_hdr = (\<lambda>p. \<lparr>tcp_dest = swap16 (of_nat (ptr_oid p))\<rparr>), pk_ntohs = swap16, pk_register = (\<lambda>_ _. 0)\<rparr>"

section \<open>Lemmas\<close>

lemma callback_decision:
  "p \<noteq> NULL \<Longrightarrow> Firewall_hook_callback P (SKB_ctor p) state w tr =
     (if blocked P (fw_port_to_block w) p then DROP else ACCEPT, SKB_ctor p, w, tr)"
  by (simp add: Firewall_hook_callback_def SKB_ip_header_def SKB_tcp_header_def SKB_ctor_def blocked_def Let_def)


lemma hooks_registered_append [simp]: "hooks_registered (tr @ tr') = fold hooks_step tr' (hooks_registered tr)"
  by (simp add: hooks_registered_def)

lemma UniquePtr_dtor_null [simp]: "UniquePtr_dtor d (UniquePtr_ctor NULL) tr = tr"
  by (simp add: UniquePtr_dtor_def)

text \<open>What \<open>firewall_driver_init\<close> does, by the outcome of its two allocations.\<close>

lemma firewall_init_unfold:
  assumes "p = alloc [] nf GFP_KERNEL"
    and "q = alloc [Mem (Kmalloc nf GFP_KERNEL p), Mem (Construct p)] nh GFP_KERNEL"
    and "firewall_driver_init alloc nf nh P firewall_statics = (ret, s)"
  shows "up_ptr (fm_g_firewall s) = p" "ret = (if p = NULL then - ENOMEM else 0)"
    "fm_trace s = Mem (Kmalloc nf GFP_KERNEL p) # (if p = NULL then [] else Mem (Construct p) #
       Mem (Kmalloc nh GFP_KERNEL q) # (if q = NULL then [] else
         [Mem (Construct q), Dev (Nf_register_net_hook (ptr_oid q))]))"
    "p \<noteq> NULL \<Longrightarrow> fw_port_to_block (fm_firewall s) = 80 \<and> up_ptr (fw_hook (fm_firewall s)) = q"
    "p \<noteq> NULL \<Longrightarrow> q \<noteq> NULL \<Longrightarrow> \<exists>h. fm_hook s = Some h \<and> nh_owner h = p \<and> nh_priv h = ptr_oid q \<and>
       nh_callback h = Some (Firewall_hook_callback P)"
    "q = NULL \<Longrightarrow> fm_hook s = None"
  using assms
  by (auto simp: firewall_driver_init_def Firewall_ctor_def firewall_statics_def make_unique_def
      UniquePtr_bool_def UniquePtr_get_def NetfilterHook_ctor_def move_assign_null Let_def split: if_splits)



section \<open>Properties\<close>



text \<open>
  The trampoline frees a packet that it hands back: unless the callback moves the buffer out of
  the wrapper, the wrapper's destructor consumes it, whatever the verdict, while for every verdict
  but \<open>NF_STOLEN\<close> the network stack goes on using the buffer.
\<close>

theorem hook_trampoline_consumes_packet:
  assumes "nh_owner h \<noteq> NULL" "nh_callback h = Some callback" "skb \<noteq> NULL"
    and "callback (SKB_ctor skb) state w tr = (v, SKB_ctor skb, w', t)"
  shows "hook_trampoline (Some h) skb state w tr = (verdict_code v, w', t @ [Net (Consume_skb skb)])"
  using assms by (simp add: hook_trampoline_def SKB_dtor_def) (simp add: SKB_ctor_def)

theorem hook_trampoline_consumes_packet_witness:
  "hook_trampoline (Some (fst (NetfilterHook_ctor (\<lambda>_ _. 0) 5 (Ptr 9) (Some (Firewall_hook_callback sample_packets)) 0 0 [])))
     (Ptr 443) 0 \<lparr>fw_hook = UniquePtr_ctor (Ptr 5), fw_port_to_block = 80\<rparr> [] =
   (verdict_code ACCEPT, \<lparr>fw_hook = UniquePtr_ctor (Ptr 5), fw_port_to_block = 80\<rparr>, [Net (Consume_skb (Ptr 443))])"
proof -
  let ?w = "\<lparr>fw_hook = UniquePtr_ctor (Ptr 5), fw_port_to_block = 80\<rparr>"
  have "Firewall_hook_callback sample_packets (SKB_ctor (Ptr 443)) 0 ?w [] = (ACCEPT, SKB_ctor (Ptr 443), ?w, [])"
    by (simp add: callback_decision blocked_def sample_packets_def swap16_def)
  moreover have "nh_owner (fst (NetfilterHook_ctor (\<lambda>_ _. 0) 5 (Ptr 9) (Some (Firewall_hook_callback sample_packets)) 0 0 [])) \<noteq> NULL"
      "nh_callback (fst (NetfilterHook_ctor (\<lambda>_ _. 0) 5 (Ptr 9) (Some (Firewall_hook_callback sample_packets)) 0 0 [])) =
       Some (Firewall_hook_callback sample_packets)"
    by (simp_all add: NetfilterHook_ctor_def)
  ultimately show ?thesis
    using hook_trampoline_consumes_packet [where callback = "Firewall_hook_callback sample_packets"
        and skb = "Ptr 443" and v = ACCEPT and t = "[]"]
    by simp
qed



text \<open>
  The module reports success without a hook: when the block for the firewall is there and the
  one for the hook is not, \<open>firewall_driver_init\<close> returns 0, nothing is registered and no packet is
  ever dropped.
\<close>

theorem firewall_init_without_hook:
  assumes "firewall_driver_init alloc nf nh P firewall_statics = (ret, s)" "alloc [] nf GFP_KERNEL \<noteq> NULL"
    and "alloc [Mem (Kmalloc nf GFP_KERNEL (alloc [] nf GFP_KERNEL)), Mem (Construct (alloc [] nf GFP_KERNEL))]
           nh GFP_KERNEL = NULL"
  shows "ret = 0 \<and> hooks_registered (fm_trace s) = {} \<and> fm_hook s = None"
  using firewall_init_unfold [OF refl refl assms(1)] assms(2,3) by (simp add: hooks_registered_def)

theorem firewall_init_without_hook_witness:
  "\<exists>s. firewall_driver_init (\<lambda>tr n f. if n = 64 then NULL else bump_alloc tr n f) 32 64 sample_packets
       firewall_statics = (0, s) \<and> hooks_registered (fm_trace s) = {}"
proof -
  let ?a = "\<lambda>tr n f. if n = 64 then NULL else bump_alloc tr n f"
  obtain ret s where s: "firewall_driver_init ?a 32 64 sample_packets firewall_statics = (ret, s)" by fastforce
  from firewall_init_without_hook [OF s] s show ?thesis by (simp add: bump_alloc_def)
qed

end
