(* ===== verification/Kpp_Async.thy ===== *)
theory Kpp_Async
  imports Kpp_Memory "HOL-Library.Multiset"
begin

text \<open>
  Deferred work and callbacks: \<^verbatim>\<open>async/WorkQueue.hpp\<close>, \<^verbatim>\<open>async/Timer.hpp\<close>, \<^verbatim>\<open>core/Notifier.hpp\<close>
  and \<^verbatim>\<open>sysfs/Attribute.hpp\<close>.

  The kernel runs the scheduled work items one by one in an order of its own, between any two
  calls of \<open>schedule_work\<close>: the work queue is a step relation (\<open>wstep\<close>).
\<close>

section \<open>WorkQueue\<close>

text \<open>
  \<open>w_func p\<close> is the functor stored in the work item at \<open>p\<close>, \<open>w_pending\<close> the items handed to the
  kernel and not yet run.  \<open>w_accepted\<close> and \<open>w_ran\<close> are history: the functors of the items that
  could be allocated, and those that have been called, both in order.
\<close>

record 'f wstate =
  w_func :: "ptr \<Rightarrow> 'f"
  w_pending :: "ptr set"
  w_trace :: trace
  w_accepted :: "'f list"
  w_ran :: "'f list"

text \<open>What the constructor of \<open>Work<F>\<close> stores in its member \<open>func\<close>.\<close>

definition Work_ctor :: "'f \<Rightarrow> 'f" where
  [simp]: "Work_ctor arg = arg"

text \<open>
  \<open>kpp::schedule_work\<close>.  \<open>make_unique\<close> is read as forwarding the functor to the constructor.  At the end of the function the local \<open>work_item\<close> is destroyed.
\<close>

definition kpp_schedule_work :: "allocator \<Rightarrow> nat \<Rightarrow> 'f \<Rightarrow> 'f wstate \<Rightarrow> 'f wstate" where
  "kpp_schedule_work alloc sizeof_Work f s =
     (let (work_item, tr) = make_unique alloc sizeof_Work GFP_ATOMIC (w_trace s)
      in if UniquePtr_bool work_item then
           let s1 = s\<lparr>w_func := (w_func s)(UniquePtr_get work_item := Work_ctor f)\<rparr>;
               tr1 = tr @ [Async (Init_work (UniquePtr_get work_item))];
               (p, work_item') = UniquePtr_release work_item;
               tr2 = tr1 @ [Async (Schedule_work p)]
           in s1\<lparr>w_pending := insert p (w_pending s1), w_accepted := w_accepted s1 @ [f],
                 w_trace := UniquePtr_dtor DefaultDeleter work_item' tr2\<rparr>
         else s\<lparr>w_trace := UniquePtr_dtor DefaultDeleter work_item tr\<rparr>)"

definition work_callback :: "ptr \<Rightarrow> 'f wstate \<Rightarrow> 'f wstate" where
  "work_callback self s =
     (let s1 = s\<lparr>w_ran := w_ran s @ [w_func s self], w_trace := w_trace s @ [Async (Work_function self)]\<rparr>
      in s1\<lparr>w_trace := kpp_kfree self (w_trace s1)\<rparr>)"

inductive wstep :: "allocator \<Rightarrow> nat \<Rightarrow> 'f wstate \<Rightarrow> 'f wstate \<Rightarrow> bool" for alloc n where
  schedule: "wstep alloc n s (kpp_schedule_work alloc n f s)"
| run: "p \<in> w_pending s \<Longrightarrow> wstep alloc n s (work_callback p (s\<lparr>w_pending := w_pending s - {p}\<rparr>))"

inductive_cases wstepE: "wstep alloc n s s'"

definition winit :: "(ptr \<Rightarrow> 'f) \<Rightarrow> 'f wstate" where
  "winit g = \<lparr>w_func = g, w_pending = {}, w_trace = [], w_accepted = [], w_ran = []\<rparr>"

text \<open>The steps of the kernel alone, when nothing is scheduled any more.\<close>

definition run_step :: "'f wstate \<Rightarrow> 'f wstate \<Rightarrow> bool" where
  "run_step s s' \<longleftrightarrow> (\<exists>p\<in>w_pending s. s' = work_callback p (s\<lparr>w_pending := w_pending s - {p}\<rparr>))"

section \<open>Timer\<close>

text \<open>
  The functor given to \<open>setup\<close> is not stored: only its type selects the callback.  The sum of
  \<open>jiffies\<close> and the delay wraps at 64 bits.
\<close>

text \<open>
  \<open>from_timer(func, t, timer_)\<close> takes the address of the kernel's timer for that of a member \<open>timer_\<close> of
  the functor, at the offset \<open>off\<close> in its type.
\<close>

definition timer_callback :: "nat \<Rightarrow> oid \<Rightarrow> trace \<Rightarrow> trace" where
  "timer_callback off t tr = (let func = int t - int off in tr @ [Async (Timer_function func)])"

definition Timer_dtor :: "oid \<Rightarrow> trace \<Rightarrow> trace" where
  "Timer_dtor this tr = tr @ [Async (Del_timer_sync this)]"

definition Timer_setup_func :: "oid \<Rightarrow> ptr \<Rightarrow> trace \<Rightarrow> trace" where
  "Timer_setup_func this func tr = tr @ [Async (Timer_setup this)]"

definition Timer_schedule :: "c_ulong \<Rightarrow> oid \<Rightarrow> c_ulong \<Rightarrow> trace \<Rightarrow> trace" where
  "Timer_schedule jiffies this expires_jiffies tr = tr @ [Async (Mod_timer this (jiffies + expires_jiffies))]"

definition Timer_cancel :: "oid \<Rightarrow> trace \<Rightarrow> trace" where
  "Timer_cancel this tr = tr @ [Async (Del_timer_sync this)]"

text \<open>
  When a timer is due, read off the trace, and the kernel's comparison of times: \<open>time_after_eq\<close> of
  \<^verbatim>\<open>linux/jiffies.h\<close> looks at the sign of the difference, so that it works across the wrap-around of
  \<open>jiffies\<close>.
\<close>

fun due_step :: "oid \<Rightarrow> kcall \<Rightarrow> c_ulong option \<Rightarrow> c_ulong option" where
  "due_step a (Async (Mod_timer b e)) d = (if b = a then Some e else d)"
| "due_step a (Async (Del_timer_sync b)) d = (if b = a then None else d)"
| "due_step a c d = d"

definition timer_due :: "oid \<Rightarrow> trace \<Rightarrow> c_ulong option" where
  "timer_due a tr = fold (due_step a) tr None"

definition time_after_eq :: "c_ulong \<Rightarrow> c_ulong \<Rightarrow> bool" where
  "time_after_eq a b \<longleftrightarrow> 0 \<le> sint (a - b)"

text \<open>A client of a \<open>Timer\<close>; every \<open>TSchedule\<close> comes with the value of \<open>jiffies\<close> at the call.\<close>

datatype timer_cmd = TSetup ptr | TSchedule c_ulong c_ulong | TCancel

fun timer_run :: "oid \<Rightarrow> timer_cmd list \<Rightarrow> trace \<Rightarrow> trace" where
  "timer_run a [] tr = tr"
| "timer_run a (TSetup f # cs) tr = timer_run a cs (Timer_setup_func a f tr)"
| "timer_run a (TSchedule j d # cs) tr = timer_run a cs (Timer_schedule j a d tr)"
| "timer_run a (TCancel # cs) tr = timer_run a cs (Timer_cancel a tr)"

section \<open>Notifier\<close>

text \<open>
  \<open>'w\<close> is the world the callback works on; a callback is a member function, which gets the owner as
  its \<^verbatim>\<open>this\<close> and the \<open>notifier_block\<close> (at the address of the object).  The registration function \<open>reg\<close> is
  called without a test and its result is not looked at; a null unregistration function is skipped.
\<close>

type_synonym 'w notifier_func = "ptr \<Rightarrow> oid \<Rightarrow> nat \<Rightarrow> ptr \<Rightarrow> 'w \<Rightarrow> int \<times> 'w"

record 'w Notifier =
  nt_owner :: ptr
  nt_callback :: "'w notifier_func option"
  nt_unregister :: bool

abbreviation NOTIFY_DONE :: int where "NOTIFY_DONE \<equiv> 0"

definition notifier_trampoline :: "oid \<Rightarrow> 'w Notifier \<Rightarrow> nat \<Rightarrow> ptr \<Rightarrow> 'w \<Rightarrow> int \<times> 'w" where
  "notifier_trampoline nb self action data w =
     (if nt_owner self \<noteq> NULL then
        (case nt_callback self of
           Some callback \<Rightarrow> callback (nt_owner self) nb action data w
         | None \<Rightarrow> (NOTIFY_DONE, w))
      else (NOTIFY_DONE, w))"

definition Notifier_ctor ::
  "(trace \<Rightarrow> oid \<Rightarrow> int) \<Rightarrow> oid \<Rightarrow> ptr \<Rightarrow> 'w notifier_func option \<Rightarrow> bool \<Rightarrow> trace \<Rightarrow> 'w Notifier \<times> trace" where
  "Notifier_ctor reg this owner callback unreg tr =
     (let ignored = reg tr this
      in (\<lparr>nt_owner = owner, nt_callback = callback, nt_unregister = unreg\<rparr>, tr @ [Dev (Notifier_register this)]))"

definition Notifier_dtor :: "oid \<Rightarrow> 'w Notifier \<Rightarrow> trace \<Rightarrow> trace" where
  "Notifier_dtor this self tr = (if nt_unregister self then tr @ [Dev (Notifier_unregister this)] else tr)"

section \<open>Attribute\<close>

text \<open>
  \<open>at_show\<close> and \<open>at_store\<close> are the members \<open>show_ptr_\<close> and \<open>store_ptr_\<close>, member functions of the owner whose
  first argument is its address, their \<^verbatim>\<open>this\<close>; \<open>at_kshow\<close> and \<open>at_kstore\<close> tell whether the kernel's
  structure points to the trampolines.

  The trampolines get the kobject the file belongs to, and compute the owner from it:
  \<^verbatim>\<open>container_of(kobj, Owner, kobj.native_handle())\<close> is the address \<open>off\<close> bytes before, for the offset
  \<open>off\<close> of the member \<open>kobj\<close> in \<open>Owner\<close>, the address of whose \<open>struct kobject\<close> is what \<open>native_handle\<close>
  returns.  (A call is no member name; a compiler that is strict about \<open>offsetof\<close> refuses this.)
\<close>

record 'w Attribute =
  at_name :: cstr
  at_mode :: nat
  at_show :: "(int \<Rightarrow> 'w \<Rightarrow> int \<times> char list \<times> 'w) option"
  at_store :: "(int \<Rightarrow> char list \<Rightarrow> 'w \<Rightarrow> int \<times> 'w) option"
  at_kshow :: bool
  at_kstore :: bool

definition show_trampoline ::
  "nat \<Rightarrow> oid \<Rightarrow> 'w Attribute \<Rightarrow> char list \<Rightarrow> 'w \<Rightarrow> int \<times> char list \<times> 'w" where
  "show_trampoline off kobj kpp_attr buf w =
     (let owner = int kobj - int off
      in case at_show kpp_attr of Some show_ptr \<Rightarrow> show_ptr owner w | None \<Rightarrow> (- EIO, buf, w))"

definition store_trampoline ::
  "nat \<Rightarrow> oid \<Rightarrow> 'w Attribute \<Rightarrow> char list \<Rightarrow> 'w \<Rightarrow> int \<times> 'w" where
  "store_trampoline off kobj kpp_attr buf w =
     (let owner = int kobj - int off
      in case at_store kpp_attr of Some store_ptr \<Rightarrow> store_ptr owner buf w | None \<Rightarrow> (- EIO, w))"

definition Attribute_ctor ::
  "cstr \<Rightarrow> nat \<Rightarrow> (int \<Rightarrow> 'w \<Rightarrow> int \<times> char list \<times> 'w) option \<Rightarrow> (int \<Rightarrow> char list \<Rightarrow> 'w \<Rightarrow> int \<times> 'w) option \<Rightarrow>
   'w Attribute" where
  "Attribute_ctor name mode sh st =
     \<lparr>at_name = name, at_mode = mode, at_show = sh, at_store = st,
      at_kshow = sh \<noteq> None, at_kstore = st \<noteq> None\<rparr>"

text \<open>What the kernel gets: the name and the mode.\<close>

definition Attribute_native_handle :: "'w Attribute \<Rightarrow> cstr \<times> nat" where
  "Attribute_native_handle self = (at_name self, at_mode self)"

text \<open>
  The kernel's \<open>struct attribute_group\<close>.  The constructor sets two members; the others hold what was
  in the memory before, \<open>junk\<close>.
\<close>

record AttributeGroup =
  ag_name :: cstr
  ag_is_visible :: ptr
  ag_is_bin_visible :: ptr
  ag_attrs :: "ptr list"
  ag_bin_attrs :: ptr

definition AttributeGroup_ctor :: "cstr \<Rightarrow> ptr list \<Rightarrow> AttributeGroup \<Rightarrow> AttributeGroup" where
  "AttributeGroup_ctor name attrs junk = junk\<lparr>ag_name := name, ag_attrs := attrs\<rparr>"

definition AttributeGroup_native_handle :: "AttributeGroup \<Rightarrow> AttributeGroup" where
  "AttributeGroup_native_handle self = self"

section \<open>Lemmas\<close>

text \<open>
  The invariant: the allocated blocks are the pending items, and the accepted functors are those
  that ran and those still stored in a pending item.
\<close>

definition winv :: "'f wstate \<Rightarrow> bool" where
  "winv s \<longleftrightarrow> finite (w_pending s) \<and> heap_run (w_trace s) = Some (w_pending s) \<and>
     mset (w_accepted s) = mset (w_ran s) + image_mset (w_func s) (mset_set (w_pending s))"

lemma winv_schedule:
  assumes "kmalloc_fresh alloc" "winv s"
  shows "winv (kpp_schedule_work alloc n f s)"
proof -
  let ?p = "alloc (w_trace s) n GFP_ATOMIC"
  have p: "?p \<notin> w_pending s" using assms by (auto simp: kmalloc_fresh_def winv_def)
  have "image_mset ((w_func s)(?p := f)) (mset_set (w_pending s)) = image_mset (w_func s) (mset_set (w_pending s))"
    using p assms(2) by (intro image_mset_cong) (auto simp: winv_def)
  with p assms(2) show ?thesis
    by (auto simp: winv_def kpp_schedule_work_def make_unique_def UniquePtr_bool_def UniquePtr_get_def
        UniquePtr_release_def handle_defs Let_def)
qed

lemma winv_run:
  assumes "winv s" "p \<in> w_pending s"
  shows "winv (work_callback p (s\<lparr>w_pending := w_pending s - {p}\<rparr>))"
proof -
  from assms have "mset_set (w_pending s) = add_mset p (mset_set (w_pending s - {p}))"
    by (simp add: mset_set.remove winv_def)
  moreover have "p \<noteq> NULL" using assms heap_run_no_NULL by (auto simp: winv_def)
  ultimately show ?thesis
    using assms by (simp add: winv_def work_callback_def kpp_kfree_def Let_def)
qed

lemma winv_reachable:
  assumes "kmalloc_fresh alloc" "(wstep alloc n)\<^sup>*\<^sup>* (winit g) s"
  shows "winv s"
  using assms(2)
proof (induction rule: rtranclp_induct)
  case base
  show ?case by (simp add: winv_def winit_def)
next
  case (step s s')
  from step.hyps(2) step.IH show ?case
    by (elim wstepE) (auto intro: winv_schedule [OF assms(1)] winv_run)
qed

lemma run_step_effect:
  assumes "run_step s s'"
  shows "\<exists>p\<in>w_pending s. w_pending s' = w_pending s - {p} \<and> w_accepted s' = w_accepted s"
  using assms by (auto simp: run_step_def work_callback_def kpp_kfree_def Let_def)

lemma run_steps:
  assumes "winv s" "(run_step ^^ k) s s'"
  shows "winv s' \<and> w_accepted s' = w_accepted s \<and> k + card (w_pending s') = card (w_pending s)"
  using assms(2)
proof (induction k arbitrary: s')
  case 0
  with assms(1) show ?case by simp
next
  case (Suc k)
  then obtain s1 where s1: "(run_step ^^ k) s s1" "run_step s1 s'" by auto
  from Suc.IH [OF s1(1)] have inv: "winv s1" "w_accepted s1 = w_accepted s"
    "k + card (w_pending s1) = card (w_pending s)" by auto
  from run_step_effect [OF s1(2)] obtain p where p: "p \<in> w_pending s1" "w_pending s' = w_pending s1 - {p}"
    "w_accepted s' = w_accepted s1" by blast
  have "finite (w_pending s1)" using inv(1) by (simp add: winv_def)
  from card_Suc_Diff1 [OF this p(1)] p(2) have "Suc (card (w_pending s')) = card (w_pending s1)" by simp
  moreover have "winv s'" using s1(2) winv_run [OF inv(1)] by (auto simp: run_step_def)
  ultimately show ?case using inv p by simp
qed

lemma run_steps_exist:
  "winv s \<Longrightarrow> k = card (w_pending s) \<Longrightarrow> \<exists>s'. (run_step ^^ k) s s'"
proof (induction k arbitrary: s)
  case (Suc k)
  then obtain p where p: "p \<in> w_pending s" by (metis card.empty equals0I nat.distinct(1))
  let ?s1 = "work_callback p (s\<lparr>w_pending := w_pending s - {p}\<rparr>)"
  have "run_step s ?s1" using p by (auto simp: run_step_def)
  moreover have "winv ?s1" by (rule winv_run [OF Suc.prems(1) p])
  moreover have "card (w_pending ?s1) = k"
    using p Suc.prems by (simp add: work_callback_def Let_def winv_def)
  ultimately show ?case using Suc.IH [of ?s1] by (metis relpowp_Suc_I2)
qed simp

lemma timer_due_snoc [simp]: "timer_due a (tr @ [c]) = due_step a c (timer_due a tr)"
  by (simp add: timer_due_def)

section \<open>Properties\<close>

text \<open>
  C16.  Deferred work is neither lost, nor run twice, nor leaked: in every state that scheduling and
  running can reach, in whatever order the kernel runs the items, the functors accepted so far are,
  as a multiset, those that ran and those stored in pending items; the allocated blocks are exactly
  the pending items, and no block is freed twice.
\<close>

theorem schedule_work_runs_once:
  assumes "kmalloc_fresh alloc" "(wstep alloc n)\<^sup>*\<^sup>* (winit g) s"
  shows "mset (w_accepted s) = mset (w_ran s) + image_mset (w_func s) (mset_set (w_pending s)) \<and>
    heap_run (w_trace s) = Some (w_pending s)"
  using winv_reachable [OF assms] by (simp add: winv_def)

theorem schedule_work_runs_once_witness:
  "heap_run (w_trace (work_callback (Ptr 1) (kpp_schedule_work bump_alloc 8 (7 :: nat) (winit (\<lambda>_. 0))\<lparr>w_pending := {}\<rparr>))) =
   Some {}"
proof -
  let ?s1 = "kpp_schedule_work bump_alloc 8 (7 :: nat) (winit (\<lambda>_. 0))"
  have pend: "w_pending ?s1 = {Ptr 1}"
    by (simp add: kpp_schedule_work_def winit_def make_unique_def bump_alloc_def UniquePtr_bool_def
        UniquePtr_get_def UniquePtr_release_def Let_def)
  have "wstep bump_alloc 8 (winit (\<lambda>_. 0)) ?s1" by (rule wstep.schedule)
  moreover have "wstep bump_alloc 8 ?s1 (work_callback (Ptr 1) (?s1\<lparr>w_pending := w_pending ?s1 - {Ptr 1}\<rparr>))"
    by (rule wstep.run) (simp add: pend)
  ultimately have "(wstep bump_alloc 8)\<^sup>*\<^sup>* (winit (\<lambda>_. 0)) (work_callback (Ptr 1) (?s1\<lparr>w_pending := {}\<rparr>))"
    by (simp add: pend)
  from schedule_work_runs_once [OF kmalloc_fresh_bump this] show ?thesis
    by (simp add: work_callback_def Let_def)
qed

text \<open>
  C17.  Scheduled work is done: once nothing more is scheduled, the kernel can always go on until no
  item is pending, every sequence of its steps is at most as long as there are pending items, and
  one of that length has run every accepted functor exactly once and freed every block.
\<close>

theorem schedule_work_drains:
  assumes "kmalloc_fresh alloc" "(wstep alloc n)\<^sup>*\<^sup>* (winit g) s" "k = card (w_pending s)"
  shows "(\<exists>s'. (run_step ^^ k) s s') \<and> (\<forall>j s'. (run_step ^^ j) s s' \<longrightarrow> j \<le> k) \<and>
    (\<forall>s'. (run_step ^^ k) s s' \<longrightarrow> mset (w_ran s') = mset (w_accepted s) \<and> heap_run (w_trace s') = Some {})"
proof (intro conjI allI impI)
  note inv = winv_reachable [OF assms(1,2)]
  show "\<exists>s'. (run_step ^^ k) s s'" by (rule run_steps_exist [OF inv assms(3)])
  show "j \<le> k" if "(run_step ^^ j) s s'" for j s'
    using run_steps [OF inv that] assms(3) by linarith
  fix s' assume "(run_step ^^ k) s s'"
  from run_steps [OF inv this] assms(3) have "winv s'" "w_accepted s' = w_accepted s" "card (w_pending s') = 0"
    by auto
  then show "mset (w_ran s') = mset (w_accepted s)" "heap_run (w_trace s') = Some {}"
    by (auto simp: winv_def)
qed

theorem schedule_work_drains_witness:
  "\<exists>s'. (run_step ^^ 2) (kpp_schedule_work bump_alloc 8 (3 :: nat) (kpp_schedule_work bump_alloc 8 4 (winit (\<lambda>_. 0)))) s' \<and>
     mset (w_ran s') = {#3, 4#}"
proof -
  let ?s1 = "kpp_schedule_work bump_alloc 8 4 (winit (\<lambda>_. 0)) :: nat wstate"
  let ?s2 = "kpp_schedule_work bump_alloc 8 3 ?s1"
  have "wstep bump_alloc 8 (winit (\<lambda>_. 0)) ?s1" "wstep bump_alloc 8 ?s1 ?s2" by (rule wstep.schedule)+
  then have r: "(wstep bump_alloc 8)\<^sup>*\<^sup>* (winit (\<lambda>_. 0)) ?s2" by simp
  have p: "2 = card (w_pending ?s2)" and a: "w_accepted ?s2 = [4, 3]"
    by (simp_all add: kpp_schedule_work_def winit_def make_unique_def bump_alloc_def UniquePtr_bool_def
        UniquePtr_get_def UniquePtr_release_def UniquePtr_dtor_def Let_def)
  from schedule_work_drains [OF kmalloc_fresh_bump r p] a show ?thesis by (auto simp: add_mset_commute)
qed

text \<open>
  C25.  A timer set with \<open>schedule\<close> is due neither early nor late, also when \<open>jiffies\<close> wraps around:
  for delays and elapsed times below \<open>2 ^ 63\<close>, the kernel's comparison finds the timer due after
  \<open>t\<close> ticks exactly when \<open>t\<close> is at least the delay.
\<close>

theorem Timer_schedule_due:
  assumes "unat delay < 2 ^ 63" "unat t < 2 ^ 63"
  shows "\<exists>e. timer_due a (Timer_schedule jiffies a delay tr) = Some e \<and>
    (time_after_eq (jiffies + t) e \<longleftrightarrow> delay \<le> t)"
proof -
  have "sint ((jiffies + t) - (jiffies + delay)) = uint t - uint delay"
    using sint_diff_small [OF assms(2,1)] by simp
  then show ?thesis by (simp add: Timer_schedule_def time_after_eq_def word_le_def)
qed

theorem Timer_schedule_due_witness:
  "\<exists>e. timer_due 9 (Timer_schedule (- 5) 9 100 []) = Some e \<and> (time_after_eq (- 5 + 99) e \<longleftrightarrow> 100 \<le> (99 :: c_ulong))"
  using Timer_schedule_due [of 100 99 9 "- 5" "[]"] by simp

text \<open>
  When a timer fires, the functor given to \<open>setup\<close> is called only if the timer is its member \<open>timer_\<close>.
\<close>

lemma timer_callback_target:
  "Async (Timer_function (int func)) \<in> set (timer_callback off a (Timer_setup_func a (Ptr func) [])) \<longleftrightarrow> func + off = a"
  by (auto simp: timer_callback_def Timer_setup_func_def Let_def)

text \<open>
  A destroyed timer is not pending, whatever was done with it before, and the destruction leaves
  every other timer alone.
\<close>

theorem Timer_dead_is_idle:
  "timer_due a (Timer_dtor a (timer_run a cs tr)) = None \<and>
   (b = a \<or> timer_due b (Timer_dtor a (timer_run a cs tr)) = timer_due b tr)"
proof (cases "b = a")
  case False
  have "timer_due b (timer_run a cs tr) = timer_due b tr"
    using False
    by (induction a cs tr rule: timer_run.induct)
      (auto simp: Timer_setup_func_def Timer_schedule_def Timer_cancel_def)
  with False show ?thesis by (simp add: Timer_dtor_def)
qed (simp add: Timer_dtor_def)

end
