(* ===== verification/Kpp_Notifier.thy ===== *)
theory Kpp_Notifier
  imports Kpp_Async
begin

text \<open>
  Notifier objects (\<^verbatim>\<open>core/Notifier.hpp\<close>) on a chain of the kernel: programs that construct and destroy
  them, and the kernel calling the chain.

  The registration function may fail (\<open>reg\<close> is its result, 0 for success), and the constructor does not
  look: an object whose registration failed lives like the others, but is not on the chain, and its
  destructor unregisters it all the same, which the kernel answers with an error.

  The class does not set the priority of its \<open>notifier_block\<close>, by which the kernel orders the chain:
  the theorems hold for every order.
\<close>

section \<open>Programs over notifiers\<close>

datatype 'w ncmd =
    NNew oid ptr "'w notifier_func option" bool
  | NDestroy oid

record 'w nstate =
  n_objs :: "oid \<Rightarrow> 'w Notifier"
  n_alive :: "oid set"
  n_trace :: trace

text \<open>\<open>reg tr a\<close> is what the registration function answers for block \<open>a\<close> after the trace \<open>tr\<close>.\<close>

fun nstep :: "(trace \<Rightarrow> oid \<Rightarrow> int) \<Rightarrow> 'w ncmd \<Rightarrow> 'w nstate \<Rightarrow> 'w nstate option" where
  "nstep reg (NNew x owner callback unreg) \<sigma> =
     (if x \<in> n_alive \<sigma> then None
      else let (nt, tr) = Notifier_ctor reg x owner callback unreg (n_trace \<sigma>)
           in Some (\<sigma>\<lparr>n_objs := (n_objs \<sigma>)(x := nt), n_alive := insert x (n_alive \<sigma>), n_trace := tr\<rparr>))"
| "nstep reg (NDestroy x) \<sigma> =
     (if x \<notin> n_alive \<sigma> then None
      else Some (\<sigma>\<lparr>n_alive := n_alive \<sigma> - {x}, n_trace := Notifier_dtor x (n_objs \<sigma> x) (n_trace \<sigma>)\<rparr>))"

fun nrun :: "(trace \<Rightarrow> oid \<Rightarrow> int) \<Rightarrow> 'w ncmd list \<Rightarrow> 'w nstate \<Rightarrow> 'w nstate option" where
  "nrun reg [] \<sigma> = Some \<sigma>"
| "nrun reg (c # cs) \<sigma> = (case nstep reg c \<sigma> of None \<Rightarrow> None | Some \<sigma>' \<Rightarrow> nrun reg cs \<sigma>')"

definition nstart :: "(oid \<Rightarrow> 'w Notifier) \<Rightarrow> 'w nstate" where
  "nstart s = \<lparr>n_objs = s, n_alive = {}, n_trace = []\<rparr>"

fun has_unregister :: "'w ncmd \<Rightarrow> bool" where
  "has_unregister (NNew x owner callback unreg) = unreg"
| "has_unregister (NDestroy x) = True"

section \<open>The chain\<close>

text \<open>
  The blocks that are registered after a trace, by what the registration function answered each
  time.
\<close>

fun reg_step :: "(trace \<Rightarrow> oid \<Rightarrow> int) \<Rightarrow> trace \<Rightarrow> kcall \<Rightarrow> oid set \<Rightarrow> oid set" where
  "reg_step reg tr (Dev (Notifier_register a)) R = (if reg tr a = 0 then insert a R else R)"
| "reg_step reg tr (Dev (Notifier_unregister a)) R = R - {a}"
| "reg_step reg tr c R = R"

definition registered :: "(trace \<Rightarrow> oid \<Rightarrow> int) \<Rightarrow> trace \<Rightarrow> oid set" where
  "registered reg tr = replay (reg_step reg) {} tr"

lemma registered_snoc [simp]: "registered reg (tr @ [c]) = reg_step reg tr c (registered reg tr)"
  by (simp add: registered_def)

text \<open>
  The objects a program has registered with success: for the ones that live, the answer their
  constructor got.
\<close>

fun nwins :: "(trace \<Rightarrow> oid \<Rightarrow> int) \<Rightarrow> 'w ncmd list \<Rightarrow> 'w nstate \<Rightarrow> oid set \<Rightarrow> oid set" where
  "nwins reg [] \<sigma> W = W"
| "nwins reg (c # cs) \<sigma> W =
     (case nstep reg c \<sigma> of
        None \<Rightarrow> W
      | Some \<sigma>' \<Rightarrow> nwins reg cs \<sigma>'
          (case c of NNew x owner callback unreg \<Rightarrow> if reg (n_trace \<sigma>) x = 0 then insert x W else W - {x}
                   | NDestroy x \<Rightarrow> W))"

text \<open>
  The kernel calls the blocks in the order of the chain until one sets the stop bit, and returns what
  the last one returned.  Calling a block that is not there any more is \<open>None\<close>.
\<close>

definition stops :: "int \<Rightarrow> bool" where
  "stops ret \<longleftrightarrow> bit ret 15"

fun call_chain :: "(oid \<Rightarrow> 'w Notifier) \<Rightarrow> oid set \<Rightarrow> oid list \<Rightarrow> nat \<Rightarrow> ptr \<Rightarrow> int \<Rightarrow> 'w \<Rightarrow> (int \<times> 'w) option" where
  "call_chain s alive [] action data ret w = Some (ret, w)"
| "call_chain s alive (a # chain) action data ret w =
     (if a \<notin> alive then None
      else let (ret', w') = notifier_trampoline a (s a) action data w
           in if stops ret' then Some (ret', w') else call_chain s alive chain action data ret' w')"

section \<open>Lemmas\<close>

definition ninv :: "(trace \<Rightarrow> oid \<Rightarrow> int) \<Rightarrow> oid set \<Rightarrow> 'w nstate \<Rightarrow> bool" where
  "ninv reg W \<sigma> \<longleftrightarrow> registered reg (n_trace \<sigma>) = n_alive \<sigma> \<inter> W \<and> (\<forall>x\<in>n_alive \<sigma>. nt_unregister (n_objs \<sigma> x))"

lemma ninv_run:
  "ninv reg W \<sigma> \<Longrightarrow> \<forall>c\<in>set cs. has_unregister c \<Longrightarrow> nrun reg cs \<sigma> = Some \<sigma>' \<Longrightarrow> ninv reg (nwins reg cs \<sigma> W) \<sigma>'"
proof (induction cs arbitrary: \<sigma> W)
  case (Cons c cs)
  from Cons.prems(3) obtain \<sigma>1 where 1: "nstep reg c \<sigma> = Some \<sigma>1" "nrun reg cs \<sigma>1 = Some \<sigma>'"
    by (auto split: option.splits)
  let ?W = "case c of NNew x owner callback unreg \<Rightarrow> if reg (n_trace \<sigma>) x = 0 then insert x W else W - {x}
                   | NDestroy x \<Rightarrow> W"
  have "ninv reg ?W \<sigma>1"
    using Cons.prems(1,2) 1(1)
    by (cases c) (auto simp: ninv_def Notifier_ctor_def Notifier_dtor_def split: if_splits)
  from Cons.IH [OF this _ 1(2)] Cons.prems(2) 1(1) show ?case by simp
qed simp

lemma ninv_start: "ninv reg {} (nstart s)"
  by (simp add: ninv_def nstart_def registered_def)

lemma nwins_all:
  "\<forall>tr a. reg tr a = 0 \<Longrightarrow> nrun reg cs \<sigma> = Some \<sigma>' \<Longrightarrow> n_alive \<sigma> \<subseteq> W \<Longrightarrow> n_alive \<sigma>' \<subseteq> nwins reg cs \<sigma> W"
proof (induction cs arbitrary: \<sigma> W)
  case (Cons c cs)
  from Cons.prems(2) obtain \<sigma>1 where 1: "nstep reg c \<sigma> = Some \<sigma>1" "nrun reg cs \<sigma>1 = Some \<sigma>'"
    by (auto split: option.splits)
  let ?W = "case c of NNew x owner callback unreg \<Rightarrow> if reg (n_trace \<sigma>) x = 0 then insert x W else W - {x}
                   | NDestroy x \<Rightarrow> W"
  have "n_alive \<sigma>1 \<subseteq> ?W"
    using Cons.prems(1,3) 1(1) by (cases c) (auto split: if_splits prod.splits)
  from Cons.IH [OF Cons.prems(1) 1(2) this] 1(1) show ?case by simp
qed simp

lemma call_chain_alive: "set chain \<subseteq> alive \<Longrightarrow> call_chain s alive chain action data ret w \<noteq> None"
  by (induction chain arbitrary: ret w) (auto split: prod.splits)

lemma call_chain_all:
  assumes "set chain \<subseteq> alive" "\<And>a w. a \<in> set chain \<Longrightarrow> \<not> stops (fst (notifier_trampoline a (s a) action data w))"
  shows "\<exists>r. call_chain s alive chain action data ret w =
    Some (r, fold (\<lambda>a w. snd (notifier_trampoline a (s a) action data w)) chain w)"
  using assms
proof (induction chain arbitrary: ret w)
  case (Cons a chain)
  obtain r' w' where t: "notifier_trampoline a (s a) action data w = (r', w')"
    by (cases "notifier_trampoline a (s a) action data w")
  with Cons.prems(2) [of a w] have "\<not> stops r'" by simp
  with Cons.IH [of r' w'] Cons.prems t show ?case by simp
qed simp

section \<open>Properties\<close>

text \<open>
  C23.  No dangling notifiers: in a program that gives every \<open>Notifier\<close> an unregister function, whatever
  the registration function answers, at every point exactly those living objects are on the chain
  whose registration succeeded.  So the kernel, in whatever order it calls the chain, never calls an
  object that is gone; and unless a callback asks to stop, it goes through all of these objects,
  which are all living ones if no registration failed.
\<close>

theorem Notifier_no_dangling:
  assumes "\<forall>c\<in>set cs. has_unregister c" "nrun reg cs (nstart s) = Some \<sigma>"
    and "set chain = registered reg (n_trace \<sigma>)"
  shows "set chain = n_alive \<sigma> \<inter> nwins reg cs (nstart s) {} \<and>
    ((\<forall>tr a. reg tr a = 0) \<longrightarrow> set chain = n_alive \<sigma>) \<and>
    call_chain (n_objs \<sigma>) (n_alive \<sigma>) chain action data ret w \<noteq> None \<and>
    ((\<forall>a\<in>n_alive \<sigma>. \<forall>w. \<not> stops (fst (notifier_trampoline a (n_objs \<sigma> a) action data w))) \<longrightarrow>
     (\<exists>r. call_chain (n_objs \<sigma>) (n_alive \<sigma>) chain action data ret w =
        Some (r, fold (\<lambda>a w. snd (notifier_trampoline a (n_objs \<sigma> a) action data w)) chain w)))"
proof -
  from ninv_run [OF ninv_start assms(1,2)] assms(3)
  have c: "set chain = n_alive \<sigma> \<inter> nwins reg cs (nstart s) {}" by (simp add: ninv_def)
  moreover have "\<forall>tr a. reg tr a = 0 \<Longrightarrow> n_alive \<sigma> \<subseteq> nwins reg cs (nstart s) {}"
    using nwins_all [OF _ assms(2), of "{}"] by (simp add: nstart_def)
  ultimately show ?thesis
    using call_chain_alive [of chain "n_alive \<sigma>" "n_objs \<sigma>" action data ret w]
      call_chain_all [of chain "n_alive \<sigma>" "n_objs \<sigma>" action data ret w] by auto
qed

theorem Notifier_no_dangling_witness:
  "\<exists>\<sigma>. nrun (\<lambda>_ a. if a = 2 then - 17 else 0)
       [NNew 1 (Ptr 5) (Some (\<lambda>owner nb act d w. (1, Suc w))) True, NNew 2 (Ptr 5) None True]
       (nstart (\<lambda>_. \<lparr>nt_owner = NULL, nt_callback = None, nt_unregister = False\<rparr>)) = Some \<sigma> \<and>
     n_alive \<sigma> = {1, 2} \<and> call_chain (n_objs \<sigma>) (n_alive \<sigma>) [1] 3 NULL NOTIFY_DONE (0 :: nat) \<noteq> None"
proof -
  let ?cs = "[NNew 1 (Ptr 5) (Some (\<lambda>owner nb act d w. (1, Suc w))) True, NNew 2 (Ptr 5) None True]"
  let ?s = "\<lambda>_. \<lparr>nt_owner = NULL, nt_callback = None, nt_unregister = False\<rparr>"
  let ?reg = "\<lambda>_ a. if a = 2 then - 17 else 0"
  obtain \<sigma> where s: "nrun ?reg ?cs (nstart ?s) = Some \<sigma>" "registered ?reg (n_trace \<sigma>) = {1}" "n_alive \<sigma> = {1, 2}"
    by (auto simp: nstart_def Notifier_ctor_def Notifier_dtor_def registered_def replay_def)
  have ok: "\<forall>c\<in>set ?cs. has_unregister c" by simp
  have "set [1] = registered ?reg (n_trace \<sigma>)" using s(2) by simp
  from Notifier_no_dangling [OF ok s(1) this] s(1,3) show ?thesis by blast
qed

text \<open>
  With a null unregister function the object stays on the chain when it is destroyed, and the next
  call of the chain uses it.
\<close>

lemma Notifier_dangles:
  "\<exists>\<sigma>. nrun (\<lambda>_ _. 0) [NNew x owner callback False, NDestroy x] (nstart s) = Some \<sigma> \<and>
     registered (\<lambda>_ _. 0) (n_trace \<sigma>) = {x} \<and>
     call_chain (n_objs \<sigma>) (n_alive \<sigma>) [x] action data ret w = None"
  by (simp add: nstart_def Notifier_ctor_def Notifier_dtor_def registered_def replay_def)

end
