(* ===== verification/Kpp_Status.thy ===== *)
theory Kpp_Status
  imports Kpp_Devmodel Kpp_Memory
begin

text \<open>
  \<^verbatim>\<open>examples/syssf_status/status_module.cpp\<close>: a module that publishes a kset with one kobject
  in it, whose attribute shows a fixed message.

  The results of \<open>kset_create_and_add\<close>, \<open>kmalloc\<close> and \<open>kobject_add\<close> are parameters.  The object
  \<open>StatusModule\<close> is a kobject and a message; its kobject is at the address of the block.
\<close>

section \<open>The module\<close>

record status_kernel =
  sk_kset_create :: "trace \<Rightarrow> cstr \<Rightarrow> ptr \<Rightarrow> ptr"
  sk_alloc :: allocator
  sk_kobject_add :: "trace \<Rightarrow> oid \<Rightarrow> ptr \<Rightarrow> cstr \<Rightarrow> int"
  sk_kobj_of :: "ptr \<Rightarrow> ptr"
  sk_kernel_kobj :: ptr
  sk_sizeof_module :: nat

record status_module =
  ss_kset :: ptr
  ss_module :: UniquePtr
  ss_message :: string
  ss_trace :: trace

definition status_statics :: status_module where
  "status_statics = \<lparr>ss_kset = NULL, ss_module = UniquePtr_ctor NULL, ss_message = [], ss_trace = []\<rparr>"

text \<open>\<open>sprintf(buf, "%s\n", \<dots>)\<close>: what is written, and the number of characters before the NUL.\<close>

definition status_show :: "status_module \<Rightarrow> int \<times> string" where
  "status_show s = (int (length (ss_message s @ [CHR 0x0A])), ss_message s @ [CHR 0x0A, CHR 0x00])"

text \<open>The release callback of \<open>status_ktype\<close> logs a line and does nothing else.\<close>

definition status_release :: "status_module \<Rightarrow> status_module" where
  "status_release s = s"

text \<open>
  The tables the kernel gets: \<open>__ATTR_RO(status)\<close> is a read-only attribute called \<open>status\<close> whose show
  function is \<open>status_show\<close>.  \<open>attrs\<close> is the list up to its terminating \<open>NULL\<close>.
  \<open>.default_attrs = &attr_group\<close>, where the kernel takes a list of attributes, is read as the attributes of
  the group, and \<open>.sysfs_ops = &sysfs_ops\<close> as the kernel's table for \<open>kobj_attribute\<close>, whose functions
  are \<open>sysfs_read\<close> and \<open>sysfs_write\<close> below.
\<close>

record kobj_attribute =
  ka_name :: string
  ka_mode :: nat
  ka_show :: "(status_module \<Rightarrow> int \<times> string) option"
  ka_store :: "(string \<Rightarrow> status_module \<Rightarrow> int \<times> status_module) option"

record kobj_type =
  kt_release :: "status_module \<Rightarrow> status_module"
  kt_attrs :: "kobj_attribute list"

definition status_attribute :: kobj_attribute where
  "status_attribute = \<lparr>ka_name = ''status'', ka_mode = 292, ka_show = Some status_show, ka_store = None\<rparr>"

definition attrs :: "kobj_attribute list" where
  "attrs = [status_attribute]"

definition attr_group :: "kobj_attribute list" where
  "attr_group = attrs"

definition status_ktype :: kobj_type where
  "status_ktype = \<lparr>kt_release = status_release, kt_attrs = attr_group\<rparr>"

text \<open>
  What the kernel does with them when user space reads or writes a file in the directory of the
  kobject: it looks the attribute up by its name, and answers \<open>-EIO\<close> where it has no function.
\<close>

definition sysfs_read :: "kobj_type \<Rightarrow> string \<Rightarrow> status_module \<Rightarrow> int \<times> string" where
  "sysfs_read kt name s =
     (case find (\<lambda>ka. ka_name ka = name) (kt_attrs kt) of
        None \<Rightarrow> (- ENOENT, [])
      | Some ka \<Rightarrow> (case ka_show ka of None \<Rightarrow> (- EIO, []) | Some f \<Rightarrow> f s))"

definition sysfs_write :: "kobj_type \<Rightarrow> string \<Rightarrow> string \<Rightarrow> status_module \<Rightarrow> int \<times> status_module" where
  "sysfs_write kt name buf s =
     (case find (\<lambda>ka. ka_name ka = name) (kt_attrs kt) of
        None \<Rightarrow> (- ENOENT, s)
      | Some ka \<Rightarrow> (case ka_store ka of None \<Rightarrow> (- EIO, s) | Some f \<Rightarrow> f buf s))"

definition status_module_init :: "status_kernel \<Rightarrow> status_module \<Rightarrow> int \<times> status_module" where
  "status_module_init K s =
     (let name = Some (''kpp_module'' @ [NUL]);
          s1 = s\<lparr>ss_kset := sk_kset_create K (ss_trace s) name (sk_kernel_kobj K),
                 ss_trace := ss_trace s @ [Dev (Kset_create_and_add name (sk_kernel_kobj K))]\<rparr>
      in if ss_kset s1 = NULL then (- ENOMEM, s1)
         else
           let (u, tr) = make_unique (sk_alloc K) (sk_sizeof_module K) GFP_KERNEL (ss_trace s1);
               (ps, tr1) = UniquePtr_move_assign DefaultDeleter 0 1 ((\<lambda>_. ss_module s1)(1 := u), tr);
               s2 = s1\<lparr>ss_module := ps 0, ss_message := (if UniquePtr_bool u then ''Kpp is running!'' else ss_message s1),
                       ss_trace := UniquePtr_dtor DefaultDeleter (ps 1) tr1\<rparr>
           in if \<not> UniquePtr_bool (ss_module s2)
              then (- ENOMEM, s2\<lparr>ss_trace := ss_trace s2 @ [Dev (Kset_unregister (ss_kset s2))]\<rparr>)
              else
                let (ret, tr) = KObject_init_and_add (sk_kobject_add K) (ptr_oid (UniquePtr_get (ss_module s2)))
                      (Some (''status'' @ [NUL])) (sk_kobj_of K (ss_kset s2)) (ss_trace s2);
                    s3 = s2\<lparr>ss_trace := tr\<rparr>
                in if ret \<noteq> 0
                   then (ret, s3\<lparr>ss_trace := ss_trace s3 @ [Dev (Kset_unregister (ss_kset s3))]\<rparr>)
                   else (0, s3))"

definition status_module_exit :: "status_module \<Rightarrow> status_module" where
  "status_module_exit s =
     (let s1 = s\<lparr>ss_trace := KObject_del (ptr_oid (UniquePtr_get (ss_module s))) (ss_trace s)\<rparr>;
          s2 = s1\<lparr>ss_module := snd (UniquePtr_release (ss_module s1))\<rparr>
      in s2\<lparr>ss_trace := ss_trace s2 @ [Dev (Kset_unregister (ss_kset s2))]\<rparr>)"

section \<open>Lemmas\<close>

lemma status_init_cases:
  assumes "status_module_init K status_statics = (ret, s)"
  obtains (no_kset) c where "ret \<noteq> 0" "ss_kset s = NULL" "up_ptr (ss_module s) = NULL" "ss_trace s = [Dev (Kset_create_and_add c (sk_kernel_kobj K))]"
  | (no_block) c n where "ret \<noteq> 0" "ss_kset s \<noteq> NULL" "up_ptr (ss_module s) = NULL"
      "ss_trace s = [Dev (Kset_create_and_add c (sk_kernel_kobj K)), Mem (Kmalloc n GFP_KERNEL NULL),
         Dev (Kset_unregister (ss_kset s))]"
  | (built) c n p d where "ss_kset s \<noteq> NULL" "p \<noteq> NULL" "up_ptr (ss_module s) = p" "ss_message s = ''Kpp is running!''"
      "ss_trace s = [Dev (Kset_create_and_add c (sk_kernel_kobj K)), Mem (Kmalloc n GFP_KERNEL p), Mem (Construct p),
         Dev (Kobject_init (ptr_oid p)), Dev (Kobject_add (ptr_oid p) (sk_kobj_of K (ss_kset s)) d)] @
         (if ret = 0 then [] else [Dev (Kset_unregister (ss_kset s))])"
proof -
  let ?c = "Some (''kpp_module'' @ [NUL])"
  let ?ks = "sk_kset_create K [] ?c (sk_kernel_kobj K)"
  let ?p = "sk_alloc K [Dev (Kset_create_and_add ?c (sk_kernel_kobj K))] (sk_sizeof_module K) GFP_KERNEL"
  note defs = status_module_init_def status_statics_def make_unique_def UniquePtr_bool_def UniquePtr_get_def
    KObject_init_and_add_def move_assign_null UniquePtr_dtor_def Let_def
  consider "?ks = NULL" | "?ks \<noteq> NULL" "?p = NULL" | "?ks \<noteq> NULL" "?p \<noteq> NULL" by blast
  then show thesis
  proof cases
    case 1
    with assms show thesis by (intro no_kset [of ?c]) (auto simp: defs)
  next
    case 2
    with assms show thesis by (intro no_block [of ?c "sk_sizeof_module K"]) (auto simp: defs)
  next
    case 3
    with assms show thesis
      by (intro built [of ?p ?c "sk_sizeof_module K" "Some (''status'' @ [NUL])"])
        (auto simp: defs split: if_splits)
  qed
qed

lemma status_exit_effect:
  "ss_trace (status_module_exit s) = ss_trace s @
     [Dev (Kobject_del (ptr_oid (up_ptr (ss_module s)))), Dev (Kset_unregister (ss_kset s))]"
  "up_ptr (ss_module (status_module_exit s)) = NULL"
  by (simp_all add: status_module_exit_def KObject_del_def UniquePtr_get_def UniquePtr_release_def Let_def)

text \<open>A concrete kernel; \<open>add\<close> is what \<open>kobject_add\<close> returns.\<close>

definition sample_status_kernel :: "int \<Rightarrow> status_kernel" where
  "sample_status_kernel add = \<lparr>sk_kset_create = \<lambda>_ _ _. Ptr 70, sk_alloc = bump_alloc,
     sk_kobject_add = \<lambda>_ _ _ _. add, sk_kobj_of = \<lambda>p. p, sk_kernel_kobj = Ptr 71, sk_sizeof_module = 72\<rparr>"

lemma sample_status_init:
  "fst (status_module_init (sample_status_kernel add) status_statics) = add"
  "ss_kset (snd (status_module_init (sample_status_kernel add) status_statics)) = Ptr 70"
  by (simp_all add: sample_status_kernel_def status_module_init_def status_statics_def make_unique_def
      UniquePtr_bool_def bump_alloc_def KObject_init_and_add_def move_assign_null Let_def)

section \<open>Properties\<close>

text \<open>
  C33.  The module's kset is given back on every path: a failed \<open>status_module_init\<close> has unregistered
  the kset if it had created one, a successful one has not, and loading followed by unloading
  unregisters it exactly once.
\<close>

theorem status_module_kset_balanced:
  assumes "status_module_init K status_statics = (ret, s)"
  shows "count_list (ss_trace s) (Dev (Kset_unregister (ss_kset s))) = of_bool (ret \<noteq> 0 \<and> ss_kset s \<noteq> NULL) \<and>
    (ret = 0 \<longrightarrow> ss_kset s \<noteq> NULL \<and>
       count_list (ss_trace (status_module_exit s)) (Dev (Kset_unregister (ss_kset s))) = 1)"
  using assms by (cases rule: status_init_cases) (auto simp: status_exit_effect)

theorem status_module_kset_balanced_witness:
  "count_list (ss_trace (snd (status_module_init (sample_status_kernel (- 17)) status_statics)))
     (Dev (Kset_unregister (Ptr 70))) = 1"
  using status_module_kset_balanced [OF prod.collapse [symmetric], of "sample_status_kernel (- 17)"]
  by (simp add: sample_status_init)

text \<open>
  Unloading leaks the module object: after a successful load, \<open>status_module_exit\<close> lets go of
  the block with \<open>release\<close>, and it stays allocated, also after the kernel has called the release
  callback of the kobject.
\<close>

theorem status_module_exit_leaks:
  assumes "status_module_init K status_statics = (0, s)"
  shows "heap_run (ss_trace (status_release (status_module_exit s))) = Some {up_ptr (ss_module s)} \<and>
    up_ptr (ss_module (status_module_exit s)) = NULL \<and> status_show s = (16, ''Kpp is running!'' @ [CHR 0x0A, NUL])"
  using assms
  by (cases rule: status_init_cases) (auto simp: status_exit_effect heap_run_def status_show_def status_release_def)

theorem status_module_exit_leaks_witness:
  "\<exists>s. status_module_init (sample_status_kernel 0) status_statics = (0, s) \<and>
     heap_run (ss_trace (status_release (status_module_exit s))) = Some {up_ptr (ss_module s)}"
proof -
  obtain s where s: "status_module_init (sample_status_kernel 0) status_statics = (0, s)"
    using sample_status_init(1) [of 0] by (metis prod.collapse)
  from status_module_exit_leaks [OF s] s show ?thesis by blast
qed

end
