(* ===== verification/Kpp_KObject.thy ===== *)
theory Kpp_KObject
  imports Kpp_Status
begin

text \<open>
  The life of a kobject: \<^verbatim>\<open>core/KObject.hpp\<close> with the reference count the kernel keeps in it, and what
  this means for \<^verbatim>\<open>examples/syssf_status/status_module.cpp\<close>.

  The documented behaviour is read off the trace: \<open>kobject_init\<close> starts with one reference, \<open>kobject_get\<close>
  adds one, and \<open>kobject_put\<close> drops one and calls the release callback of the type when it was the
  last.  \<open>kobject_add\<close> and \<open>kobject_del\<close> do not change the count of the object itself, also when they
  fail.  They do change that of its parent: a \<open>kobject_add\<close> that succeeds takes a reference on it, which
  \<open>kobject_del\<close> gives back, or the last \<open>kobject_put\<close> when \<open>kobject_del\<close> was not called.
\<close>

section \<open>References\<close>

text \<open>The references to a kobject, and how often its release callback was called.\<close>

fun kobj_step :: "oid \<Rightarrow> kcall \<Rightarrow> nat \<times> nat \<Rightarrow> nat \<times> nat" where
  "kobj_step a (Dev (Kobject_init b)) (n, r) = (if b = a then (1, r) else (n, r))"
| "kobj_step a (Dev (Kobject_get b)) (n, r) = (if b = a then (Suc n, r) else (n, r))"
| "kobj_step a (Dev (Kobject_put b)) (n, r) =
     (if b \<noteq> a then (n, r) else if n = 1 then (0, Suc r) else (n - 1, r))"
| "kobj_step a c (n, r) = (n, r)"

definition kobj_state :: "oid \<Rightarrow> trace \<Rightarrow> nat \<times> nat" where
  "kobj_state a tr = fold (kobj_step a) tr (0, 0)"

lemma kobj_state_append [simp]: "kobj_state a (tr @ tr') = fold (kobj_step a) tr' (kobj_state a tr)"
  by (simp add: kobj_state_def)

text \<open>
  Whether the kobject at \<open>a\<close> holds a reference on its parent, beside the references to itself; \<open>ret\<close>
  is what \<open>kobject_add\<close> returned.
\<close>

fun parent_step :: "oid \<Rightarrow> int \<Rightarrow> kcall \<Rightarrow> nat \<times> bool \<Rightarrow> nat \<times> bool" where
  "parent_step a ret (Dev (Kobject_init b)) (n, h) = (if b = a then (1, False) else (n, h))"
| "parent_step a ret (Dev (Kobject_add b parent name)) (n, h) =
     (if b = a then (n, ret = 0 \<and> parent \<noteq> NULL) else (n, h))"
| "parent_step a ret (Dev (Kobject_get b)) (n, h) = (if b = a then (Suc n, h) else (n, h))"
| "parent_step a ret (Dev (Kobject_put b)) (n, h) =
     (if b \<noteq> a then (n, h) else if n = 1 then (0, False) else (n - 1, h))"
| "parent_step a ret (Dev (Kobject_del b)) (n, h) = (if b = a then (n, False) else (n, h))"
| "parent_step a ret c (n, h) = (n, h)"

definition holds_parent :: "oid \<Rightarrow> int \<Rightarrow> trace \<Rightarrow> bool" where
  "holds_parent a ret tr = snd (fold (parent_step a ret) tr (0, False))"

text \<open>What the owners of a kobject do with it, after \<open>init_and_add\<close>; only who has a reference may.\<close>

datatype kobj_cmd = KO_get | KO_put | KO_del

fun kobj_run :: "oid \<Rightarrow> kobj_cmd list \<Rightarrow> trace \<Rightarrow> trace" where
  "kobj_run a [] tr = tr"
| "kobj_run a (KO_get # cs) tr = kobj_run a cs (KObject_get a tr)"
| "kobj_run a (KO_put # cs) tr = kobj_run a cs (KObject_put a tr)"
| "kobj_run a (KO_del # cs) tr = kobj_run a cs (KObject_del a tr)"

fun kobj_allowed :: "nat \<Rightarrow> kobj_cmd list \<Rightarrow> bool" where
  "kobj_allowed n [] \<longleftrightarrow> True"
| "kobj_allowed n (KO_get # cs) \<longleftrightarrow> 0 < n \<and> kobj_allowed (Suc n) cs"
| "kobj_allowed n (KO_put # cs) \<longleftrightarrow> 0 < n \<and> kobj_allowed (n - 1) cs"
| "kobj_allowed n (KO_del # cs) \<longleftrightarrow> 0 < n \<and> kobj_allowed n cs"

definition kobj_refs :: "kobj_cmd list \<Rightarrow> nat" where
  "kobj_refs cs = Suc (count_list cs KO_get) - count_list cs KO_put"

lemma kobj_allowed_puts: "kobj_allowed n cs \<Longrightarrow> count_list cs KO_put \<le> n + count_list cs KO_get"
  by (induction n cs rule: kobj_allowed.induct) auto

lemma kobj_run_state:
  assumes "kobj_allowed n cs" "kobj_state a tr = (n, 0)" "0 < n"
  shows "kobj_state a (kobj_run a cs tr) =
    (n + count_list cs KO_get - count_list cs KO_put, of_bool (n + count_list cs KO_get = count_list cs KO_put))"
  using assms
proof (induction n cs arbitrary: tr rule: kobj_allowed.induct)
  case (3 n cs)
  show ?case
  proof (cases "n = 1")
    case True
    with "3.prems" have "cs = []" by (cases "(0 :: nat, cs)" rule: kobj_allowed.cases) auto
    with True "3.prems" show ?thesis by (simp add: KObject_put_def)
  next
    case False
    with "3.prems" "3.IH" [of "KObject_put a tr"] kobj_allowed_puts [of "n - 1" cs] show ?thesis
      by (auto simp: KObject_put_def)
  qed
qed (auto simp: KObject_get_def KObject_del_def)

lemma kobj_run_parent:
  assumes "kobj_allowed n cs" "fold (parent_step a ret) tr (0, False) = (n, h)" "0 < n"
  shows "holds_parent a ret (kobj_run a cs tr) \<longleftrightarrow>
    h \<and> KO_del \<notin> set cs \<and> n + count_list cs KO_get \<noteq> count_list cs KO_put"
  using assms
proof (induction n cs arbitrary: tr h rule: kobj_allowed.induct)
  case (3 n cs)
  show ?case
  proof (cases "n = 1")
    case True
    with "3.prems" have "cs = []" by (cases "(0 :: nat, cs)" rule: kobj_allowed.cases) auto
    with True "3.prems" show ?thesis by (simp add: KObject_put_def holds_parent_def)
  next
    case False
    with "3.prems" "3.IH" [of "KObject_put a tr" h] show ?thesis
      by (auto simp: KObject_put_def)
  qed
next
  case (4 n cs)
  then show ?case using "4.IH" [of "KObject_del a tr" False] by (simp add: KObject_del_def)
qed (auto simp: KObject_get_def holds_parent_def)

section \<open>Properties\<close>

text \<open>
  C20.  Reference counting of a \<open>KObject\<close>: after \<open>init_and_add\<close>, whether it succeeded or not, and any
  sequence of \<open>get\<close>, \<open>put\<close> and \<open>del\<close> by owners of references, the count is one plus the \<open>get\<close>s minus
  the \<open>put\<close>s, and the release callback has run once if the count is zero and not at all otherwise (so
  \<open>del\<close> alone never releases the object).  The object holds a reference on its parent exactly if
  \<open>init_and_add\<close> succeeded with one, \<open>del\<close> was not called, and the last reference is not gone.
\<close>

theorem KObject_released_by_last_put:
  assumes "KObject_init_and_add kobject_add a name parent tr = (ret, tr')" "kobj_state a tr = (0, 0)"
    and "kobj_allowed 1 cs"
  shows "kobj_state a (kobj_run a cs tr') = (kobj_refs cs, of_bool (kobj_refs cs = 0)) \<and>
    (holds_parent a ret (kobj_run a cs tr') \<longleftrightarrow>
       ret = 0 \<and> parent \<noteq> NULL \<and> KO_del \<notin> set cs \<and> kobj_refs cs \<noteq> 0)"
proof
  note puts = kobj_allowed_puts [OF assms(3)]
  from assms(1,2) have "kobj_state a tr' = (1, 0)"
    by (auto simp: KObject_init_and_add_def)
  with kobj_run_state [OF assms(3) this] puts
  show "kobj_state a (kobj_run a cs tr') = (kobj_refs cs, of_bool (kobj_refs cs = 0))"
    by (auto simp: kobj_refs_def)
  obtain n h where "fold (parent_step a ret) tr (0, False) = (n, h)" by fastforce
  with assms(1) have "fold (parent_step a ret) tr' (0, False) = (1, ret = 0 \<and> parent \<noteq> NULL)"
    by (auto simp: KObject_init_and_add_def Let_def)
  from kobj_run_parent [OF assms(3) this] puts
  show "holds_parent a ret (kobj_run a cs tr') \<longleftrightarrow>
      ret = 0 \<and> parent \<noteq> NULL \<and> KO_del \<notin> set cs \<and> kobj_refs cs \<noteq> 0"
    by (auto simp: kobj_refs_def)
qed

theorem KObject_released_by_last_put_witness:
  "kobj_state 7 (kobj_run 7 [KO_get, KO_put, KO_del, KO_put]
     (snd (KObject_init_and_add (\<lambda>_ _ _ _. - 17) 7 None NULL []))) = (0, 1)"
  using KObject_released_by_last_put [OF prod.collapse [symmetric], of 7 "[]" "[KO_get, KO_put, KO_del, KO_put]"
      "\<lambda>_ _ _ _. - 17" None NULL]
  by (simp add: kobj_refs_def kobj_state_def)

text \<open>
  C39.  The status module never releases its kobject: after loading, also when \<open>kobject_add\<close> failed and
  the load with it, and after unloading, the reference of \<open>kobject_init\<close> is still there, the release
  callback has not been called, and the block of the module object is still allocated.  Both would
  remain so if the callback were called.
\<close>

theorem status_module_never_released:
  assumes "status_module_init K status_statics = (ret, s)" "up_ptr (ss_module s) \<noteq> NULL"
    and "s' = s \<or> ret = 0 \<and> s' = status_module_exit s"
  shows "kobj_state (ptr_oid (up_ptr (ss_module s))) (ss_trace s') = (1, 0) \<and>
    heap_run (ss_trace (kt_release status_ktype s')) = Some {up_ptr (ss_module s)}"
  using assms(1)
proof (cases rule: status_init_cases)
  case (built c n p d)
  then show ?thesis
    using assms(2,3) by (auto simp: kobj_state_def heap_run_def status_exit_effect status_ktype_def status_release_def)
qed (use assms(2) in simp_all)

theorem status_module_never_released_witness:
  "\<exists>s. status_module_init (sample_status_kernel 0) status_statics = (0, s) \<and>
     kobj_state (ptr_oid (up_ptr (ss_module s))) (ss_trace (status_module_exit s)) = (1, 0)"
proof -
  obtain s where s: "status_module_init (sample_status_kernel 0) status_statics = (0, s)"
    using sample_status_init(1) [of 0] by (metis prod.collapse)
  then have "up_ptr (ss_module s) \<noteq> NULL" by (cases rule: status_init_cases) auto
  from status_module_never_released [OF s this, of "status_module_exit s"] s show ?thesis by blast
qed

text \<open>
  The file the module publishes: after a successful load, reading \<open>status\<close> in the directory of the
  kobject gives the message with a newline, reading any other name \<open>-ENOENT\<close>, and no write changes
  anything or reports success.  This is for the tables of attributes as they are meant, see \<^verbatim>\<open>Kpp_Status\<close>.
\<close>

theorem status_file_shows_message:
  assumes "status_module_init K status_statics = (0, s)"
  shows "sysfs_read status_ktype name s =
      (if name = ''status'' then (16, ''Kpp is running!'' @ [CHR 0x0A, NUL]) else (- ENOENT, [])) \<and>
    (\<exists>e>0. sysfs_write status_ktype name buf s = (- e, s))"
  using assms
proof (cases rule: status_init_cases)
  case (built c n p d)
  then show ?thesis
    by (auto simp: sysfs_read_def sysfs_write_def status_ktype_def attr_group_def attrs_def status_attribute_def
        status_show_def)
qed simp_all

theorem status_file_shows_message_witness:
  "\<exists>s. status_module_init (sample_status_kernel 0) status_statics = (0, s) \<and>
     fst (sysfs_read status_ktype ''status'' s) = 16 \<and> fst (sysfs_read status_ktype ''uevent'' s) = - ENOENT"
proof -
  obtain s where s: "status_module_init (sample_status_kernel 0) status_statics = (0, s)"
    using sample_status_init(1) [of 0] by (metis prod.collapse)
  from status_file_shows_message [OF s, of "''status''"] status_file_shows_message [OF s, of "''uevent''"] s
  show ?thesis by auto
qed

end
