(* ===== verification/Kpp_Objects.thy ===== *)
theory Kpp_Objects
  imports Kpp_Prelude
begin

text \<open>
  The small wrappers: \<^verbatim>\<open>util/Kref.hpp\<close>, \<^verbatim>\<open>util/PerCPU.hpp\<close>, \<^verbatim>\<open>vfs/Page.hpp\<close>, \<^verbatim>\<open>vfs/Poll.hpp\<close>,
  \<^verbatim>\<open>vfs/VFSObjects.hpp\<close> and \<^verbatim>\<open>testing/Mocker.hpp\<close>.

  The counter of a \<open>Kref\<close> is the 32-bit cell of the kernel's \<open>refcount_t\<close>; the kernel functions on
  it are a parameter with their documented behaviour (\<open>kref_ok\<close>).  \<open>PerCPU\<close> is used by tasks on all CPUs at
  once: its clients are a step relation that interleaves them.
\<close>

section \<open>Kref\<close>

text \<open>
  \<open>kk_put\<close> returns whether the counter reached zero, in which case \<open>kref_put\<close> calls the release
  function and returns 1.  Beyond \<open>2 ^ 31 - 1\<close> references the kernel's counter saturates, and nothing
  is promised here.
\<close>

record kref_kernel =
  kk_init :: "c_int \<Rightarrow> c_int"
  kk_get :: "c_int \<Rightarrow> c_int"
  kk_put :: "c_int \<Rightarrow> bool \<times> c_int"

abbreviation KREF_MAX :: nat where "KREF_MAX \<equiv> 2 ^ 31 - 1"

definition kref_ok :: "kref_kernel \<Rightarrow> bool" where
  "kref_ok K \<longleftrightarrow> (\<forall>c. kk_init K c = 1) \<and>
     (\<forall>c. 0 < unat c \<and> unat c < KREF_MAX \<longrightarrow> kk_get K c = c + 1) \<and>
     (\<forall>c. 0 < unat c \<and> unat c \<le> KREF_MAX \<longrightarrow> kk_put K c = (c = 1, c - 1))"

definition word_krefs :: kref_kernel where
  "word_krefs = \<lparr>kk_init = \<lambda>_. 1, kk_get = \<lambda>c. c + 1, kk_put = \<lambda>c. (c = 1, c - 1)\<rparr>"

record Kref = kr_ref :: c_int

text \<open>\<open>junk\<close> is what the memory of the counter holds before.\<close>

definition Kref_ctor :: "kref_kernel \<Rightarrow> c_int \<Rightarrow> Kref" where
  "Kref_ctor K junk = \<lparr>kr_ref = kk_init K junk\<rparr>"

definition Kref_init :: "kref_kernel \<Rightarrow> Kref \<Rightarrow> Kref" where
  "Kref_init K self = self\<lparr>kr_ref := kk_init K (kr_ref self)\<rparr>"

definition Kref_get :: "kref_kernel \<Rightarrow> Kref \<Rightarrow> Kref" where
  "Kref_get K self = self\<lparr>kr_ref := kk_get K (kr_ref self)\<rparr>"

text \<open>\<open>release\<close> works on the world \<open>'w\<close>.\<close>

definition Kref_put :: "kref_kernel \<Rightarrow> ('w \<Rightarrow> 'w) \<Rightarrow> Kref \<Rightarrow> 'w \<Rightarrow> int \<times> Kref \<times> 'w" where
  "Kref_put K release self w =
     (let (zero, c) = kk_put K (kr_ref self)
      in (if zero then 1 else 0, self\<lparr>kr_ref := c\<rparr>, if zero then release w else w))"

definition Kref_native_handle :: "oid \<Rightarrow> oid" where
  "Kref_native_handle this = this"

text \<open>
  The calls of all holders of the object, in the order the atomic counter gives them.  Only a
  holder may call \<open>get\<close> or \<open>put\<close>: \<open>kref_allowed h ops\<close> says that this is respected when \<open>h\<close>
  references exist, \<open>kref_holders h ops\<close> how many exist afterwards.
\<close>

datatype kref_op = KGet | KPut

fun kref_allowed :: "nat \<Rightarrow> kref_op list \<Rightarrow> bool" where
  "kref_allowed h [] \<longleftrightarrow> True"
| "kref_allowed h (KGet # ops) \<longleftrightarrow> 0 < h \<and> h < KREF_MAX \<and> kref_allowed (Suc h) ops"
| "kref_allowed h (KPut # ops) \<longleftrightarrow> 0 < h \<and> kref_allowed (h - 1) ops"

fun kref_holders :: "nat \<Rightarrow> kref_op list \<Rightarrow> nat" where
  "kref_holders h [] = h"
| "kref_holders h (KGet # ops) = kref_holders (Suc h) ops"
| "kref_holders h (KPut # ops) = kref_holders (h - 1) ops"

fun kref_run :: "kref_kernel \<Rightarrow> ('w \<Rightarrow> 'w) \<Rightarrow> kref_op list \<Rightarrow> Kref \<Rightarrow> 'w \<Rightarrow> int list \<times> Kref \<times> 'w" where
  "kref_run K release [] r w = ([], r, w)"
| "kref_run K release (KGet # ops) r w = kref_run K release ops (Kref_get K r) w"
| "kref_run K release (KPut # ops) r w =
     (let (ret, r1, w1) = Kref_put K release r w;
          (rets, r2, w2) = kref_run K release ops r1 w1
      in (ret # rets, r2, w2))"

section \<open>PerCPU\<close>

text \<open>
  \<open>per_cpu_ptr p c\<close> is the address of the copy of CPU \<open>c\<close>.  \<open>get_cpu_ptr\<close> disables preemption on the
  calling CPU and \<open>put_cpu_ptr\<close> enables it again; \<open>preempt c\<close> is the nesting depth.
\<close>

record PerCPU = pc_ptr :: ptr

definition PerCPU_ctor :: "(trace \<Rightarrow> nat \<Rightarrow> ptr) \<Rightarrow> nat \<Rightarrow> trace \<Rightarrow> PerCPU \<times> trace" where
  "PerCPU_ctor alloc_percpu sizeof_T tr =
     (\<lparr>pc_ptr = alloc_percpu tr sizeof_T\<rparr>, tr @ [Obj (Alloc_percpu sizeof_T)])"

definition PerCPU_dtor :: "PerCPU \<Rightarrow> trace \<Rightarrow> trace" where
  "PerCPU_dtor self tr = (if pc_ptr self \<noteq> NULL then tr @ [Obj (Free_percpu (pc_ptr self))] else tr)"

definition PerCPU_get ::
  "(ptr \<Rightarrow> nat \<Rightarrow> ptr) \<Rightarrow> PerCPU \<Rightarrow> nat \<Rightarrow> (nat \<Rightarrow> nat) \<Rightarrow> ptr \<times> (nat \<Rightarrow> nat)" where
  "PerCPU_get per_cpu_ptr self this_cpu preempt =
     (per_cpu_ptr (pc_ptr self) this_cpu, preempt(this_cpu := Suc (preempt this_cpu)))"

definition PerCPU_put :: "PerCPU \<Rightarrow> nat \<Rightarrow> (nat \<Rightarrow> nat) \<Rightarrow> (nat \<Rightarrow> nat)" where
  "PerCPU_put self this_cpu preempt = preempt(this_cpu := preempt this_cpu - 1)"

definition PerCPU_get_for_cpu :: "(ptr \<Rightarrow> nat \<Rightarrow> ptr) \<Rightarrow> PerCPU \<Rightarrow> nat \<Rightarrow> ptr" where
  "PerCPU_get_for_cpu per_cpu_ptr self cpu = per_cpu_ptr (pc_ptr self) cpu"

definition PerCPU_bool :: "PerCPU \<Rightarrow> bool" where
  "PerCPU_bool self \<longleftrightarrow> pc_ptr self \<noteq> NULL"

text \<open>
  The clients: any number of tasks, which share one counter per CPU (of the size of a \<open>size_t\<close>).  A
  task, over and over, calls \<open>get\<close>, loads the counter, stores the incremented value and calls \<open>put\<close>,
  on the CPU it is running on at that step: \<open>pp_cur c\<close> is the task CPU \<open>c\<close> runs.  The scheduler may
  at any time put another task on a CPU whose preemption is enabled (its depth is 0), also one that
  it took off another CPU before, and may leave a CPU idle; a task runs on one CPU at a time.
  \<open>pp_done c\<close> counts the stores made on CPU \<open>c\<close> (history).
\<close>

datatype task_phase = Idle | Got ptr | Loaded ptr c_ulong | Stored

record percpu_state =
  pp_mem :: "ptr \<Rightarrow> c_ulong"
  pp_cur :: "nat \<Rightarrow> nat option"
  pp_phase :: "nat \<Rightarrow> task_phase"
  pp_preempt :: "nat \<Rightarrow> nat"
  pp_done :: "nat \<Rightarrow> nat"

inductive percpu_step :: "(ptr \<Rightarrow> nat \<Rightarrow> ptr) \<Rightarrow> PerCPU \<Rightarrow> percpu_state \<Rightarrow> percpu_state \<Rightarrow> bool"
  for P self where
  switch: "pp_preempt s c = 0 \<Longrightarrow> \<forall>d. d \<noteq> c \<longrightarrow> pp_cur s d \<noteq> Some u \<Longrightarrow> new \<in> {None, Some u} \<Longrightarrow>
    percpu_step P self s (s\<lparr>pp_cur := (pp_cur s)(c := new)\<rparr>)"
| get: "pp_cur s c = Some u \<Longrightarrow> pp_phase s u = Idle \<Longrightarrow> PerCPU_get P self c (pp_preempt s) = (a, pre) \<Longrightarrow>
    percpu_step P self s (s\<lparr>pp_phase := (pp_phase s)(u := Got a), pp_preempt := pre\<rparr>)"
| load: "pp_cur s c = Some u \<Longrightarrow> pp_phase s u = Got a \<Longrightarrow>
    percpu_step P self s (s\<lparr>pp_phase := (pp_phase s)(u := Loaded a (pp_mem s a))\<rparr>)"
| store: "pp_cur s c = Some u \<Longrightarrow> pp_phase s u = Loaded a v \<Longrightarrow>
    percpu_step P self s (s\<lparr>pp_phase := (pp_phase s)(u := Stored), pp_mem := (pp_mem s)(a := v + 1),
      pp_done := (pp_done s)(c := Suc (pp_done s c))\<rparr>)"
| put: "pp_cur s c = Some u \<Longrightarrow> pp_phase s u = Stored \<Longrightarrow>
    percpu_step P self s (s\<lparr>pp_phase := (pp_phase s)(u := Idle),
      pp_preempt := PerCPU_put self c (pp_preempt s)\<rparr>)"

inductive_cases percpu_stepE: "percpu_step P self s s'"

definition percpu_init :: percpu_state where
  "percpu_init = \<lparr>pp_mem = \<lambda>_. 0, pp_cur = \<lambda>_. None, pp_phase = \<lambda>_. Idle, pp_preempt = \<lambda>_. 0, pp_done = \<lambda>_. 0\<rparr>"

text \<open>The pointer a task holds between \<open>get\<close> and the end of its update.\<close>

fun held :: "task_phase \<Rightarrow> ptr option" where
  "held (Got a) = Some a"
| "held (Loaded a v) = Some a"
| "held _ = None"

text \<open>The documented fact about \<open>per_cpu_ptr\<close>: every CPU has its own copy.\<close>

definition percpu_disjoint :: "(ptr \<Rightarrow> nat \<Rightarrow> ptr) \<Rightarrow> bool" where
  "percpu_disjoint P \<longleftrightarrow> (\<forall>p c d. P p c = P p d \<longrightarrow> c = d)"

section \<open>Page\<close>

text \<open>\<open>page_from_virt\<close>, which the kernel calls \<open>virt_to_page\<close>, is a parameter, like \<open>kmap\<close>.\<close>

record Page = pg_page :: ptr

record MappedPtr = mp_addr :: ptr

definition Page_ctor :: "ptr \<Rightarrow> Page" where
  "Page_ctor p = \<lparr>pg_page = p\<rparr>"

definition Page_native_handle :: "Page \<Rightarrow> ptr" where
  "Page_native_handle self = pg_page self"

definition Page_bool :: "Page \<Rightarrow> bool" where
  "Page_bool self \<longleftrightarrow> pg_page self \<noteq> NULL"

definition MappedPtr_ctor :: "(trace \<Rightarrow> ptr \<Rightarrow> ptr) \<Rightarrow> Page \<Rightarrow> trace \<Rightarrow> MappedPtr \<times> trace" where
  "MappedPtr_ctor kmap p tr =
     (\<lparr>mp_addr = kmap tr (Page_native_handle p)\<rparr>, tr @ [Obj (Kmap (Page_native_handle p))])"

definition MappedPtr_dtor :: "(ptr \<Rightarrow> ptr) \<Rightarrow> MappedPtr \<Rightarrow> trace \<Rightarrow> trace" where
  "MappedPtr_dtor page_from_virt self tr =
     (if mp_addr self \<noteq> NULL then tr @ [Obj (Kunmap (page_from_virt (mp_addr self)))] else tr)"

definition MappedPtr_get :: "MappedPtr \<Rightarrow> ptr" where
  "MappedPtr_get self = mp_addr self"

definition Page_map :: "(trace \<Rightarrow> ptr \<Rightarrow> ptr) \<Rightarrow> Page \<Rightarrow> trace \<Rightarrow> MappedPtr \<times> trace" where
  "Page_map kmap self tr = MappedPtr_ctor kmap self tr"

text \<open>
  A function that maps the pages of a list one after the other in nested scopes, runs \<open>body\<close> with the
  addresses, and leaves the scopes.
\<close>

fun with_mapped ::
  "(trace \<Rightarrow> ptr \<Rightarrow> ptr) \<Rightarrow> (ptr \<Rightarrow> ptr) \<Rightarrow> Page list \<Rightarrow> (ptr list \<Rightarrow> trace) \<Rightarrow> trace \<Rightarrow> trace" where
  "with_mapped kmap pfv [] body tr = tr @ body []"
| "with_mapped kmap pfv (p # ps) body tr =
     (let (m, tr1) = Page_map kmap p tr
      in MappedPtr_dtor pfv m (with_mapped kmap pfv ps (\<lambda>as. body (MappedPtr_get m # as)) tr1))"

section \<open>PollTable, Inode, File\<close>

record Inode = in_inode :: ptr

record File = fl_file :: ptr

record PollTable = pt_pt :: ptr

definition Inode_ctor :: "ptr \<Rightarrow> Inode" where
  "Inode_ctor i = \<lparr>in_inode = i\<rparr>"

definition Inode_native_handle :: "Inode \<Rightarrow> ptr" where
  "Inode_native_handle self = in_inode self"

definition Inode_bool :: "Inode \<Rightarrow> bool" where
  "Inode_bool self \<longleftrightarrow> in_inode self \<noteq> NULL"

definition File_ctor :: "ptr \<Rightarrow> File" where
  "File_ctor f = \<lparr>fl_file = f\<rparr>"

definition File_native_handle :: "File \<Rightarrow> ptr" where
  "File_native_handle self = fl_file self"

definition File_bool :: "File \<Rightarrow> bool" where
  "File_bool self \<longleftrightarrow> fl_file self \<noteq> NULL"

definition PollTable_ctor :: "ptr \<Rightarrow> PollTable" where
  "PollTable_ctor pt = \<lparr>pt_pt = pt\<rparr>"

definition PollTable_wait :: "PollTable \<Rightarrow> File \<Rightarrow> ptr \<Rightarrow> trace \<Rightarrow> trace" where
  "PollTable_wait self f wq_head tr = tr @ [Obj (Poll_wait (File_native_handle f) wq_head (pt_pt self))]"

section \<open>MockState\<close>

text \<open>\<open>forced_return_value\<close> is not initialised: the constructor leaves \<open>junk\<close> in it.\<close>

record 'r MockState =
  ms_is_active :: bool
  ms_forced_return_value :: 'r
  ms_call_count :: int

definition MockState_ctor :: "'r \<Rightarrow> 'r MockState" where
  "MockState_ctor junk = \<lparr>ms_is_active = False, ms_forced_return_value = junk, ms_call_count = 0\<rparr>"

definition MockState_set_return :: "'r \<Rightarrow> 'r MockState \<Rightarrow> 'r MockState" where
  "MockState_set_return value self = self\<lparr>ms_is_active := True, ms_forced_return_value := value\<rparr>"

definition MockState_reset :: "'r MockState \<Rightarrow> 'r MockState" where
  "MockState_reset self = self\<lparr>ms_is_active := False, ms_call_count := 0\<rparr>"

text \<open>A test that sets return values and resets the mock; \<open>None\<close> is \<open>reset\<close>.\<close>

definition mock_run :: "'r option list \<Rightarrow> 'r MockState \<Rightarrow> 'r MockState" where
  "mock_run cs m = fold (\<lambda>c. case c of Some v \<Rightarrow> MockState_set_return v | None \<Rightarrow> MockState_reset) cs m"

section \<open>Lemmas\<close>

text \<open>
  A mock is active exactly if the last thing done was to set a return value, and then it has this
  value; its counter is not touched by setting values.
\<close>

lemma mock_run_last:
  assumes "cs \<noteq> []"
  shows "ms_is_active (mock_run cs (MockState_ctor junk)) \<longleftrightarrow> last cs \<noteq> None"
    and "last cs = Some v \<Longrightarrow> ms_forced_return_value (mock_run cs (MockState_ctor junk)) = v"
    and "ms_call_count (mock_run cs (MockState_ctor junk)) = 0"
proof -
  obtain ds c where cs: "cs = ds @ [c]" using assms by (cases cs rule: rev_cases) auto
  show "ms_is_active (mock_run cs (MockState_ctor junk)) \<longleftrightarrow> last cs \<noteq> None"
    and "last cs = Some v \<Longrightarrow> ms_forced_return_value (mock_run cs (MockState_ctor junk)) = v"
    by (auto simp: cs mock_run_def MockState_set_return_def MockState_reset_def split: option.splits)
  have "ms_call_count (mock_run es m) = ms_call_count m" if "ms_call_count m = 0" for es m
    using that unfolding mock_run_def
    by (induction es arbitrary: m) (auto simp: MockState_set_return_def MockState_reset_def split: option.splits)
  from this [of "MockState_ctor junk" cs] show "ms_call_count (mock_run cs (MockState_ctor junk)) = 0"
    by (simp add: MockState_ctor_def)
qed


lemma kref_ok_word: "kref_ok word_krefs"
  by (simp add: kref_ok_def word_krefs_def)

lemma unat_c_int: "n < 2 ^ 32 \<Longrightarrow> unat (of_nat n :: c_int) = n"
  by (simp add: unat_of_nat)

lemma of_nat_c_int_1:
  assumes "n \<le> KREF_MAX"
  shows "(of_nat n :: c_int) = 1 \<longleftrightarrow> n = 1"
proof
  assume "(of_nat n :: c_int) = 1"
  then have "unat (of_nat n :: c_int) = 1" by simp
  with unat_c_int [of n] assms show "n = 1" by simp
qed simp

lemma kref_get_of_nat: "kref_ok K \<Longrightarrow> 0 < h \<Longrightarrow> h < KREF_MAX \<Longrightarrow> kk_get K (of_nat h) = of_nat (Suc h)"
  using unat_c_int [of h] by (simp add: kref_ok_def add.commute)

lemma kref_put_of_nat: "kref_ok K \<Longrightarrow> 0 < h \<Longrightarrow> h \<le> KREF_MAX \<Longrightarrow> kk_put K (of_nat h) = (h = 1, of_nat (h - 1))"
  using unat_c_int [of h] of_nat_c_int_1 [of h] by (simp add: kref_ok_def of_nat_diff)

lemma kref_run_spec:
  assumes "kref_ok K" "kref_allowed h ops" "kr_ref r = of_nat h" "h \<le> KREF_MAX"
  shows "\<exists>rets r'. kref_run K release ops r w =
      (rets, r', if 0 < h \<and> kref_holders h ops = 0 then release w else w) \<and>
    kr_ref r' = of_nat (kref_holders h ops) \<and> sum_list rets = of_bool (0 < h \<and> kref_holders h ops = 0)"
  using assms(2-4)
proof (induction ops arbitrary: h r w)
  case Nil
  then show ?case by (cases h) simp_all
next
  case (Cons op ops)
  show ?case
  proof (cases op)
    case KGet
    with Cons.prems have "kr_ref (Kref_get K r) = of_nat (Suc h)"
      using kref_get_of_nat [OF assms(1)] by (simp add: Kref_get_def)
    with KGet Cons.prems Cons.IH [of "Suc h" "Kref_get K r" w] show ?thesis by auto
  next
    case KPut
    with Cons.prems have put: "Kref_put K release r w =
        (of_bool (h = 1), r\<lparr>kr_ref := of_nat (h - 1)\<rparr>, if h = 1 then release w else w)"
      using kref_put_of_nat [OF assms(1)] by (simp add: Kref_put_def)
    show ?thesis
    proof (cases "h = 1")
      case True
      with KPut Cons.prems have "ops = []" by (cases "(0 :: nat, ops)" rule: kref_allowed.cases) auto
      with True KPut put show ?thesis by simp
    next
      case False
      with KPut Cons.prems have "0 < h - 1" "h - 1 \<le> KREF_MAX" "kref_allowed (h - 1) ops" by auto
      with Cons.IH [of "h - 1" "r\<lparr>kr_ref := of_nat (h - 1)\<rparr>" w] obtain rets r' where
        "kref_run K release ops (r\<lparr>kr_ref := of_nat (h - 1)\<rparr>) w =
           (rets, r', if kref_holders (h - 1) ops = 0 then release w else w)"
        "kr_ref r' = of_nat (kref_holders (h - 1) ops)" "sum_list rets = of_bool (kref_holders (h - 1) ops = 0)"
        by auto
      with False KPut put Cons.prems show ?thesis
        by (intro exI [of _ "0 # rets"] exI [of _ r']) auto
    qed
  qed
qed

text \<open>
  The invariant of the per-CPU counters: a task between \<open>get\<close> and \<open>put\<close> is running, on the CPU whose
  copy it uses, and it alone has disabled preemption there.
\<close>

definition cpu_ok :: "ptr \<Rightarrow> percpu_state \<Rightarrow> nat \<Rightarrow> bool" where
  "cpu_ok a s c \<longleftrightarrow> pp_mem s a = of_nat (pp_done s c) \<and>
     (case pp_cur s c of
        None \<Rightarrow> pp_preempt s c = 0
      | Some u \<Rightarrow> pp_phase s u \<in> {Idle, Got a, Loaded a (pp_mem s a), Stored} \<and>
          pp_preempt s c = of_bool (pp_phase s u \<noteq> Idle))"

definition percpu_inv :: "(ptr \<Rightarrow> nat \<Rightarrow> ptr) \<Rightarrow> PerCPU \<Rightarrow> percpu_state \<Rightarrow> bool" where
  "percpu_inv P self s \<longleftrightarrow>
     (\<forall>c d u. pp_cur s c = Some u \<longrightarrow> pp_cur s d = Some u \<longrightarrow> c = d) \<and>
     (\<forall>u. pp_phase s u \<noteq> Idle \<longrightarrow> (\<exists>c. pp_cur s c = Some u)) \<and>
     (\<forall>c. cpu_ok (P (pc_ptr self) c) s c)"

lemma percpu_invD:
  assumes "percpu_inv P self s"
  shows "pp_cur s c = Some u \<Longrightarrow> pp_cur s d = Some u \<Longrightarrow> c = d"
    and "pp_phase s u \<noteq> Idle \<Longrightarrow> \<exists>c. pp_cur s c = Some u"
    and "cpu_ok (P (pc_ptr self) c) s c"
  using assms by (auto simp: percpu_inv_def)

lemma cpu_okD:
  assumes "cpu_ok a s c" "pp_cur s c = Some u"
  shows "pp_phase s u = Got b \<Longrightarrow> b = a" and "pp_phase s u = Loaded b v \<Longrightarrow> b = a \<and> v = of_nat (pp_done s c)"
    and "pp_preempt s c = of_bool (pp_phase s u \<noteq> Idle)" and "pp_mem s a = of_nat (pp_done s c)"
  using assms by (auto simp: cpu_ok_def)

lemma percpu_inv_switch:
  assumes "percpu_inv P self s" "pp_preempt s c = 0" "\<forall>d. d \<noteq> c \<longrightarrow> pp_cur s d \<noteq> Some u" "new \<in> {None, Some u}"
  shows "percpu_inv P self (s\<lparr>pp_cur := (pp_cur s)(c := new)\<rparr>)"
proof -
  have elsewhere: "\<exists>d. d \<noteq> c \<and> pp_cur s d = Some w" if w: "pp_phase s w \<noteq> Idle" for w
  proof -
    from percpu_invD(2) [OF assms(1) w] obtain d where d: "pp_cur s d = Some w" by blast
    with cpu_okD(3) [OF percpu_invD(3) [OF assms(1)] d] w assms(2) show ?thesis by (cases "d = c") auto
  qed
  with assms(3) have idle: "pp_phase s u = Idle" by blast
  from percpu_invD(3) [OF assms(1), of c] assms(2,4) idle
  have "cpu_ok (P (pc_ptr self) c) (s\<lparr>pp_cur := (pp_cur s)(c := new)\<rparr>) c"
    by (auto simp: cpu_ok_def)
  moreover have "cpu_ok a (s\<lparr>pp_cur := (pp_cur s)(c := new)\<rparr>) d = cpu_ok a s d" if "d \<noteq> c" for a d
    using that by (simp add: cpu_ok_def split: option.split)
  ultimately have "cpu_ok (P (pc_ptr self) d) (s\<lparr>pp_cur := (pp_cur s)(c := new)\<rparr>) d" for d
    using percpu_invD(3) [OF assms(1), of d] by (cases "d = c") auto
  moreover have "\<exists>d. ((pp_cur s)(c := new)) d = Some w" if "pp_phase s w \<noteq> Idle" for w
    using elsewhere [OF that] by auto
  moreover have "((pp_cur s)(c := new)) d = Some w \<Longrightarrow> ((pp_cur s)(c := new)) e = Some w \<Longrightarrow> d = e" for d e w
    using percpu_invD(1) [OF assms(1), of d w e] assms(3,4) by (auto split: if_splits)
  ultimately show ?thesis unfolding percpu_inv_def by (simp del: fun_upd_apply)
qed

text \<open>A step of the task on CPU \<open>c\<close>, which leaves the other CPUs and tasks alone.\<close>

lemma percpu_inv_task:
  assumes "percpu_inv P self s" "pp_cur s c = Some u" "pp_cur s' = pp_cur s"
    and "\<And>w. w \<noteq> u \<Longrightarrow> pp_phase s' w = pp_phase s w"
    and "\<And>d. d \<noteq> c \<Longrightarrow> pp_preempt s' d = pp_preempt s d \<and> pp_done s' d = pp_done s d \<and>
      pp_mem s' (P (pc_ptr self) d) = pp_mem s (P (pc_ptr self) d)"
    and "cpu_ok (P (pc_ptr self) c) s' c"
  shows "percpu_inv P self s'"
proof -
  have "cpu_ok (P (pc_ptr self) d) s' d" if "d \<noteq> c" for d
  proof -
    have "pp_cur s d \<noteq> Some u" using percpu_invD(1) [OF assms(1,2), of d] that by blast
    with percpu_invD(3) [OF assms(1), of d] assms(3,4) assms(5) [OF that] show ?thesis
      by (auto simp: cpu_ok_def split: option.splits)
  qed
  with assms(6) have "cpu_ok (P (pc_ptr self) d) s' d" for d by (cases "d = c") auto
  moreover have "\<exists>d. pp_cur s' d = Some w" if "pp_phase s' w \<noteq> Idle" for w
    using that percpu_invD(2) [OF assms(1), of w] assms(2,3,4) by (cases "w = u") auto
  ultimately show ?thesis
    using percpu_invD(1) [OF assms(1)] assms(3) unfolding percpu_inv_def by auto
qed

lemma percpu_inv_step:
  assumes "percpu_disjoint P" "percpu_inv P self s" "percpu_step P self s s'"
  shows "percpu_inv P self s'"
  using assms(3)
proof (cases rule: percpu_step.cases)
  case (switch c u new)
  with percpu_inv_switch [OF assms(2)] show ?thesis by simp
next
  case (get c u a pre)
  with cpu_okD [OF percpu_invD(3) [OF assms(2)] get(2)] show ?thesis
    by (intro percpu_inv_task [OF assms(2) get(2)]) (auto simp: cpu_ok_def PerCPU_get_def)
next
  case (load c u a)
  with cpu_okD [OF percpu_invD(3) [OF assms(2)] load(2)] show ?thesis
    by (intro percpu_inv_task [OF assms(2) load(2)]) (auto simp: cpu_ok_def)
next
  case (store c u a v)
  have "P (pc_ptr self) d = P (pc_ptr self) e \<longleftrightarrow> d = e" for d e
    using assms(1) by (auto simp: percpu_disjoint_def)
  with store cpu_okD [OF percpu_invD(3) [OF assms(2)] store(2)] show ?thesis
    by (intro percpu_inv_task [OF assms(2) store(2)]) (auto simp: cpu_ok_def)
next
  case (put c u)
  with cpu_okD [OF percpu_invD(3) [OF assms(2)] put(2)] show ?thesis
    by (intro percpu_inv_task [OF assms(2) put(2)]) (auto simp: cpu_ok_def PerCPU_put_def)
qed

lemma percpu_inv_reachable:
  assumes "percpu_disjoint P" "(percpu_step P self)\<^sup>*\<^sup>* percpu_init s"
  shows "percpu_inv P self s"
  using assms(2)
proof (induction rule: rtranclp_induct)
  case base
  show ?case by (simp add: percpu_init_def percpu_inv_def cpu_ok_def)
next
  case (step s s')
  with assms(1) show ?case by (blast intro: percpu_inv_step)
qed

lemma with_mapped_trace:
  assumes "\<And>tr p. kmap tr p \<noteq> NULL" "\<And>tr p. pfv (kmap tr p) = p"
  shows "\<exists>as. length as = length ps \<and> with_mapped kmap pfv ps body tr =
    tr @ map (\<lambda>p. Obj (Kmap (pg_page p))) ps @ body as @ rev (map (\<lambda>p. Obj (Kunmap (pg_page p))) ps)"
proof (induction ps arbitrary: body tr)
  case (Cons p ps)
  let ?m = "kmap tr (pg_page p)"
  from Cons.IH [of "\<lambda>as. body (?m # as)" "tr @ [Obj (Kmap (pg_page p))]"] obtain as where
    "length as = length ps" "with_mapped kmap pfv ps (\<lambda>as. body (?m # as)) (tr @ [Obj (Kmap (pg_page p))]) =
       (tr @ [Obj (Kmap (pg_page p))]) @ map (\<lambda>p. Obj (Kmap (pg_page p))) ps @ body (?m # as) @
       rev (map (\<lambda>p. Obj (Kunmap (pg_page p))) ps)"
    by blast
  with assms show ?case
    by (intro exI [of _ "?m # as"])
      (simp add: Page_map_def MappedPtr_ctor_def MappedPtr_dtor_def MappedPtr_get_def Page_native_handle_def)
qed simp

section \<open>Properties\<close>

text \<open>
  C18.  Reference counting with \<open>Kref\<close>: however the holders of an object interleave their \<open>get\<close> and
  \<open>put\<close>, the counter is the number of references, the release function runs exactly once when the
  last reference is dropped and not before, and exactly that \<open>put\<close> returns 1.
\<close>

theorem Kref_releases_once:
  assumes "kref_ok K" "kref_allowed 1 ops" "kref_run K release ops (Kref_ctor K junk) w = (rets, r, w')"
  shows "kr_ref r = of_nat (kref_holders 1 ops) \<and>
    w' = (if kref_holders 1 ops = 0 then release w else w) \<and>
    sum_list rets = of_bool (kref_holders 1 ops = 0)"
proof -
  have "kr_ref (Kref_ctor K junk) = of_nat 1" using assms(1) by (simp add: Kref_ctor_def kref_ok_def)
  from kref_run_spec [OF assms(1,2) this, of release w] assms(3) show ?thesis by auto
qed

theorem Kref_releases_once_witness:
  "snd (snd (kref_run word_krefs Suc [KGet, KPut, KGet, KPut, KPut] (Kref_ctor word_krefs 77) 0)) = 1"
proof -
  let ?ops = "[KGet, KPut, KGet, KPut, KPut]"
  obtain rets r w where run: "kref_run word_krefs Suc ?ops (Kref_ctor word_krefs 77) 0 = (rets, r, w)"
    using prod_cases3 by blast
  have "kref_allowed 1 ?ops" by simp
  from Kref_releases_once [OF kref_ok_word this run] run show ?thesis by simp
qed

text \<open>
  C19.  Per-CPU data needs no lock, because \<open>get\<close> disables preemption.  For a counter no larger than
  the \<open>size_t\<close> the constructor allocates, and any number of tasks that increment it between \<open>get\<close> and
  \<open>put\<close> while the scheduler moves them between the CPUs in any way: each copy holds the number of
  increments made on its CPU (modulo \<open>2^64\<close>), so none is lost; no two tasks ever hold a pointer to
  the same copy; a task that holds one is running on the CPU of that copy; and the depth of a CPU
  is back at 0 when no task there is between the two calls.
\<close>

theorem PerCPU_no_lost_update:
  assumes "percpu_disjoint P" "(percpu_step P self)\<^sup>*\<^sup>* percpu_init s"
  shows "(\<forall>c. pp_mem s (PerCPU_get_for_cpu P self c) = of_nat (pp_done s c)) \<and>
    (\<forall>u a. held (pp_phase s u) = Some a \<longrightarrow>
       (\<exists>c. pp_cur s c = Some u \<and> a = PerCPU_get_for_cpu P self c) \<and>
       (\<forall>w. held (pp_phase s w) = Some a \<longrightarrow> w = u)) \<and>
    (\<forall>c. pp_preempt s c = of_bool (\<exists>u. pp_cur s c = Some u \<and> pp_phase s u \<noteq> Idle))"
proof -
  note inv = percpu_invD [OF percpu_inv_reachable [OF assms]]
  have at: "\<exists>c. pp_cur s c = Some u \<and> a = PerCPU_get_for_cpu P self c" if h: "held (pp_phase s u) = Some a" for u a
  proof -
    from h inv(2) [of u] obtain c where c: "pp_cur s c = Some u" by (cases "pp_phase s u") auto
    with h cpu_okD(1,2) [OF inv(3) c] show ?thesis
      by (cases "pp_phase s u") (auto simp: PerCPU_get_for_cpu_def)
  qed
  have "w = u" if hu: "held (pp_phase s u) = Some a" and hw: "held (pp_phase s w) = Some a" for u w a
  proof -
    from at [OF hu] at [OF hw] obtain c d where cd: "pp_cur s c = Some u" "pp_cur s d = Some w"
      and "PerCPU_get_for_cpu P self c = PerCPU_get_for_cpu P self d" by auto
    with assms(1) have "c = d" by (auto simp: PerCPU_get_for_cpu_def percpu_disjoint_def)
    with cd show ?thesis by simp
  qed
  moreover have "pp_preempt s c = of_bool (\<exists>u. pp_cur s c = Some u \<and> pp_phase s u \<noteq> Idle)" for c
    using inv(3) [of c] by (auto simp: cpu_ok_def split: option.splits)
  moreover have "pp_mem s (PerCPU_get_for_cpu P self c) = of_nat (pp_done s c)" for c
    using inv(3) [of c] by (simp add: cpu_ok_def PerCPU_get_for_cpu_def)
  ultimately show ?thesis using at by blast
qed

theorem PerCPU_no_lost_update_witness:
  "\<exists>s. (percpu_step (\<lambda>p c. Ptr (100 + c)) \<lparr>pc_ptr = Ptr 5\<rparr>)\<^sup>*\<^sup>* percpu_init s \<and> pp_phase s 7 = Got (Ptr 101) \<and>
     pp_preempt s 1 = 1"
proof -
  let ?P = "\<lambda>p c. Ptr (100 + c)" and ?R = "percpu_step (\<lambda>p c. Ptr (100 + c)) \<lparr>pc_ptr = Ptr 5\<rparr>"
  let ?s1 = "percpu_init\<lparr>pp_cur := (pp_cur percpu_init)(1 := Some 7)\<rparr>"
  let ?s2 = "?s1\<lparr>pp_phase := (pp_phase ?s1)(7 := Got (Ptr 101)), pp_preempt := (\<lambda>_. 0)(1 := 1)\<rparr>"
  have d: "percpu_disjoint ?P" by (simp add: percpu_disjoint_def)
  have "?R percpu_init ?s1"
    by (rule percpu_step.switch [of _ 1 7]) (simp_all add: percpu_init_def)
  moreover have "?R ?s1 ?s2"
    by (rule percpu_step.get [of _ 1 7]) (simp_all add: percpu_init_def PerCPU_get_def)
  ultimately have r: "?R\<^sup>*\<^sup>* percpu_init ?s2" by (rule converse_rtranclp_into_rtranclp [OF _ r_into_rtranclp])
  have "pp_phase ?s2 7 = Got (Ptr 101)" "pp_cur ?s2 1 = Some 7" by simp_all
  with PerCPU_no_lost_update [OF d r] r show ?thesis by (intro exI [of _ ?s2]) auto
qed

text \<open>
  Pages mapped in nested scopes are unmapped in reverse order, each page exactly once, whatever
  is done in between, given that the kernel finds the page of an address it mapped.
\<close>

theorem Page_maps_nest:
  assumes "\<And>tr p. kmap tr p \<noteq> NULL" "\<And>tr p. page_from_virt (kmap tr p) = p"
  shows "\<exists>as. length as = length ps \<and> with_mapped kmap page_from_virt ps body tr =
    tr @ map (\<lambda>p. Obj (Kmap (Page_native_handle p))) ps @ body as @
      rev (map (\<lambda>p. Obj (Kunmap (Page_native_handle p))) ps)"
  using with_mapped_trace [OF assms] by (simp add: Page_native_handle_def)

theorem Page_maps_nest_witness:
  "with_mapped (\<lambda>_ p. case p of NULL \<Rightarrow> Ptr 0 | ERR_PTR e \<Rightarrow> ERR_PTR e | Ptr n \<Rightarrow> Ptr (Suc n))
      (\<lambda>a. case a of Ptr 0 \<Rightarrow> NULL | Ptr (Suc n) \<Rightarrow> Ptr n | _ \<Rightarrow> a) [Page_ctor (Ptr 3), Page_ctor (Ptr 4)] (\<lambda>_. []) [] =
    [Obj (Kmap (Ptr 3)), Obj (Kmap (Ptr 4)), Obj (Kunmap (Ptr 4)), Obj (Kunmap (Ptr 3))]"
proof -
  let ?k = "\<lambda>_ p. case p of NULL \<Rightarrow> Ptr 0 | ERR_PTR e \<Rightarrow> ERR_PTR e | Ptr n \<Rightarrow> Ptr (Suc n)"
  let ?v = "\<lambda>a. case a of Ptr 0 \<Rightarrow> NULL | Ptr (Suc n) \<Rightarrow> Ptr n | _ \<Rightarrow> a"
  have "?k tr p \<noteq> NULL" "?v (?k tr p) = p" for tr :: trace and p by (cases p; simp)+
  from Page_maps_nest [OF this, of "[Page_ctor (Ptr 3), Page_ctor (Ptr 4)]" "\<lambda>_. []" "[]"] show ?thesis
    by (auto simp: Page_native_handle_def Page_ctor_def simp del: with_mapped.simps)
qed

end
