(* ===== verification/Kpp_Log.thy ===== *)
theory Kpp_Log
  imports Kpp_Prelude
begin

text \<open>
  \<^verbatim>\<open>core/Log.hpp\<close> and \<^verbatim>\<open>testing/TestFramework.hpp\<close>.

  The console is the characters printed so far.  \<open>log\<close> passes each of its arguments to \<open>printk\<close> as the
  format string, so the arguments are strings.  Of the conversions, \<open>%s\<close> and \<open>%%\<close> are modelled; a
  conversion for which no argument was passed, and every other one, is \<open>None\<close>.
\<close>

section \<open>printk and log\<close>

type_synonym console = string

fun printk_format :: "string \<Rightarrow> string list \<Rightarrow> string option" where
  "printk_format [] args = Some []"
| "printk_format (c # cs) args =
     (if c \<noteq> CHR ''%'' then map_option ((#) c) (printk_format cs args)
      else case cs of
        [] \<Rightarrow> None
      | d # ds \<Rightarrow>
          if d = CHR ''%'' then map_option ((#) CHR ''%'') (printk_format ds args)
          else if d = CHR ''s'' then
            (case args of [] \<Rightarrow> None | a # as \<Rightarrow> map_option ((@) a) (printk_format ds as))
          else None)"

definition printk :: "string \<Rightarrow> string list \<Rightarrow> console \<Rightarrow> console option" where
  "printk fmt args con = map_option ((@) con) (printk_format fmt args)"

abbreviation newline :: string where "newline \<equiv> [CHR 0x0A]"

text \<open>The fold over the parameter pack, left to right.\<close>

fun log_args :: "string list \<Rightarrow> console \<Rightarrow> console option" where
  "log_args [] con = Some con"
| "log_args (a # as) con =
     (case printk ''%s'' ['' ''] con of
        None \<Rightarrow> None
      | Some con1 \<Rightarrow> (case printk a [] con1 of None \<Rightarrow> None | Some con2 \<Rightarrow> log_args as con2))"

definition kpp_log :: "string \<Rightarrow> string list \<Rightarrow> console \<Rightarrow> console option" where
  "kpp_log LogLevel args con =
     (case printk LogLevel [] con of
        None \<Rightarrow> None
      | Some con1 \<Rightarrow> (case log_args args con1 of None \<Rightarrow> None | Some con2 \<Rightarrow> printk newline [] con2))"

abbreviation KERN_INFO :: string where "KERN_INFO \<equiv> [CHR 0x01, CHR ''6'']"

section \<open>run_test\<close>

text \<open>A test prints to the console, or panics: then it does not return, \<open>None\<close>.\<close>

definition run_test :: "(console \<Rightarrow> console option) \<Rightarrow> string \<Rightarrow> console \<Rightarrow> (bool \<times> console) option" where
  "run_test test_func test_name con =
     (case kpp_log KERN_INFO [''[ RUN      ] '', test_name] con of
        None \<Rightarrow> None
      | Some con1 \<Rightarrow>
          (case test_func con1 of
             None \<Rightarrow> None
           | Some con2 \<Rightarrow>
               (case kpp_log KERN_INFO [''[       OK ] '', test_name] con2 of
                  None \<Rightarrow> None | Some con3 \<Rightarrow> Some (True, con3))))"

text \<open>
  \<open>TEST(suite, name)\<close> runs the test in the initialiser of a static variable, under the name \<open>suite.name\<close>.
\<close>

definition TEST_registered ::
  "string \<Rightarrow> string \<Rightarrow> (console \<Rightarrow> console option) \<Rightarrow> console \<Rightarrow> (bool \<times> console) option" where
  "TEST_registered test_suite test_name f con =
     (case run_test f (test_suite @ ''.'' @ test_name) con of None \<Rightarrow> None | Some (_, con') \<Rightarrow> Some (True, con'))"

section \<open>Assertions\<close>

text \<open>
  An assertion returns, or panics after it has logged the failure; \<open>Undefined\<close> is a \<open>printk\<close> that reads
  an argument that was not passed.  \<open>file\<close> and \<open>line\<close> are the further arguments of \<open>log\<close>, the line number
  taken as a text; they come behind the text of the message.
\<close>

datatype test_outcome = Returns console | Panics console | Undefined

abbreviation KERN_ERR :: string where "KERN_ERR \<equiv> [CHR 0x01, CHR ''3'']"

definition assert_failed :: "string list \<Rightarrow> console \<Rightarrow> test_outcome" where
  "assert_failed args con =
     (case kpp_log KERN_ERR args con of
        None \<Rightarrow> Undefined | Some con' \<Rightarrow> Panics (con' @ ''K++ Test assertion failed''))"

definition KPP_ASSERT_TRUE :: "bool \<Rightarrow> string \<Rightarrow> string \<Rightarrow> string \<Rightarrow> console \<Rightarrow> test_outcome" where
  "KPP_ASSERT_TRUE condition text file_name line con =
     (if \<not> condition
      then assert_failed [''[  FAILED  ] %s:%d: Assertion failed: '' @ text @ '' is not true'', file_name, line] con
      else Returns con)"

definition KPP_ASSERT_EQ :: "'a \<Rightarrow> 'a \<Rightarrow> string \<Rightarrow> string \<Rightarrow> string \<Rightarrow> string \<Rightarrow> console \<Rightarrow> test_outcome" where
  "KPP_ASSERT_EQ val1 val2 text1 text2 file_name line con =
     (if \<not> (val1 = val2)
      then assert_failed [''[  FAILED  ] %s:%d: Assertion failed: '' @ text1 @ '' (actual) != '' @ text2 @ '' (expected)'',
             file_name, line] con
      else Returns con)"

text \<open>The body of a test: assertions one after the other, until one does not return.\<close>

datatype assertion = Assert_true bool string string string | Assert_eq int int string string string string

fun run_assertion :: "assertion \<Rightarrow> console \<Rightarrow> test_outcome" where
  "run_assertion (Assert_true c t f l) con = KPP_ASSERT_TRUE c t f l con"
| "run_assertion (Assert_eq a b t u f l) con = KPP_ASSERT_EQ a b t u f l con"

fun run_assertions :: "assertion list \<Rightarrow> console \<Rightarrow> test_outcome" where
  "run_assertions [] con = Returns con"
| "run_assertions (a # as) con = (case run_assertion a con of Returns con' \<Rightarrow> run_assertions as con' | r \<Rightarrow> r)"

fun holds :: "assertion \<Rightarrow> bool" where
  "holds (Assert_true c t f l) = c"
| "holds (Assert_eq a b t u f l) = (a = b)"

fun returned :: "test_outcome \<Rightarrow> console option" where
  "returned (Returns con) = Some con"
| "returned _ = None"

section \<open>Lemmas\<close>

text \<open>Text without a percent sign is printed as it is.\<close>

abbreviation plain :: "string \<Rightarrow> bool" where "plain a \<equiv> CHR ''%'' \<notin> set a"

lemma printk_format_plain: "plain a \<Longrightarrow> printk_format a args = Some a"
  by (induction a) auto

text \<open>A first conversion that is not \<open>%%\<close> has no argument.\<close>

lemma printk_format_conversion:
  "plain a \<Longrightarrow> c \<noteq> CHR ''%'' \<Longrightarrow> printk_format (a @ CHR ''%'' # c # b) [] = None"
  by (induction a) auto

lemma printk_conversion: "plain a \<Longrightarrow> c \<noteq> CHR ''%'' \<Longrightarrow> printk (a @ CHR ''%'' # c # b) [] con = None"
  by (simp add: printk_def printk_format_conversion)

lemma printk_plain: "plain a \<Longrightarrow> printk a [] con = Some (con @ a)"
  by (simp add: printk_def printk_format_plain)

lemma printk_blank: "printk ''%s'' ['' ''] con = Some (con @ '' '')"
  by (simp add: printk_def)

lemma log_args_append:
  "log_args (as @ bs) con = (case log_args as con of None \<Rightarrow> None | Some con' \<Rightarrow> log_args bs con')"
  by (induction as arbitrary: con) (auto split: option.splits)

lemma log_args_plain:
  "\<forall>a\<in>set args. plain a \<Longrightarrow> log_args args con = Some (con @ concat (map ((#) CHR '' '') args))"
  by (induction args arbitrary: con) (simp_all add: printk_blank printk_plain)

lemma log_args_conversion:
  "plain a \<Longrightarrow> c \<noteq> CHR ''%'' \<Longrightarrow> log_args (as @ (a @ CHR ''%'' # c # b) # bs) con = None"
  by (simp add: log_args_append printk_blank printk_conversion split: option.splits)

lemma kpp_log_plain:
  assumes "plain level" "\<forall>a\<in>set args. plain a"
  shows "kpp_log level args con = Some (con @ level @ concat (map ((#) CHR '' '') args) @ newline)"
  using assms by (simp add: kpp_log_def printk_plain log_args_plain)

lemma assert_failed_Undefined:
  assumes "plain a" "c \<noteq> CHR ''%''"
  shows "assert_failed ((a @ CHR ''%'' # c # b) # args) con = Undefined"
  using log_args_conversion [OF assms, of "[]" b args]
  by (simp add: assert_failed_def kpp_log_def printk_plain)

lemma run_assertion_cases: "run_assertion a con = (if holds a then Returns con else Undefined)"
  using assert_failed_Undefined [of "''[  FAILED  ] ''" "CHR ''s''"]
  by (cases a) (simp_all add: KPP_ASSERT_TRUE_def KPP_ASSERT_EQ_def)

lemma run_assertions_cases: "run_assertions as con = (if \<forall>a\<in>set as. holds a then Returns con else Undefined)"
  by (induction as arbitrary: con) (auto simp: run_assertion_cases)

section \<open>Properties\<close>

text \<open>
  A line of the log: arguments without percent signs are printed behind the level, each after a
  blank, and the line ends with a newline.  But an argument is used as a format: if a text with a
  conversion such as \<open>%s\<close> or \<open>%d\<close> is among the arguments, \<open>printk\<close> reads an argument that was not passed,
  whatever follows in the pack.
\<close>

theorem log_arguments_are_formats:
  assumes "plain level" "\<forall>a\<in>set args. plain a" "plain t" "c \<noteq> CHR ''%''"
  shows "kpp_log level args con = Some (con @ level @ concat (map ((#) CHR '' '') args) @ newline) \<and>
    kpp_log level (args @ (t @ CHR ''%'' # c # t') # more) con = None"
proof
  show "kpp_log level args con = Some (con @ level @ concat (map ((#) CHR '' '') args) @ newline)"
    using assms(1,2) by (rule kpp_log_plain)
  show "kpp_log level (args @ (t @ CHR ''%'' # c # t') # more) con = None"
    using assms by (simp add: kpp_log_def printk_plain log_args_conversion)
qed

theorem log_arguments_are_formats_witness:
  "kpp_log KERN_INFO [''port'', ''80''] [] = Some (KERN_INFO @ '' port 80'' @ newline) \<and>
   kpp_log KERN_INFO ([''port'', ''80''] @ [''[  FAILED  ] '' @ CHR ''%'' # CHR ''s'' # '' is not true'', ''test.cpp'']) [] = None"
  using log_arguments_are_formats [of KERN_INFO "[''port'', ''80'']" "''[  FAILED  ] ''" "CHR ''s''" "[]"
      "'' is not true''" "[''test.cpp'']"] by simp

text \<open>
  \<open>run_test\<close> announces a test, runs it once on the console with the announcement, and reports it as
  passed exactly when it returns.
\<close>

theorem run_test_reports:
  assumes "plain name"
  shows "run_test test name con =
    map_option (\<lambda>c. (True, c @ KERN_INFO @ '' [       OK ]  '' @ name @ newline))
      (test (con @ KERN_INFO @ '' [ RUN      ]  '' @ name @ newline))"
  using assms by (simp add: run_test_def kpp_log_plain split: option.splits)

theorem run_test_reports_witness:
  "run_test (\<lambda>_. None) ''list.add'' [] = None \<and> run_test Some ''a'' [] =
     Some (True, (KERN_INFO @ '' [ RUN      ]  a'' @ newline) @ KERN_INFO @ '' [       OK ]  a'' @ newline)"
  using run_test_reports [of "''list.add''" "\<lambda>_. None" "[]"] run_test_reports [of "''a''" Some "[]"] by simp

text \<open>
  A registered test that makes a sequence of assertions is reported as passed exactly when all of
  them hold; but a failing assertion does not get to its \<open>panic\<close>: the message it logs contains \<open>%s\<close>, so
  the behaviour is undefined before.
\<close>

theorem failing_assertions_are_undefined:
  assumes "plain suite" "plain name"
  shows "run_assertions as con = (if \<forall>a\<in>set as. holds a then Returns con else Undefined) \<and>
    (TEST_registered suite name (\<lambda>c. returned (run_assertions as c)) con \<noteq> None \<longleftrightarrow> (\<forall>a\<in>set as. holds a))"
  using assms by (auto simp: run_assertions_cases TEST_registered_def run_test_def kpp_log_plain)

theorem failing_assertions_are_undefined_witness:
  "run_assertions [Assert_eq 2 2 ''n'' ''2'' ''a.cpp'' ''7'', Assert_true False ''p'' ''a.cpp'' ''8''] [] = Undefined"
  using failing_assertions_are_undefined [of "''s''" "''n''"
      "[Assert_eq 2 2 ''n'' ''2'' ''a.cpp'' ''7'', Assert_true False ''p'' ''a.cpp'' ''8'']" "[]"] by simp

end
