(* ===== verification/Kpp_Locking.thy ===== *)
theory Kpp_Locking
  imports Kpp_Sync
begin

text \<open>
  Threads whose functions take locks with \<open>ScopedLock\<close> (\<^verbatim>\<open>sync/ScopedLock.hpp\<close>, \<^verbatim>\<open>sync/Mutex.hpp\<close>,
  \<^verbatim>\<open>sync/SpinLock.hpp\<close>).

  The program of a thread is the sequence of kernel calls its blocks make (\<open>run_blocks\<close>).  The threads
  execute their calls in any interleaving; the kernel's lock is its owner, and a call that takes a
  lock waits until the lock has none.  The discipline is the usual one: inside a scope, only locks
  of a higher rank (address) are taken.
\<close>

section \<open>Threads and locks\<close>

record lstate =
  ls_owner :: "oid \<Rightarrow> nat option"
  ls_rest :: "nat \<Rightarrow> trace"

inductive lstep :: "(kcall \<Rightarrow> oid option) \<Rightarrow> (kcall \<Rightarrow> oid option) \<Rightarrow> lstate \<Rightarrow> lstate \<Rightarrow> bool" for acq rel where
  lock: "ls_rest s t = c # tr \<Longrightarrow> acq c = Some a \<Longrightarrow> ls_owner s a = None \<Longrightarrow>
    lstep acq rel s (s\<lparr>ls_owner := (ls_owner s)(a := Some t), ls_rest := (ls_rest s)(t := tr)\<rparr>)"
| unlock: "ls_rest s t = c # tr \<Longrightarrow> acq c = None \<Longrightarrow> rel c = Some a \<Longrightarrow>
    lstep acq rel s (s\<lparr>ls_owner := (ls_owner s)(a := None), ls_rest := (ls_rest s)(t := tr)\<rparr>)"
| call: "ls_rest s t = c # tr \<Longrightarrow> acq c = None \<Longrightarrow> rel c = None \<Longrightarrow>
    lstep acq rel s (s\<lparr>ls_rest := (ls_rest s)(t := tr)\<rparr>)"

text \<open>Thread \<open>t\<close> runs the blocks \<open>ps ! t\<close>.\<close>

definition lstart :: "lock_class \<Rightarrow> block list list \<Rightarrow> lstate" where
  "lstart C ps = \<lparr>ls_owner = (\<lambda>_. None), ls_rest = (\<lambda>t. if t < length ps then run_blocks C (ps ! t) [] else [])\<rparr>"

text \<open>The discipline, on the blocks of the source: \<open>H\<close> are the locks of the scopes around.\<close>

fun lock_ordered :: "oid list \<Rightarrow> block \<Rightarrow> bool" where
  "lock_ordered H (Call c) \<longleftrightarrow> True"
| "lock_ordered H (Locked a bs) \<longleftrightarrow> (\<forall>h\<in>set H. h < a) \<and> (\<forall>b\<in>set bs. lock_ordered (a # H) b)"

text \<open>What is left of the calls of a thread that holds the locks \<open>H\<close>.\<close>

fun disciplined :: "(kcall \<Rightarrow> oid option) \<Rightarrow> (kcall \<Rightarrow> oid option) \<Rightarrow> oid list \<Rightarrow> trace \<Rightarrow> bool" where
  "disciplined acq rel H [] \<longleftrightarrow> H = []"
| "disciplined acq rel H (c # tr) \<longleftrightarrow>
     (case acq c of
        Some a \<Rightarrow> (\<forall>h\<in>set H. h < a) \<and> disciplined acq rel (a # H) tr
      | None \<Rightarrow> (case rel c of
          None \<Rightarrow> disciplined acq rel H tr
        | Some a \<Rightarrow> (case H of [] \<Rightarrow> False | b # H' \<Rightarrow> a = b \<and> a \<notin> set H' \<and> disciplined acq rel H' tr)))"

text \<open>\<open>H t\<close> are the locks thread \<open>t\<close> holds, innermost first.\<close>

definition linv :: "(kcall \<Rightarrow> oid option) \<Rightarrow> (kcall \<Rightarrow> oid option) \<Rightarrow> nat \<Rightarrow> (nat \<Rightarrow> oid list) \<Rightarrow> lstate \<Rightarrow> bool" where
  "linv acq rel n H s \<longleftrightarrow> (\<forall>t. disciplined acq rel (H t) (ls_rest s t)) \<and>
     (\<forall>a t. ls_owner s a = Some t \<longleftrightarrow> a \<in> set (H t)) \<and> (\<forall>t\<ge>n. ls_rest s t = [])"

section \<open>Preservation\<close>

lemma linvD:
  assumes "linv acq rel n H s"
  shows "disciplined acq rel (H t) (ls_rest s t)" "ls_owner s a = Some t \<longleftrightarrow> a \<in> set (H t)"
    "n \<le> t \<Longrightarrow> ls_rest s t = []"
  using assms by (auto simp: linv_def)

lemma lstep_linv:
  assumes "linv acq rel n H s" "lstep acq rel s s'"
  shows "\<exists>H'. linv acq rel n H' s'"
  using assms(2)
proof (cases rule: lstep.cases)
  case (lock t c tr a)
  from linvD(1) [OF assms(1), of t] lock have "disciplined acq rel (a # H t) tr" by simp
  moreover have "t < n" using linvD(3) [OF assms(1), of t] lock(2) by (cases "n \<le> t") auto
  moreover have "a \<notin> set (H t')" for t' using linvD(2) [OF assms(1), of a t'] lock(4) by simp
  ultimately show ?thesis
    using assms(1) lock(1) by (intro exI [of _ "H(t := a # H t)"]) (auto simp: linv_def)
next
  case (unlock t c tr a)
  from linvD(1) [OF assms(1), of t] unlock obtain H' where
    H: "H t = a # H'" "a \<notin> set H'" "disciplined acq rel H' tr" by (auto split: list.splits)
  moreover have "t < n" using linvD(3) [OF assms(1), of t] unlock(2) by (cases "n \<le> t") auto
  moreover have "a \<notin> set (H t')" if "t' \<noteq> t" for t'
    using linvD(2) [OF assms(1), of a t'] linvD(2) [OF assms(1), of a t] H(1) that by auto
  ultimately show ?thesis
    using assms(1) unlock(1) by (intro exI [of _ "H(t := H')"]) (auto simp: linv_def)
next
  case (call t c tr)
  from linvD(1) [OF assms(1), of t] call have "disciplined acq rel (H t) tr" by simp
  moreover have "t < n" using linvD(3) [OF assms(1), of t] call(2) by (cases "n \<le> t") auto
  ultimately show ?thesis
    using assms(1) call(1) by (intro exI [of _ H]) (auto simp: linv_def)
qed

text \<open>Every step consumes one call.\<close>

definition calls_left :: "nat \<Rightarrow> lstate \<Rightarrow> nat" where
  "calls_left n s = (\<Sum>t<n. length (ls_rest s t))"

lemma calls_left_update:
  assumes "ls_rest s t = c # tr" "t < n" "ls_rest s' = (ls_rest s)(t := tr)"
  shows "calls_left n s = Suc (calls_left n s')"
proof -
  have "calls_left n s = length (ls_rest s t) + (\<Sum>u\<in>{..<n} - {t}. length (ls_rest s u))"
    unfolding calls_left_def using assms(2) by (simp add: sum.remove)
  moreover have "calls_left n s' = length (ls_rest s' t) + (\<Sum>u\<in>{..<n} - {t}. length (ls_rest s' u))"
    unfolding calls_left_def using assms(2) by (simp add: sum.remove)
  moreover have "(\<Sum>u\<in>{..<n} - {t}. length (ls_rest s' u)) = (\<Sum>u\<in>{..<n} - {t}. length (ls_rest s u))"
    using assms(3) by (intro sum.cong) auto
  ultimately show ?thesis using assms(1,3) by simp
qed

lemma lstep_calls_left:
  assumes "linv acq rel n H s" "lstep acq rel s s'"
  shows "calls_left n s = Suc (calls_left n s')"
proof -
  from assms(2) obtain t c tr where "ls_rest s t = c # tr" "ls_rest s' = (ls_rest s)(t := tr)"
    by cases auto
  moreover from this(1) have "t < n" using linvD(3) [OF assms(1), of t] by (cases "n \<le> t") auto
  ultimately show ?thesis by (intro calls_left_update)
qed

lemma lsteps_linv:
  assumes "linv acq rel n H s" "((lstep acq rel) ^^ k) s s'"
  shows "(\<exists>H'. linv acq rel n H' s') \<and> k + calls_left n s' = calls_left n s"
  using assms(2)
proof (induction k arbitrary: s')
  case 0
  with assms(1) show ?case by auto
next
  case (Suc k)
  then obtain s1 where s1: "((lstep acq rel) ^^ k) s s1" "lstep acq rel s1 s'" by auto
  from Suc.IH [OF s1(1)] obtain H1 where "linv acq rel n H1 s1" "k + calls_left n s1 = calls_left n s" by blast
  with lstep_linv [OF _ s1(2)] lstep_calls_left [OF _ s1(2)] show ?case by fastforce
qed

section \<open>Progress\<close>

text \<open>A thread that cannot go on waits for a lock that another thread holds.\<close>

lemma stuck_waits:
  assumes "\<nexists>s'. lstep acq rel s s'" "ls_rest s t \<noteq> []"
  shows "\<exists>c tr a u. ls_rest s t = c # tr \<and> acq c = Some a \<and> ls_owner s a = Some u"
proof -
  from assms(2) obtain c tr where r: "ls_rest s t = c # tr" by (cases "ls_rest s t") auto
  then show ?thesis
    using assms(1) lstep.lock [of s t c tr acq _ rel] lstep.unlock [of s t c tr acq rel] lstep.call [of s t c tr acq rel]
    by (cases "acq c"; cases "rel c"; fastforce)
qed

definition wanted :: "(kcall \<Rightarrow> oid option) \<Rightarrow> lstate \<Rightarrow> nat \<Rightarrow> oid" where
  "wanted acq s t = the (acq (hd (ls_rest s t)))"

lemma finite_max_image:
  assumes "finite B" "B \<noteq> {}"
  shows "\<exists>m\<in>B. \<forall>u\<in>B. (f u :: nat) \<le> f m"
proof -
  from assms obtain m where "m \<in> B" "f m = Max (f ` B)" using Max_in [of "f ` B"] by fastforce
  with assms show ?thesis by (intro bexI [of _ m]) simp_all
qed

text \<open>The thread that waits for the lock of the highest rank cannot be stuck: its owner waits for a higher one.\<close>

lemma linv_progress:
  assumes "linv acq rel n H s" "ls_rest s t \<noteq> []"
  shows "\<exists>s'. lstep acq rel s s'"
proof (rule ccontr)
  assume stuck: "\<nexists>s'. lstep acq rel s s'"
  let ?B = "{t. ls_rest s t \<noteq> []}"
  have "?B \<subseteq> {..<n}" using linvD(3) [OF assms(1)] by (auto simp: not_le [symmetric])
  then have "finite ?B" by (rule finite_subset) simp
  moreover have "?B \<noteq> {}" using assms(2) by blast
  ultimately obtain m where m: "m \<in> ?B" "\<forall>u\<in>?B. wanted acq s u \<le> wanted acq s m"
    using finite_max_image [of ?B "wanted acq s"] by blast
  from stuck_waits [OF stuck, of m] m(1) obtain c tr a u where
    w: "ls_rest s m = c # tr" "acq c = Some a" "ls_owner s a = Some u" by auto
  then have holds: "a \<in> set (H u)" using linvD(2) [OF assms(1)] by blast
  then have "ls_rest s u \<noteq> []" using linvD(1) [OF assms(1), of u] by auto
  with stuck_waits [OF stuck, of u] obtain c' tr' a' where
    w': "ls_rest s u = c' # tr'" "acq c' = Some a'" by auto
  with linvD(1) [OF assms(1), of u] holds have "a < a'" by auto
  moreover have "wanted acq s u \<le> wanted acq s m" using m(2) w'(1) by simp
  ultimately show False using w w' by (simp add: wanted_def)
qed

section \<open>Blocks keep the discipline\<close>

context lockable
begin

lemma run_blocks_prefix:
  assumes "\<And>b tr. b \<in> set bs \<Longrightarrow> run_block C b tr = tr @ run_block C b []"
  shows "run_blocks C bs tr = tr @ run_blocks C bs []"
  using assms
proof (induction bs arbitrary: tr)
  case (Cons b bs)
  have IH: "run_blocks C bs tr = tr @ run_blocks C bs []" for tr
    by (rule Cons.IH) (rule Cons.prems, simp)
  have "run_blocks C (b # bs) tr = run_block C b tr @ run_blocks C bs []"
    unfolding run_blocks.simps by (rule IH)
  also have "run_block C b tr = tr @ run_block C b []" by (rule Cons.prems) simp
  also have "(tr @ run_block C b []) @ run_blocks C bs [] = tr @ run_blocks C (b # bs) []"
    unfolding run_blocks.simps IH [of "run_block C b []"] by simp
  finally show ?case .
qed simp

lemma run_block_prefix: "run_block C b tr = tr @ run_block C b []"
proof (induction b arbitrary: tr)
  case (Locked a bs)
  have *: "run_blocks C bs tr = tr @ run_blocks C bs []" for tr
    by (rule run_blocks_prefix) (rule Locked.IH)
  show ?case unfolding run_block.simps scoped_trace snd_conv fst_conv
    by (subst (1 2) *) simp
qed simp

lemma run_blocks_Cons: "run_blocks C (b # bs) [] = run_block C b [] @ run_blocks C bs []"
  unfolding run_blocks.simps by (rule run_blocks_prefix) (rule run_block_prefix)

lemma run_block_Locked: "run_block C (Locked a bs) [] = lcall a # run_blocks C bs [] @ [ucall a]"
proof -
  have "run_blocks C bs [lcall a] = [lcall a] @ run_blocks C bs []"
    by (rule run_blocks_prefix) (rule run_block_prefix)
  then show ?thesis by (simp add: scoped_trace)
qed

text \<open>What a block calls may be put in front of any disciplined rest.\<close>

definition foreign :: "block \<Rightarrow> bool" where
  "foreign b \<longleftrightarrow> (\<forall>c\<in>block_calls b. acq c = None \<and> rel c = None)"

lemma disciplined_blocks:
  "(\<And>b tr. b \<in> set bs \<Longrightarrow> disciplined acq rel H (run_block C b [] @ tr) = disciplined acq rel H tr) \<Longrightarrow>
     disciplined acq rel H (run_blocks C bs [] @ tr) = disciplined acq rel H tr"
  by (induction bs arbitrary: tr) (simp_all add: run_blocks_Cons del: run_blocks.simps(2))

lemma disciplined_block:
  "lock_ordered H b \<Longrightarrow> foreign b \<Longrightarrow> disciplined acq rel H (run_block C b [] @ tr) = disciplined acq rel H tr"
proof (induction b arbitrary: H tr)
  case (Call c)
  then show ?case by (simp add: foreign_def)
next
  case (Locked a bs)
  then have "disciplined acq rel (a # H) (run_blocks C bs [] @ ucall a # tr) = disciplined acq rel (a # H) (ucall a # tr)"
    by (intro disciplined_blocks) (auto simp: foreign_def)
  with Locked.prems(1) show ?case
    by (auto simp: run_block_Locked acq_lock acq_unlock rel_unlock simp del: run_block.simps)
qed

lemma linv_start:
  assumes "\<forall>bs\<in>set ps. \<forall>b\<in>set bs. lock_ordered [] b \<and> foreign b"
  shows "linv acq rel (length ps) (\<lambda>_. []) (lstart C ps)"
proof -
  have "disciplined acq rel [] (run_blocks C (ps ! t) [])" if "t < length ps" for t
  proof -
    have "disciplined acq rel [] (run_blocks C (ps ! t) [] @ []) = disciplined acq rel [] []"
      using assms that by (intro disciplined_blocks disciplined_block) (auto dest: nth_mem)
    then show ?thesis by simp
  qed
  then show ?thesis by (auto simp: linv_def lstart_def)
qed

text \<open>Well-ordered scopes do not get stuck.\<close>

lemma no_deadlock:
  assumes "\<forall>bs\<in>set ps. \<forall>b\<in>set bs. lock_ordered [] b \<and> foreign b"
    and "((lstep acq rel) ^^ k) (lstart C ps) s"
  shows "(\<forall>t c tr a. ls_rest s t = c # tr \<and> acq c = None \<and> rel c = Some a \<longrightarrow> ls_owner s a = Some t) \<and>
    k + calls_left (length ps) s = calls_left (length ps) (lstart C ps) \<and>
    ((\<exists>s'. lstep acq rel s s') \<or> (\<forall>t. ls_rest s t = []) \<and> (\<forall>a. ls_owner s a = None))"
proof -
  from lsteps_linv [OF linv_start [OF assms(1)] assms(2)] obtain H where inv: "linv acq rel (length ps) H s"
    and k: "k + calls_left (length ps) s = calls_left (length ps) (lstart C ps)" by blast
  have "ls_owner s a = Some t" if "ls_rest s t = c # tr" "acq c = None" "rel c = Some a" for t c tr a
    using linvD(1) [OF inv, of t] linvD(2) [OF inv, of a t] that by (auto split: list.splits)
  moreover have "ls_owner s a = None" if "\<forall>t. ls_rest s t = []" for a
    using linvD(1) [OF inv] linvD(2) [OF inv, of a] that by (cases "ls_owner s a") auto
  ultimately show ?thesis using k linv_progress [OF inv] by blast
qed

end

section \<open>Properties\<close>

text \<open>
  C7.  Scopes nested in the order of the lock addresses never deadlock: for any number of threads
  whose functions take mutexes with \<open>ScopedLock\<close>, in every interleaving, a thread only unlocks mutexes it
  owns, every step brings the threads one call closer to their end, and as long as not every thread
  has finished and every mutex is free, some thread can go on.
\<close>

theorem ScopedLock_no_deadlock:
  assumes "\<forall>bs\<in>set ps. \<forall>b\<in>set bs. lock_ordered [] b \<and>
      (\<forall>c\<in>block_calls b. mutex_acquired c = None \<and> mutex_released c = None)"
    and "((lstep mutex_acquired mutex_released) ^^ k) (lstart Mutex_class ps) s"
  shows "(\<forall>t tr a. ls_rest s t = Sync (Unlock_mutex a) # tr \<longrightarrow> ls_owner s a = Some t) \<and>
    k + calls_left (length ps) s = calls_left (length ps) (lstart Mutex_class ps) \<and>
    ((\<exists>s'. lstep mutex_acquired mutex_released s s') \<or>
     (\<forall>t. ls_rest s t = []) \<and> (\<forall>a. ls_owner s a = None))"
proof -
  from assms(1) have "\<forall>bs\<in>set ps. \<forall>b\<in>set bs. lock_ordered [] b \<and> mutex.foreign b"
    by (simp add: mutex.foreign_def)
  note nd = mutex.no_deadlock [OF this assms(2)]
  have "ls_owner s a = Some t" if "ls_rest s t = Sync (Unlock_mutex a) # tr" for t tr a
    using conjunct1 [OF nd, rule_format, of t "Sync (Unlock_mutex a)" tr a] that by simp
  with nd show ?thesis by blast
qed

theorem ScopedLock_no_deadlock_witness:
  "\<exists>s. ((lstep mutex_acquired mutex_released) ^^ 1)
      (lstart Mutex_class [[Locked 1 [Locked 2 []]], [Locked 1 [], Locked 2 []]]) s \<and>
     (\<exists>s'. lstep mutex_acquired mutex_released s s')"
proof -
  let ?ps = "[[Locked 1 [Locked 2 []]], [Locked 1 [], Locked 2 []]]"
  let ?start = "lstart Mutex_class ?ps"
  let ?tr = "[Sync (Lock_mutex 2), Sync (Unlock_mutex 2), Sync (Unlock_mutex 1)]"
  let ?next = "?start\<lparr>ls_owner := (ls_owner ?start)(1 := Some 0), ls_rest := (ls_rest ?start)(0 := ?tr)\<rparr>"
  have ok: "\<forall>bs\<in>set ?ps. \<forall>b\<in>set bs. lock_ordered [] b \<and>
      (\<forall>c\<in>block_calls b. mutex_acquired c = None \<and> mutex_released c = None)" by simp
  have "ls_rest ?start 0 = Sync (Lock_mutex 1) # ?tr"
    by (simp add: lstart_def mutex.scoped_trace)
  then have "lstep mutex_acquired mutex_released ?start ?next"
    by (rule lstep.lock) (simp_all add: lstart_def)
  then have k: "((lstep mutex_acquired mutex_released) ^^ 1) ?start ?next"
    by (simp only: relpowp_1)
  have "ls_rest ?next 0 \<noteq> []" by simp
  with ScopedLock_no_deadlock [OF ok k] have "\<exists>s'. lstep mutex_acquired mutex_released ?next s'" by metis
  with k show ?thesis by blast
qed

text \<open>The same discipline for spin locks.\<close>

lemma ScopedLock_SpinLock_no_deadlock:
  "\<forall>bs\<in>set ps. \<forall>b\<in>set bs. lock_ordered [] b \<and> spin.foreign b \<Longrightarrow>
   ((lstep spin_acquired spin_released) ^^ k) (lstart SpinLock_class ps) s \<Longrightarrow>
   (\<exists>s'. lstep spin_acquired spin_released s s') \<or> (\<forall>t. ls_rest s t = []) \<and> (\<forall>a. ls_owner s a = None)"
  using spin.no_deadlock by blast

text \<open>
  Without the order two threads can block each other: each holds the mutex the other wants.
\<close>

lemma opposite_scopes_deadlock:
  "\<exists>s. ((lstep mutex_acquired mutex_released) ^^ 2)
      (lstart Mutex_class [[Locked 1 [Locked 2 []]], [Locked 2 [Locked 1 []]]]) s \<and>
     ls_rest s 0 \<noteq> [] \<and> ls_rest s 1 \<noteq> [] \<and> (\<nexists>s'. lstep mutex_acquired mutex_released s s')"
proof -
  let ?s0 = "lstart Mutex_class [[Locked 1 [Locked 2 []]], [Locked 2 [Locked 1 []]]]"
  let ?t0 = "[Sync (Lock_mutex 2), Sync (Unlock_mutex 2), Sync (Unlock_mutex 1)]"
  let ?t1 = "[Sync (Lock_mutex 1), Sync (Unlock_mutex 1), Sync (Unlock_mutex 2)]"
  let ?s1 = "?s0\<lparr>ls_owner := (ls_owner ?s0)(1 := Some 0), ls_rest := (ls_rest ?s0)(0 := ?t0)\<rparr>"
  let ?s2 = "?s1\<lparr>ls_owner := (ls_owner ?s1)(2 := Some 1), ls_rest := (ls_rest ?s1)(1 := ?t1)\<rparr>"
  have "ls_rest ?s0 0 = Sync (Lock_mutex 1) # ?t0" "ls_rest ?s1 1 = Sync (Lock_mutex 2) # ?t1"
    by (simp_all add: lstart_def mutex.scoped_trace)
  from lstep.lock [OF this(1)] lstep.lock [OF this(2)]
  have "lstep mutex_acquired mutex_released ?s0 ?s1" "lstep mutex_acquired mutex_released ?s1 ?s2"
    by (simp_all add: lstart_def)
  then have "((lstep mutex_acquired mutex_released) ^^ 2) ?s0 ?s2"
    by (auto simp: numeral_2_eq_2)
  moreover have "ls_rest ?s2 = (\<lambda>_. [])(0 := ?t0, 1 := ?t1)" "ls_owner ?s2 = Map.empty(1 \<mapsto> 0, 2 \<mapsto> 1)"
    by (auto simp: lstart_def fun_eq_iff)
  then have "\<nexists>s'. lstep mutex_acquired mutex_released ?s2 s'"
    by (auto elim!: lstep.cases split: if_splits)
  ultimately show ?thesis by (intro exI [of _ ?s2]) simp
qed

end
