(* ===== verification/Kpp_Waiting.thy ===== *)
theory Kpp_Waiting
  imports Kpp_Sync
begin

text \<open>
  Threads that wait for each other with \<^verbatim>\<open>sync/Semaphore.hpp\<close> and \<^verbatim>\<open>sync/Completion.hpp\<close>.

  The counter of a semaphore and the counter of a completion belong to the kernel: \<open>sem_exec\<close> and
  \<open>comp_exec\<close> are what the documented kernel functions do to them, and a step of a thread runs the kernel
  calls that the member function makes.  A call that waits is possible only while the counter is not
  zero.  A schedule is a list of events of the threads; an event that is not possible at its point is
  \<open>None\<close>.
\<close>

text \<open>The effect on a counter of the calls by which a member function extends the trace.\<close>

fun exec_calls :: "(kcall \<Rightarrow> 'c \<Rightarrow> 'c option) \<Rightarrow> trace \<Rightarrow> 'c \<Rightarrow> 'c option" where
  "exec_calls f [] c = Some c"
| "exec_calls f (k # ks) c = (case f k c of None \<Rightarrow> None | Some c' \<Rightarrow> exec_calls f ks c')"

section \<open>Semaphore\<close>

text \<open>
  \<open>sem_units t\<close> is how many units thread \<open>t\<close> has taken and not given back.  Any task may call \<open>up\<close>, also
  one that never called \<open>down\<close>: \<open>sem_foreign\<close> counts the \<open>up\<close>s of tasks that had no unit to give back
  (history).  The failing forms of \<open>down\<close>
  come with the result \<open>r\<close> of the kernel: 0 when a unit was taken, an error number otherwise.
\<close>

datatype down_kind = Interruptible | Killable | Timeout int

datatype sem_event = SDown nat | STry nat down_kind int | SUp nat

record sem_state =
  sem_count :: nat
  sem_units :: "nat \<Rightarrow> nat"
  sem_foreign :: nat
  sem_calls :: trace

fun down_try :: "oid \<Rightarrow> down_kind \<Rightarrow> int \<Rightarrow> trace \<Rightarrow> int \<times> trace" where
  "down_try a Interruptible r tr = Semaphore_down_interruptible (\<lambda>_ _. r) a tr"
| "down_try a Killable r tr = Semaphore_down_killable (\<lambda>_ _. r) a tr"
| "down_try a (Timeout j) r tr = Semaphore_down_timeout (\<lambda>_ _ _. r) a j tr"

fun sem_exec :: "oid \<Rightarrow> int \<Rightarrow> kcall \<Rightarrow> nat \<Rightarrow> nat option" where
  "sem_exec a r (Sync (Sema_init b n)) c = Some (if b = a then nat n else c)"
| "sem_exec a r (Sync (Down b)) c = (if b \<noteq> a then Some c else if c = 0 then None else Some (c - 1))"
| "sem_exec a r (Sync (Down_interruptible b)) c =
     (if b \<noteq> a \<or> r \<noteq> 0 then Some c else if c = 0 then None else Some (c - 1))"
| "sem_exec a r (Sync (Down_killable b)) c =
     (if b \<noteq> a \<or> r \<noteq> 0 then Some c else if c = 0 then None else Some (c - 1))"
| "sem_exec a r (Sync (Down_timeout b j)) c =
     (if b \<noteq> a \<or> r \<noteq> 0 then Some c else if c = 0 then None else Some (c - 1))"
| "sem_exec a r (Sync (Up b)) c = Some (if b = a then Suc c else c)"
| "sem_exec a r k c = Some c"

definition sem_effect :: "oid \<Rightarrow> int \<Rightarrow> trace \<Rightarrow> sem_state \<Rightarrow> sem_state option" where
  "sem_effect a r tr s =
     map_option (\<lambda>c. s\<lparr>sem_count := c, sem_calls := tr\<rparr>)
       (exec_calls (sem_exec a r) (new_calls (sem_calls s) tr) (sem_count s))"

text \<open>A thread counts a unit as its own when \<open>down\<close> returns, or one of its other forms returns 0.\<close>

definition set_units :: "nat \<Rightarrow> nat \<Rightarrow> sem_state \<Rightarrow> sem_state" where
  "set_units t k s = s\<lparr>sem_units := (sem_units s)(t := k)\<rparr>"

fun sem_step :: "oid \<Rightarrow> sem_event \<Rightarrow> sem_state \<Rightarrow> sem_state option" where
  "sem_step a (SDown t) s =
     map_option (set_units t (Suc (sem_units s t))) (sem_effect a 0 (Semaphore_down a (sem_calls s)) s)"
| "sem_step a (STry t k r) s =
     (let (ret, tr) = down_try a k r (sem_calls s)
      in map_option (if ret = 0 then set_units t (Suc (sem_units s t)) else id) (sem_effect a r tr s))"
| "sem_step a (SUp t) s =
     map_option (if sem_units s t = 0 then sem_foreign_update Suc else set_units t (sem_units s t - 1))
       (sem_effect a 0 (Semaphore_up a (sem_calls s)) s)"

fun sem_run :: "oid \<Rightarrow> sem_event list \<Rightarrow> sem_state \<Rightarrow> sem_state option" where
  "sem_run a [] s = Some s"
| "sem_run a (e # es) s = (case sem_step a e s of None \<Rightarrow> None | Some s' \<Rightarrow> sem_run a es s')"

definition sem_program :: "oid \<Rightarrow> nat \<Rightarrow> sem_event list \<Rightarrow> sem_state option" where
  "sem_program a n es =
     Option.bind (sem_effect a 0 (Semaphore_ctor a (int n) []) \<lparr>sem_count = 0, sem_units = (\<lambda>_. 0), sem_foreign = 0, sem_calls = []\<rparr>)
       (sem_run a es)"

definition users :: "sem_state \<Rightarrow> nat set" where
  "users s = {t. 0 < sem_units s t}"

definition sem_inv :: "nat \<Rightarrow> sem_state \<Rightarrow> bool" where
  "sem_inv n s \<longleftrightarrow> finite (users s) \<and> sem_count s + (\<Sum>t\<in>users s. sem_units s t) = n + sem_foreign s"

text \<open>What the member functions amount to, over the kernel's counter.\<close>

definition take_unit :: "nat \<Rightarrow> trace \<Rightarrow> sem_state \<Rightarrow> sem_state option" where
  "take_unit t tr s =
     (if sem_count s = 0 then None
      else Some (s\<lparr>sem_count := sem_count s - 1, sem_units := (sem_units s)(t := Suc (sem_units s t)), sem_calls := tr\<rparr>))"

lemma sem_step_down: "sem_step a (SDown t) s = take_unit t (Semaphore_down a (sem_calls s)) s"
  by (simp add: sem_effect_def set_units_def take_unit_def Semaphore_down_def)

lemma sem_step_try:
  "sem_step a (STry t k r) s =
     (let tr = snd (down_try a k r (sem_calls s))
      in if r = 0 then take_unit t tr s else Some (s\<lparr>sem_calls := tr\<rparr>))"
  by (cases k) (simp_all add: sem_effect_def set_units_def take_unit_def Semaphore_down_interruptible_def
      Semaphore_down_killable_def Semaphore_down_timeout_def)

lemma sem_step_up:
  "sem_step a (SUp t) s =
     Some (if sem_units s t = 0
       then s\<lparr>sem_count := Suc (sem_count s), sem_foreign := Suc (sem_foreign s), sem_calls := Semaphore_up a (sem_calls s)\<rparr>
       else s\<lparr>sem_count := Suc (sem_count s), sem_units := (sem_units s)(t := sem_units s t - 1),
              sem_calls := Semaphore_up a (sem_calls s)\<rparr>)"
  by (simp add: sem_effect_def set_units_def Semaphore_up_def)

declare sem_step.simps [simp del] sem_step_down [simp] sem_step_try [simp] sem_step_up [simp]

lemma sem_program_run:
  "sem_program a n es =
     sem_run a es \<lparr>sem_count = n, sem_units = (\<lambda>_. 0), sem_foreign = 0, sem_calls = Semaphore_ctor a (int n) []\<rparr>"
  by (simp add: sem_program_def sem_effect_def Semaphore_ctor_def new_calls_def)

text \<open>The sum over the users is the sum over any finite set of threads that contains them.\<close>

lemma units_sum:
  assumes "finite T" "users s \<subseteq> T"
  shows "(\<Sum>t\<in>users s. sem_units s t) = (\<Sum>t\<in>T. sem_units s t)"
  using assms by (intro sum.mono_neutral_left) (auto simp: users_def)

lemma units_update:
  assumes "finite (users s)"
  shows "(\<Sum>x\<in>users (s\<lparr>sem_count := c, sem_units := (sem_units s)(t := k), sem_calls := tr\<rparr>).
      ((sem_units s)(t := k)) x) + sem_units s t = k + (\<Sum>x\<in>users s. sem_units s x)"
    and "finite (users (s\<lparr>sem_count := c, sem_units := (sem_units s)(t := k), sem_calls := tr\<rparr>))"
proof -
  let ?s = "s\<lparr>sem_count := c, sem_units := (sem_units s)(t := k), sem_calls := tr\<rparr>"
  let ?T = "insert t (users s)"
  have sub: "users ?s \<subseteq> ?T" "users s \<subseteq> ?T" by (auto simp: users_def split: if_splits)
  have fin: "finite ?T" using assms by simp
  from sub(1) fin show "finite (users ?s)" by (rule finite_subset)
  have "(\<Sum>x\<in>users ?s. sem_units ?s x) = (\<Sum>x\<in>?T. sem_units ?s x)" using units_sum [OF fin sub(1)] .
  also have "\<dots> = k + (\<Sum>x\<in>?T - {t}. sem_units s x)"
    using fin by (simp add: sum.remove [of ?T t])
  finally show "(\<Sum>x\<in>users ?s. ((sem_units s)(t := k)) x) + sem_units s t = k + (\<Sum>x\<in>users s. sem_units s x)"
    using units_sum [OF fin sub(2)] fin by (simp add: sum.remove [of ?T t])
qed

lemma sem_inv_take: "sem_inv n s \<Longrightarrow> take_unit t tr s = Some s' \<Longrightarrow> sem_inv n s'"
  using units_update [where s = s and c = "sem_count s - 1" and t = t and k = "Suc (sem_units s t)" and tr = tr]
  by (auto simp: sem_inv_def take_unit_def split: if_splits)

lemma sem_inv_calls [simp]: "sem_inv n (s\<lparr>sem_calls := tr\<rparr>) = sem_inv n s"
  by (simp add: sem_inv_def users_def)

lemma sem_inv_foreign:
  "sem_inv n s \<Longrightarrow> sem_inv n (s\<lparr>sem_count := Suc (sem_count s), sem_foreign := Suc (sem_foreign s), sem_calls := tr\<rparr>)"
  by (simp add: sem_inv_def users_def)

lemma sem_inv_step: "sem_inv n s \<Longrightarrow> sem_step a e s = Some s' \<Longrightarrow> sem_inv n s'"
proof (cases e)
  case (SUp t)
  assume s: "sem_inv n s" "sem_step a e s = Some s'"
  show ?thesis
  proof (cases "sem_units s t = 0")
    case True
    with SUp s sem_inv_foreign [OF s(1)] show ?thesis by auto
  next
    case False
    with SUp s units_update [where s = s and c = "Suc (sem_count s)" and t = t and k = "sem_units s t - 1"
        and tr = "Semaphore_up a (sem_calls s)"]
    show ?thesis by (auto simp: sem_inv_def)
  qed
next
  case (STry t k r)
  assume "sem_inv n s" "sem_step a e s = Some s'"
  with STry show ?thesis by (auto intro: sem_inv_take simp: Let_def split: if_splits)
qed (auto intro: sem_inv_take)

lemma sem_inv_run: "sem_inv n s \<Longrightarrow> sem_run a es s = Some s' \<Longrightarrow> sem_inv n s'"
  by (induction es arbitrary: s) (auto split: option.splits dest: sem_inv_step)

lemma sem_inv_program: "sem_program a n es = Some s \<Longrightarrow> sem_inv n s"
  unfolding sem_program_run by (erule sem_inv_run [rotated]) (simp add: sem_inv_def users_def)

section \<open>Completion\<close>

text \<open>
  A producer stores a value and then calls \<open>complete\<close> (any number of times) or \<open>complete_all\<close>; threads
  call \<open>wait\<close> and then load the value.  \<open>cp_done\<close> is the kernel's \<open>done\<close>, an \<open>unsigned int\<close> whose largest
  value means that all waits pass.  \<open>cp_completes\<close> and \<open>cp_all\<close> record what the producer called.
\<close>

datatype comp_event = KStore nat | KComplete | KCompleteAll | KWait nat | KLoad nat

record comp_state =
  cp_done :: c_int
  cp_data :: "nat option"
  cp_passed :: "nat set"
  cp_loaded :: "nat \<Rightarrow> nat option option"
  cp_completes :: nat
  cp_all :: bool
  cp_calls :: trace

abbreviation UINT_MAX :: c_int where "UINT_MAX \<equiv> - 1"

fun comp_exec :: "oid \<Rightarrow> kcall \<Rightarrow> c_int \<Rightarrow> c_int option" where
  "comp_exec a (Sync (Init_completion b)) c = Some (if b = a then 0 else c)"
| "comp_exec a (Sync (Complete b)) c = Some (if b \<noteq> a \<or> c = UINT_MAX then c else c + 1)"
| "comp_exec a (Sync (Complete_all b)) c = Some (if b = a then UINT_MAX else c)"
| "comp_exec a (Sync (Wait_for_completion b)) c =
     (if b \<noteq> a then Some c else if c = 0 then None else Some (if c = UINT_MAX then c else c - 1))"
| "comp_exec a k c = Some c"

definition comp_effect :: "oid \<Rightarrow> trace \<Rightarrow> comp_state \<Rightarrow> comp_state option" where
  "comp_effect a tr s =
     map_option (\<lambda>c. s\<lparr>cp_done := c, cp_calls := tr\<rparr>)
       (exec_calls (comp_exec a) (new_calls (cp_calls s) tr) (cp_done s))"

fun comp_step :: "oid \<Rightarrow> comp_event \<Rightarrow> comp_state \<Rightarrow> comp_state option" where
  "comp_step a (KStore v) s = (if cp_data s = None then Some (s\<lparr>cp_data := Some v\<rparr>) else None)"
| "comp_step a KComplete s =
     (if cp_data s = None then None
      else comp_effect a (Completion_complete a (cp_calls s)) (s\<lparr>cp_completes := Suc (cp_completes s)\<rparr>))"
| "comp_step a KCompleteAll s =
     (if cp_data s = None then None
      else comp_effect a (Completion_complete_all a (cp_calls s)) (s\<lparr>cp_all := True\<rparr>))"
| "comp_step a (KWait t) s =
     (if t \<in> cp_passed s then None
      else comp_effect a (Completion_wait a (cp_calls s)) (s\<lparr>cp_passed := insert t (cp_passed s)\<rparr>))"
| "comp_step a (KLoad t) s =
     (if t \<notin> cp_passed s then None else Some (s\<lparr>cp_loaded := (cp_loaded s)(t := Some (cp_data s))\<rparr>))"

fun comp_run :: "oid \<Rightarrow> comp_event list \<Rightarrow> comp_state \<Rightarrow> comp_state option" where
  "comp_run a [] s = Some s"
| "comp_run a (e # es) s = (case comp_step a e s of None \<Rightarrow> None | Some s' \<Rightarrow> comp_run a es s')"

text \<open>The memory of the object holds anything before the constructor.\<close>

definition comp_program :: "oid \<Rightarrow> c_int \<Rightarrow> comp_event list \<Rightarrow> comp_state option" where
  "comp_program a garbage es =
     Option.bind (comp_effect a (Completion_ctor a []) \<lparr>cp_done = garbage, cp_data = None, cp_passed = {},
         cp_loaded = (\<lambda>_. None), cp_completes = 0, cp_all = False, cp_calls = []\<rparr>)
       (comp_run a es)"

lemma comp_step_calls:
  "comp_step a KComplete s =
     (if cp_data s = None then None
      else Some (s\<lparr>cp_done := (if cp_done s = UINT_MAX then cp_done s else cp_done s + 1),
                   cp_completes := Suc (cp_completes s), cp_calls := Completion_complete a (cp_calls s)\<rparr>))"
  "comp_step a KCompleteAll s =
     (if cp_data s = None then None
      else Some (s\<lparr>cp_done := UINT_MAX, cp_all := True, cp_calls := Completion_complete_all a (cp_calls s)\<rparr>))"
  "comp_step a (KWait t) s =
     (if cp_done s = 0 \<or> t \<in> cp_passed s then None
      else Some (s\<lparr>cp_done := (if cp_done s = UINT_MAX then cp_done s else cp_done s - 1),
                   cp_passed := insert t (cp_passed s), cp_calls := Completion_wait a (cp_calls s)\<rparr>))"
  by (simp_all add: comp_effect_def Completion_complete_def Completion_complete_all_def Completion_wait_def)

declare comp_step.simps(2-4) [simp del] comp_step_calls [simp]

definition comp_inv :: "comp_state \<Rightarrow> bool" where
  "comp_inv s \<longleftrightarrow> finite (cp_passed s) \<and>
     (cp_done s \<noteq> 0 \<or> cp_passed s \<noteq> {} \<longrightarrow> cp_data s \<noteq> None) \<and>
     (\<forall>t d. cp_loaded s t = Some d \<longrightarrow> d = cp_data s \<and> t \<in> cp_passed s) \<and>
     (if cp_all s then cp_done s = UINT_MAX
      else card (cp_passed s) \<le> cp_completes s \<and> cp_done s = of_nat (cp_completes s - card (cp_passed s)))"

lemma of_nat_c_int_zero: "n < 2 ^ 32 \<Longrightarrow> (of_nat n :: c_int) = 0 \<longleftrightarrow> n = 0"
  by (auto simp: word_of_nat_eq_0_iff dest: nat_dvd_not_less)

lemma of_nat_UINT_MAX: "n < 2 ^ 32 - 1 \<Longrightarrow> (of_nat n :: c_int) \<noteq> UINT_MAX"
proof
  assume "n < 2 ^ 32 - 1" "(of_nat n :: c_int) = UINT_MAX"
  then have "(of_nat (Suc n) :: c_int) = 0" "Suc n < 2 ^ 32" by simp_all
  then show False using of_nat_c_int_zero [of "Suc n"] by simp
qed

lemma comp_inv_step:
  assumes "comp_inv s" "comp_step a e s = Some s'" "Suc (cp_completes s) < 2 ^ 32 - 1"
  shows "comp_inv s' \<and> cp_completes s' \<le> Suc (cp_completes s)"
proof -
  let ?n = "cp_completes s - card (cp_passed s)"
  have n: "\<not> cp_all s \<Longrightarrow> cp_done s = of_nat ?n \<and> card (cp_passed s) \<le> cp_completes s"
    using assms(1) by (simp add: comp_inv_def)
  have max: "(of_nat ?n :: c_int) \<noteq> UINT_MAX" "(of_nat ?n :: c_int) = 0 \<longleftrightarrow> ?n = 0"
    using assms(3) by (intro of_nat_UINT_MAX of_nat_c_int_zero; linarith)+
  show ?thesis
  proof (cases e)
    case (KStore v)
    with assms(1,2) show ?thesis by (auto simp: comp_inv_def split: if_splits)
  next
    case KComplete
    with assms(1,2) n max show ?thesis
      by (auto simp: comp_inv_def Suc_diff_le algebra_simps split: if_splits)
  next
    case KCompleteAll
    with assms(1,2) show ?thesis by (auto simp: comp_inv_def split: if_splits)
  next
    case (KWait t)
    then have wait: "cp_done s \<noteq> 0" "t \<notin> cp_passed s" using assms(2) by (auto split: if_splits)
    show ?thesis
    proof (cases "cp_all s")
      case True
      with KWait wait assms(1,2) show ?thesis by (auto simp: comp_inv_def)
    next
      case False
      with n max wait obtain k where k: "?n = Suc k" by (cases ?n) auto
      then have "cp_completes s - Suc (card (cp_passed s)) = k" by simp
      with False KWait wait n max k assms(1,2) show ?thesis by (auto simp: comp_inv_def)
    qed
  next
    case (KLoad t)
    with assms(1,2) show ?thesis by (auto simp: comp_inv_def split: if_splits)
  qed
qed

lemma comp_inv_run:
  "comp_inv s \<Longrightarrow> comp_run a es s = Some s' \<Longrightarrow> cp_completes s + length es < 2 ^ 32 - 1 \<Longrightarrow> comp_inv s'"
proof (induction es arbitrary: s)
  case (Cons e es)
  then obtain s1 where s1: "comp_step a e s = Some s1" "comp_run a es s1 = Some s'" by (auto split: option.splits)
  with comp_inv_step [OF Cons.prems(1) s1(1)] Cons.prems(3) Cons.IH [OF _ s1(2)] show ?case by auto
qed simp

lemma comp_program_run:
  "comp_program a garbage es =
     comp_run a es \<lparr>cp_done = 0, cp_data = None, cp_passed = {}, cp_loaded = (\<lambda>_. None), cp_completes = 0,
       cp_all = False, cp_calls = Completion_ctor a []\<rparr>"
  by (simp add: comp_program_def comp_effect_def Completion_ctor_def new_calls_def)

lemma comp_inv_program: "comp_program a garbage es = Some s \<Longrightarrow> length es < 2 ^ 32 - 1 \<Longrightarrow> comp_inv s"
  unfolding comp_program_run by (erule comp_inv_run [rotated]) (simp_all add: comp_inv_def)

section \<open>Properties\<close>

text \<open>
  C21.  A semaphore made with \<open>n\<close> units, in every schedule of \<open>down\<close>, its interruptible, killable and
  timed forms, whatever the kernel answers, and of \<open>up\<close>, by any threads (within the range of the
  kernel's counter).  The units in use and the counter add up to \<open>n\<close> plus the number of \<open>up\<close>s by
  threads that had none to give back; so at most that many threads are in, which is \<open>n\<close> as long as
  every \<open>up\<close> follows a \<open>down\<close> of its thread; an attempt that failed has taken nothing; and \<open>down\<close> has
  to wait exactly while all these units are in use.
\<close>

theorem Semaphore_bounds_users:
  assumes "sem_program a n es = Some s"
  shows "finite (users s) \<and> card (users s) \<le> n + sem_foreign s \<and>
    sem_count s + (\<Sum>t\<in>users s. sem_units s t) = n + sem_foreign s \<and>
    (sem_step a (SDown t) s = None \<longleftrightarrow> (\<Sum>t\<in>users s. sem_units s t) = n + sem_foreign s)"
proof -
  from sem_inv_program [OF assms] have inv: "finite (users s)"
    "sem_count s + (\<Sum>t\<in>users s. sem_units s t) = n + sem_foreign s" by (simp_all add: sem_inv_def)
  have "card (users s) \<le> (\<Sum>t\<in>users s. sem_units s t)"
    using sum_mono [of "users s" "\<lambda>_. 1" "sem_units s"] by (auto simp: users_def)
  with inv show ?thesis by (auto simp: take_unit_def)
qed

theorem Semaphore_bounds_users_witness:
  "\<exists>s. sem_program 5 2 [SDown 1, STry 2 Interruptible (- 4), STry 3 (Timeout 100) 0, SUp 7, SDown 2] = Some s \<and>
     card (users s) \<le> 3 \<and> sem_step 5 (SDown 4) s = None"
proof -
  let ?es = "[SDown 1, STry 2 Interruptible (- 4), STry 3 (Timeout 100) 0, SUp 7, SDown 2]"
  obtain s where s: "sem_program 5 2 ?es = Some s" "sem_step 5 (SDown 4) s = None" "sem_foreign s = 1"
    by (auto simp: sem_program_run take_unit_def)
  from Semaphore_bounds_users [OF s(1)] s show ?thesis by auto
qed

text \<open>
  C22.  A completion hands over: a thread whose \<open>wait\<close> has returned finds the value that was stored
  before \<open>complete\<close>; \<open>k\<close> calls of \<open>complete\<close> let at most \<open>k\<close> waits pass, and after \<open>complete_all\<close> no
  wait blocks any more.  This holds for every schedule with fewer events than the kernel's 32-bit
  counter can count.
\<close>

theorem Completion_hands_over:
  assumes "comp_program a garbage es = Some s" "length es < 2 ^ 32 - 1"
  shows "(\<forall>t d. cp_loaded s t = Some d \<longrightarrow> d \<noteq> None \<and> d = cp_data s) \<and>
    (if cp_all s then \<forall>t. t \<in> cp_passed s \<or> comp_step a (KWait t) s \<noteq> None
     else card (cp_passed s) \<le> cp_completes s)"
proof -
  have inv: "comp_inv s"
    by (rule comp_inv_program [OF assms])
  have "d \<noteq> None \<and> d = cp_data s" if "cp_loaded s t = Some d" for t d
    using inv that unfolding comp_inv_def by blast
  then show ?thesis using inv by (auto simp: comp_inv_def)
qed

theorem Completion_hands_over_witness:
  "\<exists>s. comp_program 9 77 [KStore 42, KComplete, KWait 1, KLoad 1] = Some s \<and>
     cp_loaded s 1 = Some (Some 42) \<and> card (cp_passed s) \<le> 1"
proof -
  obtain s where s: "comp_program 9 77 [KStore 42, KComplete, KWait 1, KLoad 1] = Some s"
    "\<not> cp_all s" "cp_completes s = 1" "cp_loaded s 1 \<noteq> None" "cp_data s = Some 42"
    by (simp add: comp_program_run)
  from Completion_hands_over [OF s(1)] s show ?thesis by auto
qed

end
