(* ===== verification/Kpp_Param.thy ===== *)
theory Kpp_Param
  imports Kpp_StringView
begin

text \<open>
  String parameters (\<^verbatim>\<open>core/ModuleParam.hpp\<close>) with the lifetime of the strings.

  In \<^verbatim>\<open>Kpp_StringView\<close> a pointer is the characters behind it, which is right as long as they stay where
  they are.  Here a view holds an address, and the memory tells which buffers exist; \<open>resolve\<close> gives the
  view of \<^verbatim>\<open>Kpp_StringView\<close> that an address stands for, and nothing if the buffer is gone.
\<close>

section \<open>Views with addresses\<close>

type_synonym buffers = "nat \<rightharpoonup> char list"

record view_ref =
  vr_data :: "nat option"
  vr_size :: nat

definition resolve :: "buffers \<Rightarrow> view_ref \<Rightarrow> StringView option" where
  "resolve m v =
     (case vr_data v of
        None \<Rightarrow> Some \<lparr>sv_data = None, sv_size = vr_size v\<rparr>
      | Some a \<Rightarrow> map_option (\<lambda>cs. \<lparr>sv_data = Some cs, sv_size = vr_size v\<rparr>) (m a))"

definition null_view :: view_ref where
  "null_view = \<lparr>vr_data = None, vr_size = 0\<rparr>"

definition StringView_cstr_at :: "buffers \<Rightarrow> nat option \<Rightarrow> view_ref option" where
  "StringView_cstr_at m s =
     (case s of
        None \<Rightarrow> Some null_view
      | Some a \<Rightarrow>
          (case m a of
             None \<Rightarrow> None
           | Some cs \<Rightarrow> map_option (\<lambda>n. \<lparr>vr_data = s, vr_size = n\<rparr>) (strlen cs)))"

definition param_set_string_at :: "buffers \<Rightarrow> nat option \<Rightarrow> view_ref \<Rightarrow> (int \<times> view_ref) option" where
  "param_set_string_at m val sv = map_option (\<lambda>sv'. (0, sv')) (StringView_cstr_at m val)"

definition param_get_string_at :: "buffers \<Rightarrow> char list \<Rightarrow> view_ref \<Rightarrow> (int \<times> char list) option" where
  "param_get_string_at m buffer sv =
     (if vr_size sv = 0
      then (if 0 < length buffer then Some (0, buffer[0 := NUL]) else None)
      else case resolve m sv of
        None \<Rightarrow> None
      | Some v \<Rightarrow> (case strncpy buffer (sv_data v) (sv_size v) of
          None \<Rightarrow> None
        | Some b \<Rightarrow> if sv_size v < length b then Some (int (sv_size v), b[sv_size v := NUL]) else None))"


section \<open>The two levels agree while the buffers exist\<close>

lemma param_set_string_refines:
  assumes "val = map_option (\<lambda>a. the (m a)) p" "\<forall>a. p = Some a \<longrightarrow> a \<in> dom m" "resolve m sv = Some v"
  shows "(case param_set_string_at m p sv of None \<Rightarrow> None | Some (rc, sv') \<Rightarrow> map_option (Pair rc) (resolve m sv')) =
    param_set_string val v"
  using assms
  by (cases p) (auto simp: param_set_string_at_def param_set_string_def StringView_cstr_at_def StringView_cstr_def
      null_view_def resolve_def option.map_comp comp_def split: option.splits)


section \<open>Sequences of writes\<close>

text \<open>
  The kernel writes a parameter from a buffer at \<open>a\<close>, where none is at that time, and afterwards keeps
  the buffer (boot command line) or frees it (sysfs); it may free a kept buffer later (\<open>PFree\<close>).  An
  address that is free can be that of a later buffer.  \<open>pw_views\<close> are the views of the parameters.
\<close>

datatype param_event = PWrite oid nat string bool | PFree nat

record param_world =
  pw_views :: "oid \<Rightarrow> view_ref"
  pw_bufs :: buffers

fun param_step :: "param_event \<Rightarrow> param_world \<Rightarrow> param_world option" where
  "param_step (PWrite x a xs keep) w =
     (if NUL \<in> set xs \<or> a \<in> dom (pw_bufs w) then None
      else let m = (pw_bufs w)(a \<mapsto> xs @ [NUL])
           in map_option (\<lambda>(rc, v). \<lparr>pw_views = (pw_views w)(x := v), pw_bufs = if keep then m else m(a := None)\<rparr>)
                (param_set_string_at m (Some a) (pw_views w x)))"
| "param_step (PFree a) w = Some (w\<lparr>pw_bufs := (pw_bufs w)(a := None)\<rparr>)"

fun param_run :: "param_event list \<Rightarrow> param_world \<Rightarrow> param_world option" where
  "param_run [] w = Some w"
| "param_run (e # es) w = (case param_step e w of None \<Rightarrow> None | Some w' \<Rightarrow> param_run es w')"

text \<open>The last write to a parameter: buffer, string, and whether the buffer is still the same one.\<close>

fun next_write :: "oid \<Rightarrow> param_event \<Rightarrow> (nat \<times> string \<times> bool) option \<Rightarrow> (nat \<times> string \<times> bool) option" where
  "next_write x (PWrite y a xs keep) r = (if y = x then Some (a, xs, keep) else r)"
| "next_write x (PFree b) r = map_option (\<lambda>(a, xs, there). (a, xs, there \<and> a \<noteq> b)) r"

definition last_write :: "oid \<Rightarrow> param_event list \<Rightarrow> (nat \<times> string \<times> bool) option" where
  "last_write x es = fold (next_write x) es None"

text \<open>The view of \<open>x\<close> is the address and the length of that write.\<close>

definition views_write :: "oid \<Rightarrow> (nat \<times> string \<times> bool) option \<Rightarrow> param_world \<Rightarrow> bool" where
  "views_write x r w \<longleftrightarrow>
     (case r of
        None \<Rightarrow> True
      | Some (a, xs, there) \<Rightarrow> pw_views w x = \<lparr>vr_data = Some a, vr_size = length xs\<rparr> \<and> NUL \<notin> set xs \<and>
          (there \<longrightarrow> pw_bufs w a = Some (xs @ [NUL])))"

lemma strlen_cstr: "NUL \<notin> set xs \<Longrightarrow> strlen (xs @ [NUL]) = Some (length xs)"
  using strlen_append [of xs "[]"] by simp

lemma param_step_view:
  assumes "views_write x r w" "param_step e w = Some w'"
  shows "views_write x (next_write x e r) w'"
proof (cases e)
  case (PWrite y a xs keep)
  with assms show ?thesis
    by (auto simp: views_write_def param_set_string_at_def StringView_cstr_at_def strlen_cstr Let_def
        split: if_splits option.splits prod.splits)
next
  case (PFree b)
  with assms show ?thesis by (auto simp: views_write_def split: option.splits)
qed

lemma param_run_view:
  "views_write x r w \<Longrightarrow> param_run es w = Some w' \<Longrightarrow> views_write x (fold (next_write x) es r) w'"
  by (induction es arbitrary: r w) (auto split: option.splits dest: param_step_view)

lemma strncpy_chars_cstr:
  "NUL \<notin> set ys \<Longrightarrow> strncpy_chars (ys @ [NUL]) n = Some (take n ys @ replicate (n - length ys) NUL)"
proof (induction ys arbitrary: n)
  case Nil
  then show ?case by (cases n) simp_all
next
  case (Cons y ys)
  then show ?case by (cases n) auto
qed

lemma param_get_string_at_cstr:
  assumes "NUL \<notin> set ys" "0 < n" "n < length buf" "m a = Some (ys @ [NUL])"
  shows "param_get_string_at m buf \<lparr>vr_data = Some a, vr_size = n\<rparr> =
    Some (int n, take n ys @ replicate (n - length ys) NUL @ NUL # drop (Suc n) buf)"
proof -
  let ?b = "take n ys @ replicate (n - length ys) NUL"
  have "length ?b = n" by simp
  then have "(?b @ drop n buf)[n := NUL] = ?b @ NUL # drop (Suc n) buf"
    using assms(3) by (metis Cons_nth_drop_Suc list_update_length)
  with assms show ?thesis
    by (simp add: param_get_string_at_def resolve_def strncpy_def strncpy_chars_cstr)
qed

section \<open>Properties\<close>

text \<open>
  C32.  What reading a string parameter gives after any sequence of writes to parameters and of frees,
  for a last string of length \<open>n > 0\<close> and a buffer of the reader that is longer.  If the buffer the last write
  came from is still there, it is this string, NUL-terminated, with its length.  If it was freed, the
  read goes through a dangling pointer; and if its address is that of a later buffer, the read gives
  the first \<open>n\<close> characters of the text there, whichever parameter that was written to.
\<close>

theorem StringParam_reads_last_write:
  assumes "param_run es \<lparr>pw_views = (\<lambda>_. null_view), pw_bufs = m\<rparr> = Some w"
    and "last_write x es = Some (a, xs, there)" "xs \<noteq> []" "length xs < length buf"
  shows "(there \<longrightarrow> param_get_string_at (pw_bufs w) buf (pw_views w x) =
      Some (int (length xs), xs @ NUL # drop (Suc (length xs)) buf)) \<and>
    (pw_bufs w a = None \<longrightarrow> param_get_string_at (pw_bufs w) buf (pw_views w x) = None) \<and>
    (\<forall>ys. NUL \<notin> set ys \<longrightarrow> pw_bufs w a = Some (ys @ [NUL]) \<longrightarrow>
       param_get_string_at (pw_bufs w) buf (pw_views w x) =
         Some (int (length xs), take (length xs) ys @ replicate (length xs - length ys) NUL @
           NUL # drop (Suc (length xs)) buf))"
proof -
  from param_run_view [OF _ assms(1), of x None] assms(2)
  have v: "pw_views w x = \<lparr>vr_data = Some a, vr_size = length xs\<rparr>" "NUL \<notin> set xs"
      "there \<longrightarrow> pw_bufs w a = Some (xs @ [NUL])"
    by (auto simp: views_write_def last_write_def)
  have len: "0 < length xs" using assms(3) by simp
  note get = param_get_string_at_cstr [OF _ len assms(4)]
  have "pw_bufs w a = None \<longrightarrow> param_get_string_at (pw_bufs w) buf (pw_views w x) = None"
    using len by (simp add: v(1) param_get_string_at_def resolve_def)
  moreover have "there \<longrightarrow> param_get_string_at (pw_bufs w) buf (pw_views w x) =
      Some (int (length xs), xs @ NUL # drop (Suc (length xs)) buf)"
    using get [OF v(2)] v(3) by (simp add: v(1))
  ultimately show ?thesis using get by (simp add: v(1))
qed

theorem StringParam_reads_last_write_witness:
  "\<exists>w. param_run [PWrite 0 64 ''eth0'' False, PWrite 8 64 ''lo'' True] \<lparr>pw_views = (\<lambda>_. null_view), pw_bufs = Map.empty\<rparr> = Some w \<and>
     param_get_string_at (pw_bufs w) ''......'' (pw_views w 0) = Some (4, ''lo'' @ [NUL, NUL, NUL, CHR ''.''])"
proof -
  let ?es = "[PWrite 0 64 ''eth0'' False, PWrite 8 64 ''lo'' True]"
  obtain w where r: "param_run ?es \<lparr>pw_views = (\<lambda>_. null_view), pw_bufs = Map.empty\<rparr> = Some w"
    and b: "pw_bufs w 64 = Some (''lo'' @ [NUL])"
    by (auto simp: param_set_string_at_def StringView_cstr_at_def Let_def)
  have l: "last_write 0 ?es = Some (64, ''eth0'', False)" by (simp add: last_write_def)
  from StringParam_reads_last_write [OF r l, of "''......''"] r b show ?thesis
    by (auto simp: numeral_eq_Suc)
qed



end
