(* ===== verification/Kpp_Timer.thy ===== *)
theory Kpp_Timer
  imports Kpp_Async
begin

text \<open>
  Timers (\<^verbatim>\<open>async/Timer.hpp\<close>) under the kernel that fires them: objects are made and destroyed, time
  passes, and callbacks run on another CPU while the owner goes on.

  What the documented kernel functions do is \<open>timer_exec\<close>, over the calls the member functions make:
  \<open>timer_setup\<close> initialises a timer, \<open>mod_timer\<close> makes it pending, and \<open>del_timer_sync\<close> waits for a running
  callback and deactivates the timer, also when the callback has started it again.  A timer that was
  not initialised must not be given to the last two, and a pending one not to the first.
\<close>

section \<open>Events\<close>

text \<open>
  \<open>t_fired\<close> is history: the timer, when it was due, and the time of the call.
\<close>

record tstate =
  t_now :: c_ulong
  t_initialised :: "oid set"
  t_pending :: "oid \<rightharpoonup> c_ulong"
  t_running :: "oid set"
  t_alive :: "oid set"
  t_trace :: trace
  t_fired :: "(oid \<times> c_ulong \<times> c_ulong) list"

fun timer_exec :: "kcall \<Rightarrow> tstate \<Rightarrow> tstate outcome" where
  "timer_exec (Async (Timer_setup a)) s =
     (if a \<in> t_initialised s \<and> t_pending s a \<noteq> None then Fault
      else Ok (s\<lparr>t_initialised := insert a (t_initialised s), t_pending := (t_pending s)(a := None)\<rparr>))"
| "timer_exec (Async (Mod_timer a e)) s =
     (if a \<notin> t_initialised s then Fault else Ok (s\<lparr>t_pending := (t_pending s)(a \<mapsto> e)\<rparr>))"
| "timer_exec (Async (Del_timer_sync a)) s =
     (if a \<notin> t_initialised s then Fault
      else if a \<in> t_running s then Ill_formed
      else Ok (s\<lparr>t_pending := (t_pending s)(a := None)\<rparr>))"
| "timer_exec c s = Ok s"

fun timer_execs :: "trace \<Rightarrow> tstate \<Rightarrow> tstate outcome" where
  "timer_execs [] s = Ok s"
| "timer_execs (c # cs) s = (case timer_exec c s of Ok s' \<Rightarrow> timer_execs cs s' | r \<Rightarrow> r)"

definition timer_effect :: "(trace \<Rightarrow> trace) \<Rightarrow> tstate \<Rightarrow> tstate outcome" where
  "timer_effect f s = timer_execs (new_calls (t_trace s) (f (t_trace s))) (s\<lparr>t_trace := f (t_trace s)\<rparr>)"

text \<open>
  The owner of a timer may use it while it lives; the memory of a new object is not initialised.
  \<open>TFire\<close>: the kernel calls the callback of a timer that is due; if the object is gone, this is a
  \<open>Fault\<close>.  \<open>TRearm\<close>: the callback schedules its own timer.  \<open>TDone\<close>: it returns.  An event that is not
  possible at its point is \<open>Ill_formed\<close>.
\<close>

datatype tevent =
    TNew oid | TSet_up oid ptr | TStart oid c_ulong | TStop oid | TDestroy oid
  | TTick | TFire oid | TRearm oid c_ulong | TDone oid

fun tstep :: "nat \<Rightarrow> tevent \<Rightarrow> tstate \<Rightarrow> tstate outcome" where
  "tstep off (TNew a) s =
     (if a \<in> t_alive s then Ill_formed
      else Ok (s\<lparr>t_alive := insert a (t_alive s), t_initialised := t_initialised s - {a}\<rparr>))"
| "tstep off (TSet_up a f) s =
     (if a \<notin> t_alive s then Ill_formed else timer_effect (Timer_setup_func a f) s)"
| "tstep off (TStart a d) s =
     (if a \<notin> t_alive s then Ill_formed else timer_effect (Timer_schedule (t_now s) a d) s)"
| "tstep off (TStop a) s =
     (if a \<notin> t_alive s then Ill_formed else timer_effect (Timer_cancel a) s)"
| "tstep off (TDestroy a) s =
     (if a \<notin> t_alive s then Ill_formed
      else case timer_effect (Timer_dtor a) s of Ok s' \<Rightarrow> Ok (s'\<lparr>t_alive := t_alive s' - {a}\<rparr>) | r \<Rightarrow> r)"
| "tstep off TTick s = Ok (s\<lparr>t_now := t_now s + 1\<rparr>)"
| "tstep off (TFire a) s =
     (case t_pending s a of
        None \<Rightarrow> Ill_formed
      | Some e \<Rightarrow>
          if a \<in> t_running s \<or> \<not> time_after_eq (t_now s) e then Ill_formed
          else if a \<notin> t_alive s then Fault
          else Ok (s\<lparr>t_pending := (t_pending s)(a := None), t_running := insert a (t_running s),
                     t_trace := timer_callback off a (t_trace s), t_fired := t_fired s @ [(a, e, t_now s)]\<rparr>))"
| "tstep off (TRearm a d) s =
     (if a \<notin> t_running s then Ill_formed
      else if a \<notin> t_alive s then Fault
      else timer_effect (Timer_schedule (t_now s) a d) s)"
| "tstep off (TDone a) s =
     (if a \<notin> t_running s then Ill_formed else Ok (s\<lparr>t_running := t_running s - {a}\<rparr>))"

fun trun :: "nat \<Rightarrow> tevent list \<Rightarrow> tstate \<Rightarrow> tstate outcome" where
  "trun off [] s = Ok s"
| "trun off (e # es) s = (case tstep off e s of Ok s' \<Rightarrow> trun off es s' | r \<Rightarrow> r)"

definition tstart :: "c_ulong \<Rightarrow> tstate" where
  "tstart now = \<lparr>t_now = now, t_initialised = {}, t_pending = Map.empty, t_running = {}, t_alive = {},
     t_trace = [], t_fired = []\<rparr>"

text \<open>
  Owners that use \<open>setup\<close> once per object, before anything else.  \<open>S\<close> holds the objects set up so far.
\<close>

fun sets_up :: "oid set \<Rightarrow> tevent list \<Rightarrow> bool" where
  "sets_up S [] \<longleftrightarrow> True"
| "sets_up S (TNew a # es) \<longleftrightarrow> sets_up (S - {a}) es"
| "sets_up S (TSet_up a f # es) \<longleftrightarrow> a \<notin> S \<and> sets_up (insert a S) es"
| "sets_up S (TStart a d # es) \<longleftrightarrow> a \<in> S \<and> sets_up S es"
| "sets_up S (TStop a # es) \<longleftrightarrow> a \<in> S \<and> sets_up S es"
| "sets_up S (TDestroy a # es) \<longleftrightarrow> a \<in> S \<and> sets_up S es"
| "sets_up S (e # es) \<longleftrightarrow> sets_up S es"

text \<open>How often a timer was started, by its owner or its callback, and how often it fired.\<close>

fun starts :: "oid \<Rightarrow> kcall \<Rightarrow> bool" where
  "starts a (Async (Mod_timer b e)) \<longleftrightarrow> b = a"
| "starts a c \<longleftrightarrow> False"

definition start_count :: "oid \<Rightarrow> trace \<Rightarrow> nat" where
  "start_count a tr = length (filter (starts a) tr)"

definition fire_count :: "oid \<Rightarrow> (oid \<times> c_ulong \<times> c_ulong) list \<Rightarrow> nat" where
  "fire_count a fs = count_list (map fst fs) a"

lemma counts [simp]:
  "start_count a [] = 0" "start_count a (tr @ [c]) = start_count a tr + (if starts a c then 1 else 0)"
  "fire_count a [] = 0" "fire_count a (fs @ [f]) = fire_count a fs + (if fst f = a then 1 else 0)"
  by (simp_all add: fire_count_def start_count_def)

section \<open>Invariant\<close>

definition counted :: "(oid \<rightharpoonup> c_ulong) \<Rightarrow> (oid \<times> c_ulong \<times> c_ulong) list \<Rightarrow> trace \<Rightarrow> bool" where
  "counted p fs tr \<longleftrightarrow> (\<forall>a. fire_count a fs + (if p a = None then 0 else 1) \<le> start_count a tr)"

lemma countedD: "counted p fs tr \<Longrightarrow> fire_count a fs + (if p a = None then 0 else 1) \<le> start_count a tr"
  by (simp add: counted_def)

lemma counted_start: "counted p fs tr \<Longrightarrow> counted (p(a \<mapsto> e)) fs (tr @ [Async (Mod_timer a e)])"
  unfolding counted_def [of "p(a \<mapsto> e)"]
proof
  fix b assume "counted p fs tr"
  from countedD [OF this, of b]
  show "fire_count b fs + (if (p(a \<mapsto> e)) b = None then 0 else 1) \<le> start_count b (tr @ [Async (Mod_timer a e)])"
    by (auto split: if_splits)
qed

lemma counted_stop: "counted p fs tr \<Longrightarrow> counted (p(a := None)) fs (tr @ [c])"
  unfolding counted_def [of "p(a := None)"]
proof
  fix b assume "counted p fs tr"
  from countedD [OF this, of b]
  show "fire_count b fs + (if (p(a := None)) b = None then 0 else 1) \<le> start_count b (tr @ [c])"
    by (auto split: if_splits)
qed

lemma counted_fire:
  assumes "counted p fs tr" "p a = Some e"
  shows "counted (p(a := None)) (fs @ [(a, e, t)]) (tr @ [c])"
  unfolding counted_def
proof
  fix b
  from countedD [OF assms(1), of b] assms(2)
  show "fire_count b (fs @ [(a, e, t)]) + (if (p(a := None)) b = None then 0 else 1) \<le> start_count b (tr @ [c])"
    by (auto split: if_splits)
qed

definition tinv :: "oid set \<Rightarrow> tstate \<Rightarrow> bool" where
  "tinv S s \<longleftrightarrow> t_initialised s = S \<and> t_running s \<subseteq> t_alive s \<inter> S \<and> dom (t_pending s) \<subseteq> t_alive s \<inter> S \<and>
     (\<forall>(a, e, now)\<in>set (t_fired s). time_after_eq now e) \<and> counted (t_pending s) (t_fired s) (t_trace s)"

lemma tinv_start: "tinv {} (tstart now)"
  by (simp add: tinv_def tstart_def counted_def)

text \<open>The effect of the member functions.\<close>

lemma timer_effects:
  "timer_effect (Timer_setup_func a f) s =
     (if a \<in> t_initialised s \<and> t_pending s a \<noteq> None then Fault
      else Ok (s\<lparr>t_initialised := insert a (t_initialised s), t_pending := (t_pending s)(a := None),
                 t_trace := t_trace s @ [Async (Timer_setup a)]\<rparr>))"
  "timer_effect (Timer_schedule j a d) s =
     (if a \<notin> t_initialised s then Fault
      else Ok (s\<lparr>t_pending := (t_pending s)(a \<mapsto> j + d), t_trace := t_trace s @ [Async (Mod_timer a (j + d))]\<rparr>))"
  "timer_effect (Timer_cancel a) s =
     (if a \<notin> t_initialised s then Fault else if a \<in> t_running s then Ill_formed
      else Ok (s\<lparr>t_pending := (t_pending s)(a := None), t_trace := t_trace s @ [Async (Del_timer_sync a)]\<rparr>))"
  "timer_effect (Timer_dtor a) s =
     (if a \<notin> t_initialised s then Fault else if a \<in> t_running s then Ill_formed
      else Ok (s\<lparr>t_pending := (t_pending s)(a := None), t_trace := t_trace s @ [Async (Del_timer_sync a)]\<rparr>))"
  by (simp_all add: timer_effect_def Timer_setup_func_def Timer_schedule_def Timer_cancel_def Timer_dtor_def)

text \<open>The invariant is kept when a timer is set up, started, stopped or fired.\<close>

lemma tinv_set_up:
  assumes "tinv S s" "a \<notin> S"
  shows "tinv (insert a S) (s\<lparr>t_initialised := insert a (t_initialised s), t_pending := (t_pending s)(a := None),
    t_trace := t_trace s @ [Async (Timer_setup a)]\<rparr>)"
  using assms by (auto simp: tinv_def intro: counted_stop)

lemma tinv_started:
  assumes "tinv S s" "a \<in> t_alive s" "a \<in> S"
  shows "tinv S (s\<lparr>t_pending := (t_pending s)(a \<mapsto> e), t_trace := t_trace s @ [Async (Mod_timer a e)]\<rparr>)"
  using assms by (auto simp: tinv_def intro: counted_start)

lemma tinv_stopped:
  assumes "tinv S s" "a \<notin> t_running s"
  shows "tinv S (s\<lparr>t_pending := (t_pending s)(a := None), t_trace := t_trace s @ [Async (Del_timer_sync a)]\<rparr>)"
    and "tinv S (s\<lparr>t_pending := (t_pending s)(a := None), t_trace := t_trace s @ [Async (Del_timer_sync a)],
           t_alive := t_alive s - {a}\<rparr>)"
  using assms by (auto simp: tinv_def intro: counted_stop)

lemma tinv_fired:
  assumes "tinv S s" "t_pending s a = Some e" "time_after_eq (t_now s) e"
  shows "tinv S (s\<lparr>t_pending := (t_pending s)(a := None), t_running := insert a (t_running s),
      t_trace := timer_callback off a (t_trace s), t_fired := t_fired s @ [(a, e, t_now s)]\<rparr>)"
  using assms by (auto simp: tinv_def timer_callback_def Let_def intro: counted_fire)

lemma tinv_step:
  assumes "tinv S s" "sets_up S (ev # evs)"
  shows "tstep off ev s \<noteq> Fault \<and> (\<forall>s'. tstep off ev s = Ok s' \<longrightarrow> (\<exists>S'. tinv S' s' \<and> sets_up S' evs))"
proof (cases ev)
  case (TNew a)
  with assms show ?thesis by (auto simp: tinv_def intro!: exI [of _ "S - {a}"])
next
  case (TSet_up a f)
  with assms have "t_pending s a = None" "a \<notin> S" by (auto simp: tinv_def)
  with TSet_up assms tinv_set_up [of S s a] show ?thesis by (auto simp: timer_effects)
next
  case (TStart a d)
  with assms tinv_started [of S s a] show ?thesis by (auto simp: timer_effects tinv_def [of S s])
next
  case (TStop a)
  with assms tinv_stopped(1) [of S s a] show ?thesis by (auto simp: timer_effects tinv_def [of S s])
next
  case (TDestroy a)
  with assms tinv_stopped(2) [of S s a] show ?thesis by (auto simp: timer_effects tinv_def [of S s])
next
  case TTick
  with assms show ?thesis by (auto simp: tinv_def)
next
  case (TFire a)
  with assms tinv_fired [of S s a _ off] show ?thesis
    by (auto simp: tinv_def [of S s] split: option.splits)
next
  case (TRearm a d)
  with assms tinv_started [of S s a] show ?thesis by (auto simp: timer_effects tinv_def [of S s])
next
  case (TDone a)
  with assms show ?thesis by (auto simp: tinv_def)
qed

lemma tinv_run:
  "tinv S s \<Longrightarrow> sets_up S es \<Longrightarrow> trun off es s \<noteq> Fault \<and> (\<forall>s'. trun off es s = Ok s' \<longrightarrow> (\<exists>S'. tinv S' s'))"
proof (induction es arbitrary: S s)
  case (Cons e es)
  from tinv_step [OF Cons.prems, of off] Cons.IH show ?case
    by (cases "tstep off e s") auto
qed auto

section \<open>Properties\<close>

text \<open>
  C24.  No callback after the destructor: if every timer is set up once before it is used, then in every
  interleaving of owners, kernel and callbacks, callbacks that start their timer again included, the
  kernel never calls or runs the callback of an object that is gone, and the member functions never
  use the kernel's functions wrongly.  No callback comes before its time, a timer fires at most as
  often as it was started, and none of a destroyed object is running or can fire.
\<close>

theorem Timer_no_late_callback:
  assumes "sets_up {} es"
  shows "trun off es (tstart now) \<noteq> Fault \<and>
    (\<forall>s. trun off es (tstart now) = Ok s \<longrightarrow>
       (\<forall>(a, e, t)\<in>set (t_fired s). time_after_eq t e) \<and> (\<forall>a. fire_count a (t_fired s) \<le> start_count a (t_trace s)) \<and>
       (\<forall>a. a \<notin> t_alive s \<longrightarrow> a \<notin> t_running s \<and> tstep off (TFire a) s = Ill_formed))"
proof -
  note run = tinv_run [OF tinv_start assms, of off now]
  have "(\<forall>(a, e, t)\<in>set (t_fired s). time_after_eq t e) \<and> (\<forall>a. fire_count a (t_fired s) \<le> start_count a (t_trace s)) \<and>
      (\<forall>a. a \<notin> t_alive s \<longrightarrow> a \<notin> t_running s \<and> tstep off (TFire a) s = Ill_formed)" if inv: "tinv S s" for S s
    using inv by (auto simp: tinv_def split: option.splits dest: countedD [THEN add_leD1])
  with run show ?thesis by blast
qed

theorem Timer_no_late_callback_witness:
  "\<exists>s. trun 0 [TNew 5, TSet_up 5 NULL, TStart 5 2, TTick, TTick, TFire 5, TRearm 5 1, TDone 5, TDestroy 5, TTick]
       (tstart (- 1)) = Ok s \<and> t_fired s = [(5, 1, 1)] \<and> tstep 0 (TFire 5) s = Ill_formed"
proof -
  let ?es = "[TNew 5, TSet_up 5 NULL, TStart 5 2, TTick, TTick, TFire 5, TRearm 5 1, TDone 5, TDestroy 5, TTick]"
  obtain s where s: "trun 0 ?es (tstart (- 1)) = Ok s" "t_fired s = [(5, 1, 1)]" "5 \<notin> t_alive s"
    by (simp add: tstart_def timer_effects time_after_eq_def)
  have "sets_up {} ?es" by simp
  from Timer_no_late_callback [OF this, of 0 "- 1"] s show ?thesis by blast
qed

text \<open>
  A \<open>Timer\<close> on which \<open>setup\<close> was not called cannot even be destroyed: \<open>~Timer\<close> gives a structure that
  nobody initialised to \<open>del_timer_sync\<close>.
\<close>

lemma Timer_unset_destructor_faults: "trun off [TNew a, TDestroy a] (tstart now) = Fault"
  by (simp add: tstart_def timer_effects)

end
