(* ===== verification/Kpp_ListPrograms.thy ===== *)
theory Kpp_ListPrograms
  imports Kpp_List
begin

text \<open>
  Programs over several lists (\<^verbatim>\<open>util/List.hpp\<close>) whose nodes share one memory of links: the lists
  implement lists of nodes that do not influence each other.
\<close>

section \<open>Programs and their specification\<close>

text \<open>
  \<open>del\<close> gets only the node: it takes it out of the list it is in, whichever that is.
\<close>

datatype list_cmd = LNew oid | LAdd oid oid | LAdd_tail oid oid | LDel oid

fun list_step :: "list_kernel \<Rightarrow> list_cmd \<Rightarrow> links \<Rightarrow> links" where
  "list_step K (LNew h) l = List_ctor K h l"
| "list_step K (LAdd h n) l = List_add K h n l"
| "list_step K (LAdd_tail h n) l = List_add_tail K h n l"
| "list_step K (LDel n) l = List_del K n l"

text \<open>
  The specification: every list, by the address of its head, is a list of nodes.  An address is used
  for one thing only, and a node is in at most one list; other programs have no meaning.
\<close>

type_synonym node_lists = "(oid \<times> oid list) list"

definition addresses :: "node_lists \<Rightarrow> oid set" where
  "addresses A = (\<Union>(h, xs)\<in>set A. set (h # xs))"

definition on_list :: "oid \<Rightarrow> (oid list \<Rightarrow> oid list) \<Rightarrow> node_lists \<Rightarrow> node_lists" where
  "on_list h f A = map (\<lambda>(g, xs). (g, if g = h then f xs else xs)) A"

fun list_spec :: "list_cmd \<Rightarrow> node_lists \<Rightarrow> node_lists option" where
  "list_spec (LNew h) A = (if h \<in> addresses A then None else Some ((h, []) # A))"
| "list_spec (LAdd h n) A =
     (if h \<in> fst ` set A \<and> n \<notin> addresses A then Some (on_list h (\<lambda>xs. n # xs) A) else None)"
| "list_spec (LAdd_tail h n) A =
     (if h \<in> fst ` set A \<and> n \<notin> addresses A then Some (on_list h (\<lambda>xs. xs @ [n]) A) else None)"
| "list_spec (LDel n) A =
     (if n \<in> \<Union>(set ` snd ` set A) then Some (map (\<lambda>(h, xs). (h, remove1 n xs)) A) else None)"

fun list_specs :: "list_cmd list \<Rightarrow> node_lists \<Rightarrow> node_lists option" where
  "list_specs [] A = Some A"
| "list_specs (c # cs) A = (case list_spec c A of None \<Rightarrow> None | Some A' \<Rightarrow> list_specs cs A')"

section \<open>The abstraction\<close>

text \<open>The lists are rings, and two of them have no address in common.\<close>

definition represents :: "links \<Rightarrow> node_lists \<Rightarrow> bool" where
  "represents l A \<longleftrightarrow> (\<forall>h xs. (h, xs) \<in> set A \<longrightarrow> ring l h xs) \<and>
     (\<forall>h xs g ys. (h, xs) \<in> set A \<longrightarrow> (g, ys) \<in> set A \<longrightarrow>
        h = g \<and> xs = ys \<or> set (g # ys) \<inter> set (h # xs) = {})"

lemma representsD:
  assumes "represents l A" "(h, xs) \<in> set A"
  shows "ring l h xs"
    and "(g, ys) \<in> set A \<Longrightarrow> h = g \<and> xs = ys \<or> set (g # ys) \<inter> set (h # xs) = {}"
  using assms unfolding represents_def by blast+

lemma represents_same: "represents l A \<Longrightarrow> (h, xs) \<in> set A \<Longrightarrow> (h, ys) \<in> set A \<Longrightarrow> ys = xs"
  using representsD(2) [of l A h xs h ys] by auto

lemma addressesI: "(h, xs) \<in> set A \<Longrightarrow> x \<in> set (h # xs) \<Longrightarrow> x \<in> addresses A"
  by (force simp: addresses_def)

text \<open>One list changes, and gets only nodes it had or nodes that are new.\<close>

lemma represents_update:
  assumes rep: "represents l A" and h: "(h, xs) \<in> set A" and r: "ring l' h (f xs)"
    and new: "set (f xs) \<subseteq> set xs \<union> (- addresses A)"
    and frame: "\<And>g ys. (g, ys) \<in> set A \<Longrightarrow> set (g # ys) \<inter> set (h # xs) = {} \<Longrightarrow> ring l' g ys"
  shows "represents l' (on_list h f A)"
proof -
  have elem: "g = h \<and> zs = f xs \<or> (g, zs) \<in> set A \<and> set (g # zs) \<inter> set (h # xs) = {}"
    if "(g, zs) \<in> set (on_list h f A)" for g zs
  proof -
    from that obtain ys where ys: "(g, ys) \<in> set A" "zs = (if g = h then f ys else ys)"
      by (auto simp: on_list_def)
    show ?thesis
      using representsD(2) [OF rep h ys(1)] represents_same [OF rep h, of ys] ys by (cases "g = h") auto
  qed
  have off: "set (g # ys) \<inter> set (h # f xs) = {}"
    if "(g, ys) \<in> set A" "set (g # ys) \<inter> set (h # xs) = {}" for g ys
  proof -
    have "set (g # ys) \<subseteq> addresses A" using addressesI [OF that(1)] by blast
    with that(2) new show ?thesis by auto
  qed
  have "ring l' g zs" if "(g, zs) \<in> set (on_list h f A)" for g zs
    using elem [OF that] r frame by auto
  moreover have "g = g' \<and> zs = zs' \<or> set (g' # zs') \<inter> set (g # zs) = {}"
    if "(g, zs) \<in> set (on_list h f A)" "(g', zs') \<in> set (on_list h f A)" for g zs g' zs'
    using elem [OF that(1)] elem [OF that(2)]
  proof (elim disjE conjE)
    assume "(g, zs) \<in> set A" "(g', zs') \<in> set A"
    then show ?thesis by (rule representsD(2) [OF rep])
  next
    assume "(g, zs) \<in> set A" "set (g # zs) \<inter> set (h # xs) = {}" "g' = h" "zs' = f xs"
    with off [of g zs] show ?thesis by blast
  next
    assume "(g', zs') \<in> set A" "set (g' # zs') \<inter> set (h # xs) = {}" "g = h" "zs = f xs"
    with off [of g' zs'] show ?thesis by blast
  qed simp
  ultimately show ?thesis unfolding represents_def by blast
qed

lemma remove1_on_list:
  assumes "represents l A" "(h, xs) \<in> set A" "n \<in> set xs"
  shows "map (\<lambda>(g, ys). (g, remove1 n ys)) A = on_list h (remove1 n) A"
  unfolding on_list_def
proof (rule map_cong [OF refl], clarsimp)
  fix g ys assume "(g, ys) \<in> set A" "g \<noteq> h"
  with representsD(2) [OF assms(1,2) this(1)] assms(3) show "remove1 n ys = ys"
    by (auto intro!: remove1_idem)
qed

context kernel_list
begin

lemma list_step_refines:
  assumes rep: "represents l A" and spec: "list_spec c A = Some A'"
  shows "represents (list_step K c l) A'"
proof (cases c)
  case (LNew h)
  with spec have fresh: "h \<notin> addresses A" and A': "A' = (h, []) # A" by (auto split: if_splits)
  have "ring (List_ctor K h l) g ys" if "(g, ys) \<in> set A" for g ys
    using fresh addressesI [OF that] init_frame [OF representsD(1) [OF rep that], of h]
    by (auto simp: List_ctor_def)
  moreover have "h \<notin> set (g # ys)" if "(g, ys) \<in> set A" for g ys
    using fresh addressesI [OF that] by blast
  ultimately show ?thesis
    using representsD(2) [OF rep] List_ctor_ring [of h l] LNew A' unfolding represents_def by auto
next
  case (LAdd h n)
  with spec obtain xs where xs: "(h, xs) \<in> set A" and n: "n \<notin> addresses A"
    and A': "A' = on_list h (\<lambda>xs. n # xs) A" by (auto split: if_splits)
  note r = representsD(1) [OF rep xs]
  have "n \<notin> set (h # xs)" using n addressesI [OF xs] by blast
  have "represents (k_list_add K n h l) (on_list h (\<lambda>xs. n # xs) A)"
  proof (rule represents_update [OF rep xs, where f = "\<lambda>xs. n # xs", OF add_ring [OF r \<open>n \<notin> set (h # xs)\<close>]])
    fix g ys assume g: "(g, ys) \<in> set A" "set (g # ys) \<inter> set (h # xs) = {}"
    with n addressesI [OF g(1)] have "set (g # ys) \<inter> set (n # h # xs) = {}" by auto
    with representsD(1) [OF rep g(1)] show "ring (k_list_add K n h l) g ys"
      by (rule add_frame [OF r \<open>n \<notin> set (h # xs)\<close>])
  qed (use n in auto)
  with LAdd A' show ?thesis by (simp add: List_add_def)
next
  case (LAdd_tail h n)
  with spec obtain xs where xs: "(h, xs) \<in> set A" and n: "n \<notin> addresses A"
    and A': "A' = on_list h (\<lambda>xs. xs @ [n]) A" by (auto split: if_splits)
  note r = representsD(1) [OF rep xs]
  have "n \<notin> set (h # xs)" using n addressesI [OF xs] by blast
  have "represents (List_add_tail K h n l) (on_list h (\<lambda>xs. xs @ [n]) A)"
  proof (rule represents_update [OF rep xs, where f = "\<lambda>xs. xs @ [n]", OF List_add_tail_ring [OF r \<open>n \<notin> set (h # xs)\<close>]])
    fix g ys assume g: "(g, ys) \<in> set A" "set (g # ys) \<inter> set (h # xs) = {}"
    with n addressesI [OF g(1)] have "set (g # ys) \<inter> set (n # h # xs) = {}" by auto
    with representsD(1) [OF rep g(1)] show "ring (List_add_tail K h n l) g ys"
      by (rule List_add_tail_frame [OF r \<open>n \<notin> set (h # xs)\<close>])
  qed (use n in auto)
  with LAdd_tail A' show ?thesis by simp
next
  case (LDel n)
  with spec obtain h xs where xs: "(h, xs) \<in> set A" and n: "n \<in> set xs"
    by (auto split: if_splits)
  have A': "A' = on_list h (remove1 n) A"
    using LDel spec remove1_on_list [OF rep xs n] by (auto split: if_splits)
  from n obtain us vs where split: "xs = us @ n # vs" "n \<notin> set us" by (meson split_list_first)
  with representsD(1) [OF rep xs] have r: "ring l h (us @ n # vs)" by simp
  have "represents (k_list_del K n l) (on_list h (remove1 n) A)"
  proof (rule represents_update [OF rep xs])
    show "ring (k_list_del K n l) h (remove1 n xs)" using del_ring [OF r] split by (simp add: remove1_append)
    show "set (remove1 n xs) \<subseteq> set xs \<union> - addresses A" using set_remove1_subset by fastforce
    show "ring (k_list_del K n l) g ys" if "(g, ys) \<in> set A" "set (g # ys) \<inter> set (h # xs) = {}" for g ys
      using del_frame [OF r representsD(1) [OF rep that(1)]] that(2) split(1) by simp
  qed
  with LDel A' show ?thesis by (simp add: List_del_def)
qed

lemma list_steps_refine:
  "represents l A \<Longrightarrow> list_specs cs A = Some A' \<Longrightarrow> represents (fold (list_step K) cs l) A'"
  by (induction cs arbitrary: l A) (auto split: option.splits intro: list_step_refines)

end

section \<open>Properties\<close>

text \<open>
  C27.  Lists implement lists: for every program that makes lists and adds and deletes nodes, on whatever
  memory it starts, iterating over any of the lists terminates and visits exactly the nodes that the
  specification has there, in this order (the newest first for \<open>add\<close>, last for \<open>add_tail\<close>), and \<open>empty\<close>
  tells whether there are any; no list is affected by what is done to another.
\<close>

theorem List_programs_refine:
  assumes "kernel_list K" "list_specs cs [] = Some A" "(h, xs) \<in> set A"
  shows "let l' = fold (list_step K) cs l
    in for_each l' (List_begin h l') (List_end h) body = Some (first_result body xs) \<and>
       (List_empty K h l' \<longleftrightarrow> xs = [])"
proof -
  have "represents (fold (list_step K) cs l) A"
    by (rule kernel_list.list_steps_refine [OF assms(1) _ assms(2)]) (simp add: represents_def)
  from representsD(1) [OF this assms(3)] show ?thesis
    using for_each_ring kernel_list.List_empty_iff [OF assms(1)] by (simp add: Let_def)
qed

theorem List_programs_refine_witness:
  "let l' = fold (list_step pointer_lists) [LNew 100, LNew 200, LAdd_tail 100 7, LAdd 100 9, LDel 7, LAdd_tail 200 7]
     \<lparr>l_next = (\<lambda>_. 0), l_prev = (\<lambda>_. 0)\<rparr>
   in for_each l' (List_begin 200 l') (List_end 200) (\<lambda>x. if x < 8 then Some x else None) = Some (Some 7) \<and>
     \<not> List_empty pointer_lists 200 l'"
proof -
  let ?cs = "[LNew 100, LNew 200, LAdd_tail 100 7, LAdd 100 9, LDel 7, LAdd_tail 200 7]"
  have "list_specs ?cs [] = Some [(200, [7]), (100, [9])]"
    by (simp add: addresses_def on_list_def)
  from List_programs_refine [OF plist.kernel_list_axioms this, of 200 "[7]" "\<lparr>l_next = (\<lambda>_. 0), l_prev = (\<lambda>_. 0)\<rparr>"
      "\<lambda>x. if x < 8 then Some x else None"]
  show ?thesis by (simp add: Let_def)
qed

end
