(* ===== verification/Kpp_Syscalls.thy ===== *)
theory Kpp_Syscalls
  imports Kpp_Vfs
begin

text \<open>
  What processes see of a device: the system calls of the kernel on top of the table that
  \<open>FileOperations\<close> (\<^verbatim>\<open>vfs/FileOperations.hpp\<close>) gives to it.

  The documented behaviour of the kernel: an entry that is null means that \<open>open\<close> and \<open>close\<close> succeed, that
  \<open>read\<close> and \<open>write\<close> fail with \<open>-EINVAL\<close> and \<open>ioctl\<close> with \<open>-ENOTTY\<close>, and that the file is always ready.  The
  position of a file changes when a transfer succeeded.  Calls whose arguments the kernel refuses by
  itself are left out.
\<close>

section \<open>System calls\<close>

text \<open>The open descriptors with their positions, and the world the callbacks work on.\<close>

record 'w sys =
  sy_files :: "nat \<rightharpoonup> c_ulong"
  sy_world :: 'w

datatype syscall =
    Sys_open nat nat
  | Sys_read nat nat c_ulong
  | Sys_write nat nat c_ulong
  | Sys_ioctl nat nat nat
  | Sys_poll nat nat
  | Sys_close nat nat

text \<open>A transfer: \<open>call\<close> is the callback with the position, \<open>None\<close> if there is none.\<close>

definition transfer :: "nat \<Rightarrow> (c_ulong \<Rightarrow> 'w \<Rightarrow> int \<times> c_ulong \<times> 'w) option \<Rightarrow> 'w sys \<Rightarrow> int \<times> 'w sys" where
  "transfer fd call s =
     (case sy_files s fd of
        None \<Rightarrow> (- EBADF, s)
      | Some pos \<Rightarrow>
          (case call of
             None \<Rightarrow> (- EINVAL, s)
           | Some f \<Rightarrow>
               let (ret, pos', w) = f pos (sy_world s)
               in (ret, s\<lparr>sy_files := (if 0 \<le> ret then (sy_files s)(fd \<mapsto> pos') else sy_files s), sy_world := w\<rparr>)))"

text \<open>
  The system calls over callbacks \<open>vt\<close>.  \<open>open\<close> gives the descriptor \<open>fd\<close>, if it is free.
\<close>

fun sys_call :: "nat \<Rightarrow> 'w vtable \<Rightarrow> syscall \<Rightarrow> 'w sys \<Rightarrow> int \<times> 'w sys" where
  "sys_call dpm vt (Sys_open i fd) s =
     (if sy_files s fd \<noteq> None then (- EMFILE, s)
      else case vt_open vt of
        None \<Rightarrow> (0, s\<lparr>sy_files := (sy_files s)(fd \<mapsto> 0)\<rparr>)
      | Some f \<Rightarrow>
          let (ret, w) = f i fd (sy_world s)
          in (ret, s\<lparr>sy_files := (if ret = 0 then (sy_files s)(fd \<mapsto> 0) else sy_files s), sy_world := w\<rparr>))"
| "sys_call dpm vt (Sys_read fd buf n) s =
     transfer fd (map_option (\<lambda>f. f fd buf n) (vt_read vt)) s"
| "sys_call dpm vt (Sys_write fd buf n) s =
     transfer fd (map_option (\<lambda>f. f fd buf n) (vt_write vt)) s"
| "sys_call dpm vt (Sys_ioctl fd cmd arg) s =
     (if sy_files s fd = None then (- EBADF, s)
      else case vt_ioctl vt of
        None \<Rightarrow> (- ENOTTY, s)
      | Some f \<Rightarrow> let (ret, w) = f fd cmd arg (sy_world s) in (ret, s\<lparr>sy_world := w\<rparr>))"
| "sys_call dpm vt (Sys_poll fd pt) s =
     (if sy_files s fd = None then (- EBADF, s)
      else case vt_poll vt of
        None \<Rightarrow> (int dpm, s)
      | Some f \<Rightarrow> let (ret, w) = f fd pt (sy_world s) in (int ret, s\<lparr>sy_world := w\<rparr>))"
| "sys_call dpm vt (Sys_close i fd) s =
     (if sy_files s fd = None then (- EBADF, s)
      else let s' = s\<lparr>sy_files := (sy_files s)(fd := None)\<rparr>
           in case vt_release vt of
                None \<Rightarrow> (0, s')
              | Some f \<Rightarrow> (0, s'\<lparr>sy_world := snd (f i fd (sy_world s))\<rparr>))"

fun sys_calls :: "nat \<Rightarrow> 'w vtable \<Rightarrow> syscall list \<Rightarrow> 'w sys \<Rightarrow> int list \<times> 'w sys" where
  "sys_calls dpm vt [] s = ([], s)"
| "sys_calls dpm vt (c # cs) s =
     (let (ret, s1) = sys_call dpm vt c s; (rets, s2) = sys_calls dpm vt cs s1 in (ret # rets, s2))"

text \<open>
  What the kernel finds in the table of an object \<open>fo\<close> of the class with the overrides \<open>vt\<close>: null, or the
  trampoline.
\<close>

definition kernel_view :: "nat \<Rightarrow> 'w vtable \<Rightarrow> FileOperations \<Rightarrow> 'w vtable" where
  "kernel_view dpm vt fo =
     (let t = FileOperations_native_handle fo
      in \<lparr>vt_open = (if fop_open t then Some (open_trampoline vt (Some fo)) else None),
          vt_release = (if fop_release t then Some (release_trampoline vt (Some fo)) else None),
          vt_read = (if fop_read t then Some (read_trampoline vt (Some fo)) else None),
          vt_write = (if fop_write t then Some (write_trampoline vt (Some fo)) else None),
          vt_ioctl = (if fop_unlocked_ioctl t then Some (ioctl_trampoline vt (Some fo)) else None),
          vt_poll = (if fop_poll t then Some (poll_trampoline dpm vt (Some fo)) else None)\<rparr>)"

section \<open>Lemmas\<close>

text \<open>
  The trampolines are transparent: where the table has an entry for every override and only for
  these, and the object has an owner, the kernel calls the overrides.
\<close>

definition table_of :: "'w vtable \<Rightarrow> fops_table" where
  "table_of vt = \<lparr>fop_owner = True, fop_open = vt_open vt \<noteq> None, fop_release = vt_release vt \<noteq> None,
     fop_read = vt_read vt \<noteq> None, fop_write = vt_write vt \<noteq> None,
     fop_unlocked_ioctl = vt_ioctl vt \<noteq> None, fop_poll = vt_poll vt \<noteq> None\<rparr>"

lemma kernel_view_transparent:
  assumes "fo_fops fo = table_of vt" "fo_owner fo \<noteq> NULL"
  shows "kernel_view dpm vt fo = vt"
  using assms
  by (cases vt)
    (auto simp: kernel_view_def FileOperations_native_handle_def table_of_def Let_def fun_eq_iff open_trampoline_def
      release_trampoline_def read_trampoline_def write_trampoline_def ioctl_trampoline_def poll_trampoline_def)

text \<open>
  The table that the constructor makes is that of the base class.
\<close>

lemma kernel_view_ctor: "kernel_view dpm vt (FileOperations_ctor vt owner) = FileOperations_vtable"
  by (simp add: kernel_view_def FileOperations_native_handle_def FileOperations_ctor_def vtable_during_base_ctor_def
      FileOperations_vtable_def)

lemma base_class_call:
  "sys_call dpm FileOperations_vtable c s = (r, s') \<Longrightarrow> sy_world s' = sy_world s"
  by (cases c) (auto simp: FileOperations_vtable_def transfer_def split: if_splits option.splits)

lemma base_class_calls:
  "sys_calls dpm FileOperations_vtable cs s = (rets, s') \<Longrightarrow> sy_world s' = sy_world s"
  by (induction cs arbitrary: s rets) (auto simp: base_class_call split: prod.splits)

text \<open>What a process gets from a device without callbacks.\<close>

fun refused :: "nat \<Rightarrow> syscall \<Rightarrow> int \<Rightarrow> bool" where
  "refused dpm (Sys_open i fd) r \<longleftrightarrow> r \<in> {0, - EMFILE}"
| "refused dpm (Sys_read fd buf n) r \<longleftrightarrow> r \<in> {- EINVAL, - EBADF}"
| "refused dpm (Sys_write fd buf n) r \<longleftrightarrow> r \<in> {- EINVAL, - EBADF}"
| "refused dpm (Sys_ioctl fd cmd arg) r \<longleftrightarrow> r \<in> {- ENOTTY, - EBADF}"
| "refused dpm (Sys_poll fd pt) r \<longleftrightarrow> r \<in> {int dpm, - EBADF}"
| "refused dpm (Sys_close i fd) r \<longleftrightarrow> r \<in> {0, - EBADF}"

lemma base_class_refuses:
  "sys_calls dpm FileOperations_vtable cs s = (rets, s') \<Longrightarrow> list_all2 (refused dpm) cs rets"
proof (induction cs arbitrary: s rets)
  case (Cons c cs)
  obtain r s1 where r: "sys_call dpm FileOperations_vtable c s = (r, s1)" by fastforce
  then have "refused dpm c r"
    by (cases c) (auto simp: FileOperations_vtable_def transfer_def split: if_splits option.splits)
  with Cons r show ?case by (auto split: prod.splits)
qed simp

end
