(* ===== verification/Kpp_Sysfs.thy ===== *)
theory Kpp_Sysfs
  imports Kpp_Async
begin

unbundle bit_operations_syntax

text \<open>
  Files in sysfs made of \<open>Attribute\<close> and \<open>AttributeGroup\<close> objects (\<^verbatim>\<open>sysfs/Attribute.hpp\<close>), with the kernel
  serving the accesses of processes of the superuser.

  The kernel makes a file for every attribute of the group, up to the null pointer at the end, with
  the mode cut down to the bits it allows (0664).  Opening a file for reading or writing fails with
  \<open>-EACCES\<close> if no bit of the mode allows it to anyone, also for the superuser.  An access then calls the
  function in the \<open>kobj_attribute\<close>, or answers \<open>-EIO\<close> if there is none.

  If \<open>is_visible\<close> of the group is not null the kernel calls it, and if \<open>bin_attrs\<close> is not null it walks
  it.  The constructor of \<open>AttributeGroup\<close> sets neither, so with anything but zeroes in the memory the
  object is built in, making the group is undefined: \<open>None\<close>.
\<close>

section \<open>What the kernel does\<close>

definition sysfs_create_group :: "AttributeGroup \<Rightarrow> ptr list option" where
  "sysfs_create_group g =
     (if ag_is_visible g = NULL \<and> ag_bin_attrs g = NULL then Some (takeWhile (\<lambda>p. p \<noteq> NULL) (ag_attrs g)) else None)"

definition file_named :: "(ptr \<Rightarrow> 'w Attribute) \<Rightarrow> ptr list \<Rightarrow> cstr \<Rightarrow> 'w Attribute option" where
  "file_named mem files name = map_option mem (find (\<lambda>p. fst (Attribute_native_handle (mem p)) = name) files)"

definition readable :: "nat \<Rightarrow> bool" where
  "readable mode \<longleftrightarrow> mode AND 0x1B4 AND 0x124 \<noteq> 0"

definition writable :: "nat \<Rightarrow> bool" where
  "writable mode \<longleftrightarrow> mode AND 0x1B4 AND 0x92 \<noteq> 0"

datatype access = FRead cstr "char list" | FWrite cstr "char list"

text \<open>
  The result of an access, the buffer of the reader, and the world.  \<open>kobj\<close> is the kobject the group
  was made for.
\<close>

fun file_access ::
  "nat \<Rightarrow> oid \<Rightarrow> (ptr \<Rightarrow> 'w Attribute) \<Rightarrow> ptr list \<Rightarrow> access \<Rightarrow> 'w \<Rightarrow> int \<times> char list \<times> 'w" where
  "file_access off kobj mem files (FRead name buf) w =
     (case file_named mem files name of
        None \<Rightarrow> (- ENOENT, buf, w)
      | Some a \<Rightarrow>
          if \<not> readable (snd (Attribute_native_handle a)) then (- EACCES, buf, w)
          else if at_kshow a then show_trampoline off kobj a buf w else (- EIO, buf, w))"
| "file_access off kobj mem files (FWrite name data) w =
     (case file_named mem files name of
        None \<Rightarrow> (- ENOENT, data, w)
      | Some a \<Rightarrow>
          if \<not> writable (snd (Attribute_native_handle a)) then (- EACCES, data, w)
          else if at_kstore a then (case store_trampoline off kobj a data w of (ret, w') \<Rightarrow> (ret, data, w'))
          else (- EIO, data, w))"

fun file_accesses ::
  "nat \<Rightarrow> oid \<Rightarrow> (ptr \<Rightarrow> 'w Attribute) \<Rightarrow> ptr list \<Rightarrow> access list \<Rightarrow> 'w \<Rightarrow> (int \<times> char list) list \<times> 'w" where
  "file_accesses off kobj mem files [] w = ([], w)"
| "file_accesses off kobj mem files (x # xs) w =
     (let (ret, buf, w1) = file_access off kobj mem files x w;
          (rs, w2) = file_accesses off kobj mem files xs w1
      in ((ret, buf) # rs, w2))"

section \<open>A driver with attributes\<close>

text \<open>
  The attributes a driver declares: name, mode and the member functions, or null.  They are built at
  the addresses \<open>a\<close>, \<open>a + 1\<close>, \<dots>, and the group gets the array of their handles.
\<close>

type_synonym 'w attribute_decl =
  "cstr \<times> nat \<times> (int \<Rightarrow> 'w \<Rightarrow> int \<times> char list \<times> 'w) option \<times> (int \<Rightarrow> char list \<Rightarrow> 'w \<Rightarrow> int \<times> 'w) option"

fun declare_attributes ::
  "nat \<Rightarrow> 'w attribute_decl list \<Rightarrow> (ptr \<Rightarrow> 'w Attribute) \<Rightarrow> (ptr \<Rightarrow> 'w Attribute) \<times> ptr list" where
  "declare_attributes a [] mem = (mem, [NULL])"
| "declare_attributes a ((name, mode, sh, st) # ds) mem =
     (let (mem', ps) = declare_attributes (Suc a) ds (mem(Ptr a := Attribute_ctor name mode sh st))
      in (mem', Ptr a # ps))"

text \<open>The accesses to a driver whose object is at \<open>owner\<close> and has its kobject at the offset \<open>off\<close>.\<close>

definition driver_accesses ::
  "nat \<Rightarrow> nat \<Rightarrow> (ptr \<Rightarrow> 'w Attribute) \<Rightarrow> AttributeGroup \<Rightarrow> access list \<Rightarrow> 'w \<Rightarrow> ((int \<times> char list) list \<times> 'w) option" where
  "driver_accesses off owner mem g xs w =
     map_option (\<lambda>files. file_accesses off (owner + off) mem files xs w)
       (sysfs_create_group (AttributeGroup_native_handle g))"

text \<open>What the accesses are meant to do: call the member functions on the object.\<close>

fun member_access :: "nat \<Rightarrow> 'w attribute_decl list \<Rightarrow> access \<Rightarrow> 'w \<Rightarrow> int \<times> char list \<times> 'w" where
  "member_access owner ds (FRead name buf) w =
     (case map_of ds name of
        None \<Rightarrow> (- ENOENT, buf, w)
      | Some (mode, sh, st) \<Rightarrow>
          if \<not> readable mode then (- EACCES, buf, w)
          else case sh of None \<Rightarrow> (- EIO, buf, w) | Some f \<Rightarrow> f (int owner) w)"
| "member_access owner ds (FWrite name data) w =
     (case map_of ds name of
        None \<Rightarrow> (- ENOENT, data, w)
      | Some (mode, sh, st) \<Rightarrow>
          if \<not> writable mode then (- EACCES, data, w)
          else case st of
              None \<Rightarrow> (- EIO, data, w)
            | Some f \<Rightarrow> (case f (int owner) data w of (ret, w') \<Rightarrow> (ret, data, w')))"

fun member_accesses ::
  "nat \<Rightarrow> 'w attribute_decl list \<Rightarrow> access list \<Rightarrow> 'w \<Rightarrow> (int \<times> char list) list \<times> 'w" where
  "member_accesses owner ds [] w = ([], w)"
| "member_accesses owner ds (x # xs) w =
     (let (ret, buf, w1) = member_access owner ds x w; (rs, w2) = member_accesses owner ds xs w1
      in ((ret, buf) # rs, w2))"

section \<open>Lemmas\<close>

lemma declare_attributes_below:
  "declare_attributes a ds mem = (mem', ps) \<Longrightarrow> b < a \<Longrightarrow> mem' (Ptr b) = mem (Ptr b)"
proof (induction a ds mem arbitrary: mem' ps rule: declare_attributes.induct)
  case (2 a name mode sh st ds mem)
  from 2(2) obtain qs where
    qs: "declare_attributes (Suc a) ds (mem(Ptr a := Attribute_ctor name mode sh st)) = (mem', qs)"
    by (auto split: prod.splits)
  from 2(1) [OF qs] 2(3) show ?case by simp
qed simp

lemma file_named_declared:
  "declare_attributes a ds mem = (mem', ps) \<Longrightarrow>
   file_named mem' (takeWhile (\<lambda>p. p \<noteq> NULL) ps) name =
     map_option (\<lambda>(mode, sh, st). Attribute_ctor name mode sh st) (map_of ds name)"
proof (induction a ds mem arbitrary: mem' ps rule: declare_attributes.induct)
  case (1 a mem)
  then show ?case by (auto simp: file_named_def)
next
  case (2 a n mode sh st ds mem)
  let ?mem = "mem(Ptr a := Attribute_ctor n mode sh st)"
  from 2(2) obtain qs where qs: "declare_attributes (Suc a) ds ?mem = (mem', qs)" "ps = Ptr a # qs"
    by (auto split: prod.splits)
  have "mem' (Ptr a) = Attribute_ctor n mode sh st"
    using declare_attributes_below [OF qs(1), of a] by simp
  with 2(1) [OF qs(1)] qs(2) show ?case
    by (auto simp: file_named_def Attribute_native_handle_def Attribute_ctor_def)
qed

lemma file_access_member:
  assumes "declare_attributes a ds mem = (mem', ps)"
  shows "file_access off (owner + off) mem' (takeWhile (\<lambda>p. p \<noteq> NULL) ps) x w = member_access owner ds x w"
  by (cases x)
    (auto simp: file_named_declared [OF assms] Attribute_ctor_def Attribute_native_handle_def
      show_trampoline_def store_trampoline_def split: option.splits)

lemma file_accesses_member:
  assumes "declare_attributes a ds mem = (mem', ps)"
  shows "file_accesses off (owner + off) mem' (takeWhile (\<lambda>p. p \<noteq> NULL) ps) xs w = member_accesses owner ds xs w"
  by (induction xs arbitrary: w) (simp_all add: file_access_member [OF assms])

section \<open>Properties\<close>

text \<open>
  C34.  Reading and writing the files calls the member functions on the object that has the kobject,
  wherever in the object the kobject is.  For a driver that declares attributes with different names
  in a group whose object was built in zeroed memory, and every sequence of accesses by processes of
  the superuser, what the processes get and what happens to the driver is what direct calls of the
  member functions of the attribute with that name would give, \<open>-EACCES\<close> where the mode forbids the
  access to everyone, \<open>-EIO\<close> where the driver declared no function and \<open>-ENOENT\<close> for other names.  If
  \<open>is_visible\<close> or \<open>bin_attrs\<close> was not zero in that memory, making the group is undefined.
\<close>

theorem Attribute_files_call_members:
  assumes "declare_attributes a ds mem = (mem', ps)" "distinct (map fst ds)" "None \<notin> fst ` set ds"
  shows "driver_accesses off owner mem' (AttributeGroup_ctor gname ps junk) xs w =
    (if ag_is_visible junk = NULL \<and> ag_bin_attrs junk = NULL then Some (member_accesses owner ds xs w) else None)"
  by (simp add: driver_accesses_def sysfs_create_group_def AttributeGroup_ctor_def AttributeGroup_native_handle_def
      file_accesses_member [OF assms(1)])

theorem Attribute_files_call_members_witness:
  "\<exists>mem' ps. declare_attributes 4
       [(Some ''level'', 0x1A4, Some (\<lambda>this w. (1, [w], w)), Some (\<lambda>this d w. (this, hd d))),
        (Some ''fixed'', 0x124, None, Some (\<lambda>this d w. (1, w)))]
       (\<lambda>_. Attribute_ctor None 0 None None) = (mem', ps) \<and>
     driver_accesses 16 100 mem'
       (AttributeGroup_ctor None ps \<lparr>ag_name = None, ag_is_visible = NULL, ag_is_bin_visible = Ptr 9, ag_attrs = [], ag_bin_attrs = NULL\<rparr>)
       [FWrite (Some ''level'') ''7'', FRead (Some ''level'') [], FRead None [], FWrite (Some ''fixed'') ''1''] CHR ''0'' =
       Some ([(100, ''7''), (1, ''7''), (- ENOENT, []), (- EACCES, ''1'')], CHR ''7'')"
proof -
  let ?ds = "[(Some ''level'', 0x1A4, Some (\<lambda>this w. (1, [w], w)), Some (\<lambda>this d w. (this, hd d))),
    (Some ''fixed'', 0x124, None, Some (\<lambda>this d w. (1, w)))] :: char attribute_decl list"
  let ?junk = "\<lparr>ag_name = None, ag_is_visible = NULL, ag_is_bin_visible = Ptr 9, ag_attrs = [], ag_bin_attrs = NULL\<rparr>"
  obtain mem' ps where d: "declare_attributes 4 ?ds (\<lambda>_. Attribute_ctor None 0 None None) = (mem', ps)" by fastforce
  have ok: "distinct (map fst ?ds)" "None \<notin> fst ` set ?ds" by simp_all
  have modes: "readable 0x1A4" "writable 0x1A4" "\<not> writable 0x124"
    by (simp_all add: readable_def writable_def)
  show ?thesis
    using d modes Attribute_files_call_members [OF d ok, of 16 100 None ?junk
        "[FWrite (Some ''level'') ''7'', FRead (Some ''level'') [], FRead None [], FWrite (Some ''fixed'') ''1'']" "CHR ''0''"]
    by simp
qed

end
