(* ===== verification/Kpp_Pinned.thy ===== *)
theory Kpp_Pinned
  imports Kpp_Net Kpp_Netfilter Kpp_Objects Kpp_Sync
begin

text \<open>
  The classes that can be neither copied nor moved: \<^verbatim>\<open>NetlinkSocket\<close>, \<^verbatim>\<open>PerCPU\<close>, \<^verbatim>\<open>NetfilterHook\<close> and
  \<^verbatim>\<open>Mutex\<close>.  An object of such a class gets something from the kernel in its constructor and gives it
  back in its destructor, from the place where it was built.

  What a client may do with such objects (\<open>pstep\<close>, \<open>prun\<close>), the laws of the classes (locale
  \<open>pinned_object\<close>), their consequence for every client, and the four classes as interpretations.
\<close>

section \<open>Client programs\<close>

text \<open>
  \<open>pin_holds x v\<close> is what the object \<open>v\<close> at the address \<open>x\<close> has to give back, if anything.
\<close>

record ('a, 'o, 'r) pinned_ops =
  pin_ctor :: "'a \<Rightarrow> oid \<Rightarrow> trace \<Rightarrow> 'o \<times> trace"
  pin_dtor :: "oid \<Rightarrow> 'o \<Rightarrow> trace \<Rightarrow> trace"
  pin_holds :: "oid \<Rightarrow> 'o \<Rightarrow> 'r option"

datatype 'a pcmd = PNew oid 'a | PDestroy oid

record ('o, 'r) pstate =
  p_objs :: "oid \<Rightarrow> 'o"
  p_alive :: "oid set"
  p_trace :: trace
  p_got :: "'r list"

definition pinit :: "(oid \<Rightarrow> 'o) \<Rightarrow> ('o, 'r) pstate" where
  "pinit s = \<lparr>p_objs = s, p_alive = {}, p_trace = [], p_got = []\<rparr>"

fun pstep :: "('a, 'o, 'r) pinned_ops \<Rightarrow> 'a pcmd \<Rightarrow> ('o, 'r) pstate \<Rightarrow> ('o, 'r) pstate option" where
  "pstep C (PNew x a) \<sigma> =
     (if x \<in> p_alive \<sigma> then None
      else let (v, tr) = pin_ctor C a x (p_trace \<sigma>)
           in Some \<lparr>p_objs = (p_objs \<sigma>)(x := v), p_alive = insert x (p_alive \<sigma>), p_trace = tr,
                    p_got = p_got \<sigma> @ (case pin_holds C x v of None \<Rightarrow> [] | Some r \<Rightarrow> [r])\<rparr>)"
| "pstep C (PDestroy x) \<sigma> =
     (if x \<notin> p_alive \<sigma> then None
      else Some (\<sigma>\<lparr>p_trace := pin_dtor C x (p_objs \<sigma> x) (p_trace \<sigma>), p_alive := p_alive \<sigma> - {x}\<rparr>))"

fun prun :: "('a, 'o, 'r) pinned_ops \<Rightarrow> 'a pcmd list \<Rightarrow> ('o, 'r) pstate \<Rightarrow> ('o, 'r) pstate option" where
  "prun C [] \<sigma> = Some \<sigma>"
| "prun C (c # cs) \<sigma> = (case pstep C c \<sigma> of None \<Rightarrow> None | Some \<sigma>' \<Rightarrow> prun C cs \<sigma>')"

section \<open>The interface\<close>

locale pinned_object =
  fixes C :: "('a, 'o, 'r) pinned_ops"
    and rel :: "'r \<Rightarrow> kcall"
  assumes ctor_keeps: "count_list (snd (pin_ctor C a x tr)) (rel r) = count_list tr (rel r)"
    and dtor_gives_back: "pin_dtor C x v tr = (case pin_holds C x v of None \<Rightarrow> tr | Some r \<Rightarrow> tr @ [rel r])"
    and rel_inj: "rel r = rel r' \<longleftrightarrow> r = r'"
begin

definition pinned :: "('o, 'r) pstate \<Rightarrow> bool" where
  "pinned \<sigma> \<longleftrightarrow> finite (p_alive \<sigma>) \<and>
     (\<forall>r. count_list (p_got \<sigma>) r =
        count_list (p_trace \<sigma>) (rel r) + tally (p_alive \<sigma>) (\<lambda>x. pin_holds C x (p_objs \<sigma> x) = Some r))"

lemma pinned_init: "pinned (pinit s)"
  by (simp add: pinned_def pinit_def)

lemma pinned_new:
  assumes "pinned \<sigma>" "pstep C (PNew x a) \<sigma> = Some \<sigma>'"
  shows "pinned \<sigma>'"
proof -
  obtain v tr where c: "pin_ctor C a x (p_trace \<sigma>) = (v, tr)" by fastforce
  with assms(2) have x: "x \<notin> p_alive \<sigma>" and \<sigma>': "\<sigma>' = \<lparr>p_objs = (p_objs \<sigma>)(x := v), p_alive = insert x (p_alive \<sigma>),
      p_trace = tr, p_got = p_got \<sigma> @ (case pin_holds C x v of None \<Rightarrow> [] | Some r \<Rightarrow> [r])\<rparr>"
    by (auto split: if_splits)
  have "tally (p_alive \<sigma>) (\<lambda>y. pin_holds C y (((p_objs \<sigma>)(x := v)) y) = Some r) =
      tally (p_alive \<sigma>) (\<lambda>y. pin_holds C y (p_objs \<sigma> y) = Some r)" for r
    using x by (intro tally_cong) auto
  moreover have "count_list tr (rel r) = count_list (p_trace \<sigma>) (rel r)" for r
    using ctor_keeps [of a x "p_trace \<sigma>" r] c by simp
  ultimately show ?thesis
    using assms(1) x by (auto simp: pinned_def \<sigma>' split: option.splits)
qed

lemma pinned_destroy:
  assumes "pinned \<sigma>" "pstep C (PDestroy x) \<sigma> = Some \<sigma>'"
  shows "pinned \<sigma>'"
proof -
  from assms(2) have x: "x \<in> p_alive \<sigma>"
    and \<sigma>': "\<sigma>' = \<sigma>\<lparr>p_trace := pin_dtor C x (p_objs \<sigma> x) (p_trace \<sigma>), p_alive := p_alive \<sigma> - {x}\<rparr>"
    by (auto split: if_splits)
  from assms(1) x show ?thesis
    by (auto simp: pinned_def \<sigma>' dtor_gives_back rel_inj tally_remove [of "p_alive \<sigma>" x] split: option.splits)
qed

lemma pinned_run: "pinned \<sigma> \<Longrightarrow> prun C cs \<sigma> = Some \<sigma>' \<Longrightarrow> pinned \<sigma>'"
proof (induction cs arbitrary: \<sigma>)
  case (Cons c cs)
  then obtain \<sigma>1 where s: "pstep C c \<sigma> = Some \<sigma>1" "prun C cs \<sigma>1 = Some \<sigma>'" by (auto split: option.splits)
  then have "pinned \<sigma>1" using Cons.prems(1) by (cases c) (metis pinned_new pinned_destroy)+
  with Cons.IH s(2) show ?case by blast
qed simp

text \<open>
  What was got is what was given back and what living objects have; when the last object is gone,
  everything was given back.
\<close>

lemma run_gives_back:
  assumes "prun C cs (pinit s) = Some \<sigma>"
  shows "count_list (p_got \<sigma>) r =
    count_list (p_trace \<sigma>) (rel r) + card {x \<in> p_alive \<sigma>. pin_holds C x (p_objs \<sigma> x) = Some r}"
  using pinned_run [OF pinned_init assms] by (simp add: pinned_def tally_def)

end

section \<open>The classes\<close>

definition held_ptr :: "ptr \<Rightarrow> ptr option" where
  "held_ptr p = (if p = NULL then None else Some p)"

lemma held_ptr_Some [simp]: "held_ptr p = Some r \<longleftrightarrow> p = r \<and> r \<noteq> NULL"
  by (auto simp: held_ptr_def)

definition NetlinkSocket_pinned :: "(int \<Rightarrow> nat \<Rightarrow> ptr) \<Rightarrow> (int \<times> nat, NetlinkSocket, ptr) pinned_ops" where
  "NetlinkSocket_pinned create = \<lparr>pin_ctor = \<lambda>(protocol, cfg) x tr. (NetlinkSocket_ctor create protocol cfg, tr),
     pin_dtor = \<lambda>x. NetlinkSocket_dtor, pin_holds = \<lambda>x v. held_ptr (NetlinkSocket_native_handle v)\<rparr>"

interpretation netlink: pinned_object "NetlinkSocket_pinned create" "\<lambda>p. Net (Netlink_kernel_release p)" for create
  by unfold_locales
    (auto simp: NetlinkSocket_pinned_def NetlinkSocket_dtor_def NetlinkSocket_native_handle_def held_ptr_def)

definition PerCPU_pinned :: "(trace \<Rightarrow> nat \<Rightarrow> ptr) \<Rightarrow> (nat, PerCPU, ptr) pinned_ops" where
  "PerCPU_pinned alloc = \<lparr>pin_ctor = \<lambda>sizeof_T x. PerCPU_ctor alloc sizeof_T, pin_dtor = \<lambda>x. PerCPU_dtor,
     pin_holds = \<lambda>x v. held_ptr (pc_ptr v)\<rparr>"

interpretation percpu: pinned_object "PerCPU_pinned alloc" "\<lambda>p. Obj (Free_percpu p)" for alloc
  by unfold_locales (auto simp: PerCPU_pinned_def PerCPU_ctor_def PerCPU_dtor_def held_ptr_def)

definition NetfilterHook_pinned ::
  "(trace \<Rightarrow> oid \<Rightarrow> int) \<Rightarrow> (ptr \<times> 'w hook_func option \<times> nat \<times> int, 'w NetfilterHook, oid) pinned_ops" where
  "NetfilterHook_pinned reg = \<lparr>pin_ctor = \<lambda>(owner, callback, hooknum, priority) x.
       NetfilterHook_ctor reg x owner callback hooknum priority,
     pin_dtor = \<lambda>x v. NetfilterHook_dtor x, pin_holds = \<lambda>x v. Some x\<rparr>"

interpretation nfhook: pinned_object "NetfilterHook_pinned reg" "\<lambda>x. Dev (Nf_unregister_net_hook x)" for reg
  by unfold_locales (auto simp: NetfilterHook_pinned_def NetfilterHook_ctor_def NetfilterHook_dtor_def)

definition Mutex_pinned :: "(unit, unit, oid) pinned_ops" where
  "Mutex_pinned = \<lparr>pin_ctor = \<lambda>_ x tr. ((), Mutex_ctor x tr), pin_dtor = \<lambda>x _. Mutex_dtor x, pin_holds = \<lambda>x _. Some x\<rparr>"

interpretation mutex_object: pinned_object Mutex_pinned "\<lambda>x. Sync (Mutex_destroy x)"
  by unfold_locales (auto simp: Mutex_pinned_def Mutex_ctor_def Mutex_dtor_def)

text \<open>
  For a hook, what was got is a call of \<open>nf_register_net_hook\<close>, which may have failed.  \<open>hook_log reg x tr\<close>
  is what happened to the hook at \<open>x\<close>: whether it is registered, how many registrations failed, and how
  often it was unregistered when it was not registered.
\<close>

fun hook_step :: "(trace \<Rightarrow> oid \<Rightarrow> int) \<Rightarrow> oid \<Rightarrow> trace \<Rightarrow> kcall \<Rightarrow> bool \<times> nat \<times> nat \<Rightarrow> bool \<times> nat \<times> nat" where
  "hook_step reg x tr (Dev (Nf_register_net_hook y)) (r, failed, stray) =
     (if y \<noteq> x then (r, failed, stray)
      else if reg tr x = 0 then (True, failed, stray) else (r, Suc failed, stray))"
| "hook_step reg x tr (Dev (Nf_unregister_net_hook y)) (r, failed, stray) =
     (if y \<noteq> x then (r, failed, stray) else (False, failed, if r then stray else Suc stray))"
| "hook_step reg x tr c s = s"

definition hook_log :: "(trace \<Rightarrow> oid \<Rightarrow> int) \<Rightarrow> oid \<Rightarrow> trace \<Rightarrow> bool \<times> nat \<times> nat" where
  "hook_log reg x tr = replay (hook_step reg x) (False, 0, 0) tr"

text \<open>
  At a point where the object at \<open>x\<close> lives or not.  (Every failure is unregistered later, or belongs to
  the object that lives.)
\<close>

fun hook_ok :: "bool \<Rightarrow> bool \<times> nat \<times> nat \<Rightarrow> bool" where
  "hook_ok alive (r, failed, stray) \<longleftrightarrow> (r \<longrightarrow> alive) \<and> failed = stray + of_bool (alive \<and> \<not> r)"

lemma hook_run:
  "hook_ok (x \<in> p_alive \<sigma>) (hook_log reg x (p_trace \<sigma>)) \<Longrightarrow> prun (NetfilterHook_pinned reg) cs \<sigma> = Some \<sigma>' \<Longrightarrow>
   hook_ok (x \<in> p_alive \<sigma>') (hook_log reg x (p_trace \<sigma>'))"
proof (induction cs arbitrary: \<sigma>)
  case (Cons c cs)
  from Cons.prems(2) obtain \<sigma>1 where
    1: "pstep (NetfilterHook_pinned reg) c \<sigma> = Some \<sigma>1" "prun (NetfilterHook_pinned reg) cs \<sigma>1 = Some \<sigma>'"
    by (auto split: option.splits)
  obtain r f s where log: "hook_log reg x (p_trace \<sigma>) = (r, f, s)" by (cases "hook_log reg x (p_trace \<sigma>)")
  with Cons.prems(1) 1(1) have "hook_ok (x \<in> p_alive \<sigma>1) (hook_log reg x (p_trace \<sigma>1))"
    by (cases c) (auto simp: NetfilterHook_pinned_def NetfilterHook_ctor_def NetfilterHook_dtor_def hook_log_def
        split: if_splits)
  with Cons.IH 1(2) show ?case by blast
qed simp

lemma hook_never_fails:
  "\<forall>tr. reg tr x = 0 \<Longrightarrow> fst (snd (hook_log reg x tr)) = 0"
proof (induction tr rule: rev_induct)
  case Nil
  then show ?case by (simp add: hook_log_def)
next
  case (snoc c tr)
  then show ?case
    by (cases "(reg, x, tr, c, hook_log reg x tr)" rule: hook_step.cases) (auto simp: hook_log_def)
qed

text \<open>
  Netlink sockets and per-CPU areas: what a constructor got was given back or is in a living object,
  as often as it was got; nothing is given back twice, and nothing is left after the last destructor.
\<close>

lemma NetlinkSocket_gives_back:
  assumes "prun (NetlinkSocket_pinned create) cs (pinit s) = Some \<sigma>" "r \<noteq> NULL"
  shows "count_list (p_got \<sigma>) r = count_list (p_trace \<sigma>) (Net (Netlink_kernel_release r)) +
    card {x \<in> p_alive \<sigma>. NetlinkSocket_native_handle (p_objs \<sigma> x) = r}"
  using netlink.run_gives_back [OF assms(1), of r] assms(2) by (simp add: NetlinkSocket_pinned_def)

lemma PerCPU_gives_back:
  assumes "prun (PerCPU_pinned alloc) cs (pinit s) = Some \<sigma>" "r \<noteq> NULL"
  shows "count_list (p_got \<sigma>) r = count_list (p_trace \<sigma>) (Obj (Free_percpu r)) +
    card {x \<in> p_alive \<sigma>. pc_ptr (p_objs \<sigma> x) = r}"
  using percpu.run_gives_back [OF assms(1), of r] assms(2) by (simp add: PerCPU_pinned_def)

section \<open>Properties\<close>

text \<open>
  C38.  Netfilter hooks and their objects, for every program that builds and destroys \<open>NetfilterHook\<close>
  objects in whatever order, and whatever the kernel answers.  A hook is registered only while its
  object lives, so no hook is left behind without an object.  If every registration succeeds, it is
  registered exactly while its object lives and is never unregistered without being registered.  A
  registration that fails is not noticed: the object lives without a hook, and when it is destroyed
  a hook that is not registered is unregistered, once for every failure.
\<close>

theorem NetfilterHook_registered_while_alive:
  assumes "prun (NetfilterHook_pinned reg) cs (pinit s) = Some \<sigma>"
    and "hook_log reg x (p_trace \<sigma>) = (is_registered, failed, stray)"
  shows "(is_registered \<longrightarrow> x \<in> p_alive \<sigma>) \<and>
    ((\<forall>tr. reg tr x = 0) \<longrightarrow> (is_registered \<longleftrightarrow> x \<in> p_alive \<sigma>) \<and> stray = 0) \<and>
    failed = stray + of_bool (x \<in> p_alive \<sigma> \<and> \<not> is_registered)"
proof -
  have "hook_ok (x \<in> p_alive (pinit s)) (hook_log reg x (p_trace (pinit s)))"
    by (simp add: pinit_def hook_log_def)
  from hook_run [OF this assms(1)] hook_never_fails [of reg x "p_trace \<sigma>"] assms(2) show ?thesis by auto
qed

theorem NetfilterHook_registered_while_alive_witness:
  "\<exists>\<sigma>. prun (NetfilterHook_pinned (\<lambda>_ a. if a = 8 then - 12 else 0))
       [PNew 8 (Ptr 5, None, 0, - 100), PNew 9 (Ptr 5, None, 1, 0), PDestroy 8]
       (pinit (\<lambda>_. fst (NetfilterHook_ctor (\<lambda>_ _. 0) 0 NULL None 0 0 []))) = Some (\<sigma> :: (unit NetfilterHook, oid) pstate) \<and>
     hook_log (\<lambda>_ a. if a = 8 then - 12 else 0) 8 (p_trace \<sigma>) = (False, 1, 1)"
proof -
  let ?reg = "\<lambda>_ a. if a = 8 then - 12 else 0"
  let ?cs = "[PNew 8 (Ptr 5, None, 0, - 100), PNew 9 (Ptr 5, None, 1, 0), PDestroy 8]"
  let ?s = "\<lambda>_. fst (NetfilterHook_ctor (\<lambda>_ _. 0) 0 NULL None 0 0 [])"
  obtain \<sigma> where r: "prun (NetfilterHook_pinned ?reg) ?cs (pinit ?s) = Some (\<sigma> :: (unit NetfilterHook, oid) pstate)"
    and l: "8 \<notin> p_alive \<sigma>" "fst (snd (hook_log ?reg 8 (p_trace \<sigma>))) = 1"
    by (simp add: NetfilterHook_pinned_def NetfilterHook_ctor_def NetfilterHook_dtor_def pinit_def hook_log_def replay_def)
  obtain b f d where log: "hook_log ?reg 8 (p_trace \<sigma>) = (b, f, d)" by (cases "hook_log ?reg 8 (p_trace \<sigma>)")
  from NetfilterHook_registered_while_alive [OF r log] r l log show ?thesis by auto
qed

end
