(* ===== verification/Spec2Isabelle.thy ===== *)
theory Spec2Isabelle
  imports Kpp_Threads Kpp_HashMap Kpp_EchoThreads Kpp_Netfilter Kpp_Notifier Kpp_KObject Kpp_Objects Kpp_Log
    Kpp_Locking Kpp_Waiting Kpp_Param Kpp_Timer Kpp_ListPrograms Kpp_Syscalls Kpp_Sysfs Kpp_Pinned
begin

text \<open>
  \<^bold>\<open>A verification library for kpp\<close>

  kpp (\<^verbatim>\<open>src/include/kpp\<close>) is a header-only C++ layer over the Linux kernel API: classes that own
  kernel objects and give them back in their destructors, smart pointers over \<open>kmalloc\<close>, locks,
  a list and a hash table, and templates that route file operations, ioctls, netfilter hooks and
  deferred work to member functions.  \<^verbatim>\<open>src/include/driver\<close> and \<^verbatim>\<open>src/examples\<close> hold three kernel
  modules written with it.

  \<^bold>\<open>How the code is modelled.\<close>  A class is a record of its data members.  A member function is a
  definition that takes the object, or the store of objects and the addresses of the ones involved
  where the code compares \<open>this\<close> with \<open>&other\<close>, and returns what it changes.  What a function does
  to the kernel is the list of kernel calls it makes, appended to a trace (\<open>kcall\<close>, \<open>trace\<close> in
  \<^verbatim>\<open>Kpp_Prelude\<close>).  What a kernel function returns is a parameter, which may depend on the trace; the
  documented behaviour that a theorem needs is a named predicate on the parameter
  (\<open>kmalloc_fresh\<close>, \<open>kmalloc_disjoint\<close>, \<open>atomic_ok\<close>, \<open>kref_ok\<close>, \<open>percpu_disjoint\<close>, \<open>uaccess_ok\<close>) or a
  locale (\<open>kernel_list\<close>), and each has a concrete instance (\<open>bump_alloc\<close>, \<open>block_alloc\<close>, \<open>word_atomics\<close>,
  \<open>word_krefs\<close>, \<open>bounded_uaccess\<close>, \<open>pointer_lists\<close>) on which the witnesses run.  A dereference that the code does not guard, an
  access outside an array, a read of the inactive member of a union and an endless loop are the
  value \<open>None\<close> (or the outcome \<open>Fault\<close>), so that their absence is a theorem.  Where the state that
  matters is inside the kernel (the counter of a semaphore, pending timers, the reference count of a
  kobject, the registered hooks), the documented effect of the kernel functions is a function on it
  that runs over the calls the member functions make (\<open>sem_exec\<close>, \<open>comp_exec\<close>, \<open>timer_exec\<close>, \<open>kobj_step\<close>,
  \<open>reg_step\<close>, \<open>hook_step\<close>); where the kernel may refuse, it follows the answers (\<open>replay\<close>).

  Clients of a class are sequences of commands (construct, copy, move, assign, destroy) that may
  name any object; a command C++ does not allow at that point (use outside the lifetime) stops the
  run.  The theorems about a class hold for every such program; each says which constructors and
  which objects it covers.  Two kinds of programs the classes admit are left out of the memory safety
  theorems: handles made by hand from a raw pointer that something else owns (\<^verbatim>\<open>SharedPtr(T*, ControlBlock*)\<close>,
  a second \<^verbatim>\<open>UniquePtr(T*)\<close> on one pointer), and owners that are members of the objects they own.  For the
  latter, the destructor of a shared object is a parameter of \<open>SharedPtr\<close>'s operations, and the last
  section of \<^verbatim>\<open>Kpp_SharedPtr\<close> shows where they go wrong.

  Concurrent clients are schedules: lists of events, each one statement or one atomic operation of
  a thread, in any order.  The theorems hold for every schedule.

  Calls inside namespace \<^verbatim>\<open>kpp\<close> of a name that both kpp and the kernel define are read as calls
  of the kernel function.  \<open>make_unique\<close> called with constructor arguments is read as forwarding
  them.  The cast of \<open>f->f_op\<close> in the file operation trampolines is read as giving the object, and the
  attribute tables of the status module, whose types do not fit, as what they mean.  The member argument
  \<^verbatim>\<open>kobj.native_handle()\<close> of \<open>container_of\<close> is read as the member \<open>kobj\<close>.  In \<open>HashMap\<close>, \<open>make_unique\<close> and
  \<open>operator[]\<close> of an array of lists are read as those of an array, and the \<^verbatim>\<open>auto&\<close> of the loop of \<open>find\<close>,
  which cannot bind to the pointer it gets, as \<^verbatim>\<open>auto\<close>; the rest of \<open>find\<close> is as written.

  \<^bold>\<open>The theories.\<close>
  \<^item> \<^verbatim>\<open>Kpp_Prelude\<close>: pointers, error numbers, kernel calls and the effect of their answers, counting lemmas.
  \<^item> \<^verbatim>\<open>Kpp_Handle\<close>: client programs over move-only owning classes and the locale \<open>owning_handle\<close>:
    what the destructor and the moves must do.  From the laws: the balance of references taken,
    released and held; no leak once every object is gone; a single owner.
  \<^item> \<^verbatim>\<open>Kpp_Pinned\<close>: the classes that cannot be moved (\<^verbatim>\<open>NetlinkSocket\<close>, \<^verbatim>\<open>PerCPU\<close>, \<^verbatim>\<open>NetfilterHook\<close>, \<^verbatim>\<open>Mutex\<close>), as
    interpretations of the locale \<open>pinned_object\<close>: what a constructor gets the destructor gives back; and
    netfilter hooks whose registration may fail.
  \<^item> \<^verbatim>\<open>Kpp_StringView\<close>: \<^verbatim>\<open>core/StringView.hpp\<close>, \<^verbatim>\<open>core/ModuleParam.hpp\<close>.  Equality of views; a
    \<open>StringParam\<close> gives back the last string written to it.  Here a pointer is the characters behind it,
    so all of this is for strings that stay in memory.
  \<^item> \<^verbatim>\<open>Kpp_Param\<close>: the callbacks of \<^verbatim>\<open>core/ModuleParam.hpp\<close> over addresses.  They refine those of
    \<^verbatim>\<open>Kpp_StringView\<close> while the buffers exist; what a read gives after any writes and frees of buffers, and that after a
    write through sysfs the view dangles.
  \<^item> \<^verbatim>\<open>Kpp_Net\<close>: \<^verbatim>\<open>net/SKB.hpp\<close>, \<^verbatim>\<open>NetDevice\<close>, \<^verbatim>\<open>DstEntry\<close>, \<^verbatim>\<open>KernelSocket\<close>, \<^verbatim>\<open>NetlinkSocket\<close>, \<^verbatim>\<open>XDP\<close>,
    \<^verbatim>\<open>bpf/BPFProgram.hpp\<close>; six interpretations of \<open>owning_handle\<close>.
  \<^item> \<^verbatim>\<open>Kpp_Memory\<close>: \<^verbatim>\<open>memory/Kmalloc.hpp\<close>, \<^verbatim>\<open>memory/UniquePtr.hpp\<close>; the heap read off a trace
    (\<open>heap_run\<close>), memory safety and absence of leaks for owners outside the heap.
  \<^item> \<^verbatim>\<open>Kpp_SharedPtr\<close>: \<^verbatim>\<open>memory/SharedPtr.hpp\<close>; the reference counting invariant for objects that hold
    no handles, and the assignment from a handle inside the object.
  \<^item> \<^verbatim>\<open>Kpp_Threads\<close>: \<open>SharedPtr\<close> handles of several threads, with \<open>release\<close> split at its atomic
    operation: no use after free, one destruction.
  \<^item> \<^verbatim>\<open>Kpp_Sync\<close>: \<^verbatim>\<open>sync/*.hpp\<close>; atomics at 32 bits, locks (locale \<open>lockable\<close>), nested scopes.
  \<^item> \<^verbatim>\<open>Kpp_Locking\<close>: threads whose functions nest \<open>ScopedLock\<close>s and block on each other (a step
    relation): scopes in the order of addresses never deadlock, in the opposite order they can.
  \<^item> \<^verbatim>\<open>Kpp_Waiting\<close>: schedules of threads over a \<open>Semaphore\<close> (units are conserved, also when anyone calls \<open>up\<close>) and a \<open>Completion\<close>
    (a value stored before \<open>complete\<close> is what a thread finds after \<open>wait\<close>).
  \<^item> \<^verbatim>\<open>Kpp_Error\<close>: \<^verbatim>\<open>core/Error.hpp\<close>, \<^verbatim>\<open>util/Expected.hpp\<close>.
  \<^item> \<^verbatim>\<open>Kpp_List\<close>, \<^verbatim>\<open>Kpp_HashMap\<close>: \<^verbatim>\<open>util/List.hpp\<close> over the interface \<open>kernel_list\<close>, and
    \<^verbatim>\<open>util/HashMap.hpp\<close>: the table \<open>insert\<close> builds as a finite map, the \<open>find\<close> that does not look at it, and
    the nodes the destructor leaves behind.
  \<^item> \<^verbatim>\<open>Kpp_ListPrograms\<close>: programs over several lists refine operations on lists of nodes.
  \<^item> \<^verbatim>\<open>Kpp_Vfs\<close>: \<^verbatim>\<open>vfs/UserData.hpp\<close>, \<^verbatim>\<open>vfs/IoctlDSL.hpp\<close>, \<^verbatim>\<open>vfs/FileOperations.hpp\<close>.
  \<^item> \<^verbatim>\<open>Kpp_Syscalls\<close>: the system calls of processes over the table of a \<open>FileOperations\<close> object: the
    trampolines are transparent, and the table the constructor makes is that of the base class.
  \<^item> \<^verbatim>\<open>Kpp_Devmodel\<close>: \<^verbatim>\<open>core/Kset.hpp\<close>, \<^verbatim>\<open>core/KObject.hpp\<close>, \<^verbatim>\<open>vfs/DeviceClass.hpp\<close>,
    \<^verbatim>\<open>vfs/Device.hpp\<close>, \<^verbatim>\<open>vfs/CharDevice.hpp\<close>, \<^verbatim>\<open>debug/DebugFS.hpp\<close>.
  \<^item> \<^verbatim>\<open>Kpp_Echo\<close>: \<^verbatim>\<open>driver/driver.cpp\<close>, a character device over all of the above: bounds of its
    buffer, write/read round trip, initialisation and exit of the module.
  \<^item> \<^verbatim>\<open>Kpp_EchoThreads\<close>: the same device statement by statement under several threads: it is
    linearizable, every call ends, and what it returns has the form the kernel expects.
  \<^item> \<^verbatim>\<open>Kpp_Netfilter\<close>: \<^verbatim>\<open>net/NetfilterHook.hpp\<close>, \<^verbatim>\<open>driver/firewall_driver.cpp\<close>.
  \<^item> \<^verbatim>\<open>Kpp_Async\<close>: \<^verbatim>\<open>async/WorkQueue.hpp\<close> as a step relation (each item runs once, all of them
    run), \<^verbatim>\<open>async/Timer.hpp\<close> with times that wrap around, \<^verbatim>\<open>core/Notifier.hpp\<close>,
    \<^verbatim>\<open>sysfs/Attribute.hpp\<close>.
  \<^item> \<^verbatim>\<open>Kpp_Timer\<close>: timers with the kernel firing them on another CPU while owners go on: no callback
    after the destructor, none before its time.
  \<^item> \<^verbatim>\<open>Kpp_Sysfs\<close>: files made of \<open>Attribute\<close>s in an \<open>AttributeGroup\<close>: accesses are calls of the member
    functions on the object that contains the kobject.
  \<^item> \<^verbatim>\<open>Kpp_Notifier\<close>: programs over \<open>Notifier\<close> objects, with registrations that may fail and the kernel calling
    the chain: no dangling block is called.
  \<^item> \<^verbatim>\<open>Kpp_Status\<close>: \<^verbatim>\<open>examples/syssf_status/status_module.cpp\<close>, with its attribute tables.
  \<^item> \<^verbatim>\<open>Kpp_KObject\<close>: the references of a kobject and on its parent over \<^verbatim>\<open>core/KObject.hpp\<close>, the release callback, what
    the file of the status module shows, and that its kobject is never released.
  \<^item> \<^verbatim>\<open>Kpp_Objects\<close>: \<^verbatim>\<open>util/Kref.hpp\<close> (one release), \<^verbatim>\<open>util/PerCPU.hpp\<close> (no lost update by
    tasks that the scheduler moves between CPUs), \<^verbatim>\<open>vfs/Page.hpp\<close> (nested mappings), \<^verbatim>\<open>vfs/Poll.hpp\<close>, \<^verbatim>\<open>vfs/VFSObjects.hpp\<close>,
    \<^verbatim>\<open>testing/Mocker.hpp\<close>.
  \<^item> \<^verbatim>\<open>Kpp_Log\<close>: \<^verbatim>\<open>core/Log.hpp\<close> over a model of \<open>printk\<close>, and \<^verbatim>\<open>testing/TestFramework.hpp\<close>: what a test with
    assertions does.
  \<^item> this theory: what processes get from the echo device once the module is loaded.

  \<^bold>\<open>Bounds and fuel.\<close>  The only fuel is that of \<open>cat\<close> in \<^verbatim>\<open>Kpp_Echo\<close>, a reader that calls \<open>read\<close>
  until end of file: every call delivers at least one of at most 255 bytes, so 256 calls are
  enough, and the round trip theorem says so.  Loops over lists are \<open>partial_function\<close>s; that they
  end on a well-formed list is part of the theorems.  The reference counter of \<open>SharedPtr\<close> has 32
  bits; the theorems ask for fewer commands than it can count.  Per-CPU counters wrap at 64 bits.  A \<open>Kref\<close> saturates above
  \<open>2 ^ 31 - 1\<close> references, which \<open>kref_allowed\<close> excludes.
  The counter of a \<open>Completion\<close> has 32 bits too, and the theorem asks for fewer than \<open>2 ^ 32 - 1\<close> events.  \<open>finish\<close> in \<^verbatim>\<open>Kpp_EchoThreads\<close> ends because every
  statement lowers \<open>pc_left\<close>.

  \<^bold>\<open>Where the code does not do what it means to\<close>, the theorem says what it does: a \<open>UniquePtr\<close>
  never runs the destructor of its object, assignment of a \<open>SharedPtr\<close> from a member of its own object
  uses what it destroyed, \<open>HashMap::find\<close> looks at the address of a variable, a failed registration of a
  notifier or hook goes unnoticed, an attribute group is half initialised, \<open>accept\<close> loses the socket, \<open>Atomic::set\<close> does nothing,
  \<open>FileOperations\<close> installs no callback, the netfilter trampoline frees packets it hands back, a string
  parameter written through sysfs dangles, a \<open>Timer\<close> that was not set up cannot be destroyed, a failing assertion is undefined before it panics, and the
  modules leak what they acquired.

  \<^bold>\<open>Not modelled.\<close>  The calls of \<open>log\<close> in the drivers (output only; several pass arguments that
  \<open>printk\<close> does not take); the umbrella header \<^verbatim>\<open>kpp.hpp\<close>, which has only include directives; deleted and
  defaulted members, which show in the commands the clients of a class have; the macros that give the
  kernel the author and the licence of a module; weak memory (an operation of the kernel on an atomic
  or under a lock is one step); interrupt handlers; what the kernel does to the bytes of a packet in \<open>push\<close>,
  \<open>pull\<close>, \<open>trim\<close> and \<open>reserve\<close> of \<open>SKB\<close>, which pass their arguments on; the inside of the kernel beyond the documented behaviour that the
  theorems name.
\<close>

section \<open>The echo module as a whole\<close>

lemma assign_temporary_fops: "em_fops (assign_temporary g u s) = em_fops s"
  by (simp add: assign_temporary_def case_prod_beta)

lemma new_fops:
  "em_fops (new_class K s) = em_fops s" "em_fops (new_char_dev K s) = em_fops s"
  "em_fops (new_device K s) = em_fops s"
  by (simp_all add: new_class_def new_char_dev_def new_device_def assign_temporary_fops case_prod_beta Let_def)

lemma new_driver_fops:
  assumes "up_ptr (em_ptrs s g_driver) = NULL" "up_ptr (em_ptrs (new_driver K s) g_driver) \<noteq> NULL"
  shows "\<exists>q. em_fops (new_driver K s) = FileOperations_ctor (EchoDriver_vtable (ek_uaccess K)) q"
proof (cases "UniquePtr_bool (fst (make_unique (ek_alloc K) (ek_sizeof_driver K) GFP_KERNEL (em_trace s)))")
  case True
  then show ?thesis
    by (intro exI) (simp add: new_driver_def assign_temporary_fops case_prod_beta Let_def)
next
  case False
  let ?u = "make_unique (ek_alloc K) (ek_sizeof_driver K) GFP_KERNEL (em_trace s)"
  from False have "new_driver K s = assign_temporary g_driver (fst ?u) (s\<lparr>em_trace := snd ?u\<rparr>)"
    by (simp add: new_driver_def case_prod_beta Let_def)
  with assign_temporary_null [of "s\<lparr>em_trace := snd ?u\<rparr>" g_driver "fst ?u"] assms False show ?thesis
    by (simp add: UniquePtr_bool_def)
qed

lemma echo_init_fops:
  assumes "echo_driver_init K echo_statics = Some (0, s)"
  shows "\<exists>q. em_fops s = FileOperations_ctor (EchoDriver_vtable (ek_uaccess K)) q"
proof -
  from assms have s: "s = st6 K" "up_ptr (em_ptrs (st1 K) g_driver) \<noteq> NULL"
    unfolding echo_init_stages by (auto split: if_splits)
  then have "em_fops s = em_fops (st1 K)"
    by (simp add: st6_def st5_def st4_def st3_def st2_def new_fops)
  with new_driver_fops [of echo_statics K] s(2) show ?thesis by (auto simp: st1_def echo_statics_def)
qed

text \<open>
  The echo device answers nothing: after a successful \<open>echo_driver_init\<close> the operations table
  that was given to \<open>cdev_init\<close> has no callback, although \<open>EchoDriver\<close> overrides four of the virtual
  functions, because the base class constructor filled the table before \<open>EchoDriver\<close> existed.
\<close>

theorem echo_device_has_no_operations:
  assumes "echo_driver_init K echo_statics = Some (0, s)"
  shows "vt_open (EchoDriver_vtable (ek_uaccess K)) \<noteq> None \<and> vt_read (EchoDriver_vtable (ek_uaccess K)) \<noteq> None \<and>
    FileOperations_native_handle (em_fops s) = \<lparr>fop_owner = True, fop_open = False, fop_release = False, fop_read = False,
      fop_write = False, fop_unlocked_ioctl = False, fop_poll = False\<rparr>"
  using echo_init_fops [OF assms]
  by (auto simp: EchoDriver_vtable_def FileOperations_ctor_def vtable_during_base_ctor_def FileOperations_vtable_def
      FileOperations_native_handle_def)

text \<open>
  C36.  The echo device refuses all input and output: after a successful \<open>echo_driver_init\<close>, whatever
  sequence of system calls the processes make on the device, with the kernel going through the table
  and the trampolines of the driver object, every \<open>read\<close> and \<open>write\<close> fails, with \<open>-EINVAL\<close> on an open file, every
  \<open>ioctl\<close> fails, the state of the driver does not change, and yet \<open>EchoDriver\<close> has callbacks for \<open>read\<close> and
  \<open>write\<close>: the table is the one of the base class.
\<close>

theorem echo_device_refuses_io:
  assumes "echo_driver_init K echo_statics = Some (0, s)" "vt = EchoDriver_vtable (ek_uaccess K)"
    and "sys_calls dpm (kernel_view dpm vt (em_fops s)) cs \<lparr>sy_files = Map.empty, sy_world = w\<rparr> = (rets, t)"
  shows "sy_world t = w \<and> list_all2 (refused dpm) cs rets \<and> vt_read vt \<noteq> None \<and> vt_write vt \<noteq> None"
proof -
  from echo_init_fops [OF assms(1)] assms(2) have "kernel_view dpm vt (em_fops s) = FileOperations_vtable"
    by (auto simp: kernel_view_ctor)
  with assms(3) have "sys_calls dpm FileOperations_vtable cs \<lparr>sy_files = Map.empty, sy_world = w\<rparr> = (rets, t)" by simp
  from base_class_calls [OF this] base_class_refuses [OF this] assms(2) show ?thesis
    by (simp add: EchoDriver_vtable_def)
qed

theorem echo_device_refuses_io_witness:
  "\<exists>s t. echo_driver_init working_kernel echo_statics = Some (0, s) \<and>
     sys_calls 325 (kernel_view 325 (EchoDriver_vtable (ek_uaccess working_kernel)) (em_fops s))
       [Sys_open 0 3, Sys_write 3 64 5, Sys_close 0 3] \<lparr>sy_files = Map.empty, sy_world = None\<rparr> = ([0, - EINVAL, 0], t)"
proof -
  obtain s where s: "echo_driver_init working_kernel echo_statics = Some (0, s)"
    by (simp add: echo_eval)
  let ?vt = "EchoDriver_vtable (ek_uaccess working_kernel)"
  let ?cs = "[Sys_open 0 3, Sys_write 3 64 5, Sys_close 0 3]"
  let ?s = "\<lparr>sy_files = Map.empty, sy_world = None\<rparr>"
  obtain rets t where r: "sys_calls 325 (kernel_view 325 ?vt (em_fops s)) ?cs ?s = (rets, t)" by fastforce
  from echo_init_fops [OF s] have "kernel_view 325 ?vt (em_fops s) = FileOperations_vtable" by (auto simp: kernel_view_ctor)
  with r have "rets = [0, - EINVAL, 0]" by (auto simp: FileOperations_vtable_def transfer_def)
  with r s echo_device_refuses_io [OF s refl r] show ?thesis by blast
qed

end
